(* ===== verification/Prelude.thy ===== *)
theory Prelude
  imports Main "HOL-Library.Word" "HOL-Library.AList" "HOL-Library.List_Lexorder"
    "HOL-Library.Product_Lexorder"
begin

text \<open>
  Shared vocabulary of the development: the types that stand for Python's values, the
  error values that stand for its exceptions, sequencing of fallible computations, and
  the generic facts about lists and integer division the components share.

  A Python \<open>int\<close> is an \<^typ>\<open>int\<close> (unbounded, with floor division, as \<open>div\<close> and
  \<open>mod\<close> on \<^typ>\<open>int\<close> are); a \<open>bytes\<close> or \<open>bytearray\<close> object is a list of 8-bit
  words; a \<open>str\<close> is the list of its Unicode code points, so that the list order of
  \<open>List_Lexorder\<close> is Python's order on \<open>str\<close> and that of \<open>Product_Lexorder\<close>
  its order on tuples.
\<close>

section \<open>Values\<close>

type_synonym byte = "8 word"
type_synonym bytes = "byte list"
type_synonym pystr = "int list"

definition lit :: "string \<Rightarrow> pystr" where
  "lit s = map of_char s"

lemma lit_Nil [simp]: "lit [] = []"
  by (simp add: lit_def)

lemma lit_Cons [simp]: "lit (c # s) = of_char c # lit s"
  by (simp add: lit_def)

section \<open>Exceptions as values\<close>

text \<open>
  One constructor per exception class the modelled code raises or lets through.
  \<open>ConfigError\<close> carries its message and its optional field path, \<open>OSError\<close> its
  \<open>errno\<close>. \<open>OutOfFuel\<close> is no exception of the program: it marks a loop of the model
  that was given too little fuel, and is shown never to be returned.
\<close>

datatype py_error =
    ValueError pystr
  | IndexError
  | StructError
  | OverflowError
  | TypeError
  | UnicodeEncodeError
  | RecursionError
  | AssertionError
  | OutOfFuel
  | OSError int
  | ConfigError pystr "pystr option"
  | UnicodeDecodeError
  | RuntimeError pystr
  | MountError pystr
  | NbdkitError pystr
  | GadgetError pystr
  | PreloadError pystr
  | TimeoutExpired
  | YamlError pystr
  | JSONDecodeError pystr
  | AttributeError
  | KeyError pystr

fun is_runtime_error :: "py_error \<Rightarrow> bool" where
  \<comment> \<open>what \<open>except RuntimeError\<close> catches: the class and its subclasses\<close>
  "is_runtime_error (RuntimeError _) = True"
| "is_runtime_error RecursionError = True"
| "is_runtime_error (MountError _) = True"
| "is_runtime_error (NbdkitError _) = True"
| "is_runtime_error (GadgetError _) = True"
| "is_runtime_error (PreloadError _) = True"
| "is_runtime_error _ = False"

type_synonym 'a result = "py_error + 'a"

definition rbind :: "'a result \<Rightarrow> ('a \<Rightarrow> 'b result) \<Rightarrow> 'b result" where
  "rbind m f = (case m of Inl e \<Rightarrow> Inl e | Inr x \<Rightarrow> f x)"

definition guard_r :: "bool \<Rightarrow> py_error \<Rightarrow> unit result" where
  "guard_r b e = (if b then Inr () else Inl e)"

fun mapr :: "('a \<Rightarrow> 'b result) \<Rightarrow> 'a list \<Rightarrow> 'b list result" where
  "mapr f [] = Inr []"
| "mapr f (x # xs) = rbind (f x) (\<lambda>y. rbind (mapr f xs) (\<lambda>ys. Inr (y # ys)))"

fun foldr_r :: "('a \<Rightarrow> 's \<Rightarrow> 's result) \<Rightarrow> 'a list \<Rightarrow> 's \<Rightarrow> 's result" where
  "foldr_r f [] s = Inr s"
| "foldr_r f (x # xs) s = rbind (f x s) (foldr_r f xs)"

named_theorems result_simps \<open>evaluation of fallible computations\<close>

lemma rbind_Inl [simp, result_simps]: "rbind (Inl e) f = Inl e"
  by (simp add: rbind_def)

lemma rbind_Inr [simp, result_simps]: "rbind (Inr x) f = f x"
  by (simp add: rbind_def)

lemma rbind_Inr_iff [result_simps]:
  "rbind m f = Inr y \<longleftrightarrow> (\<exists>x. m = Inr x \<and> f x = Inr y)"
  by (cases m) auto

lemma rbind_Inl_iff: "rbind m f = Inl e \<longleftrightarrow> m = Inl e \<or> (\<exists>x. m = Inr x \<and> f x = Inl e)"
  by (cases m) auto

lemma rbind_assoc: "rbind (rbind m f) g = rbind m (\<lambda>x. rbind (f x) g)"
  by (cases m) auto

lemma guard_r_True [simp, result_simps]: "guard_r True e = Inr ()"
  by (simp add: guard_r_def)

lemma guard_r_False [simp, result_simps]: "guard_r False e = Inl e"
  by (simp add: guard_r_def)

lemma guard_r_Inr_iff [result_simps]: "guard_r b e = Inr u \<longleftrightarrow> b"
  by (simp add: guard_r_def)

lemma mapr_Inr_length: "mapr f xs = Inr ys \<Longrightarrow> length ys = length xs"
  by (induction xs arbitrary: ys) (auto simp: result_simps)

lemma mapr_Inr_iff: "mapr f xs = Inr ys \<longleftrightarrow> map f xs = map Inr ys"
proof (induction xs arbitrary: ys)
  case Nil
  then show ?case by auto
next
  case (Cons x xs)
  then show ?case by (cases ys) (auto simp: result_simps)
qed

lemma mapr_total:
  assumes "\<And>x. x \<in> set xs \<Longrightarrow> \<exists>y. f x = Inr y"
  shows "\<exists>ys. mapr f xs = Inr ys"
  using assms
proof (induction xs)
  case Nil
  then show ?case by simp
next
  case (Cons x xs)
  then obtain y ys where "f x = Inr y" "mapr f xs = Inr ys" by fastforce
  then show ?case by simp
qed

lemma mapr_pure: "(\<And>x. x \<in> set xs \<Longrightarrow> f x = Inr (g x)) \<Longrightarrow> mapr f xs = Inr (map g xs)"
  by (induction xs) auto

section \<open>Operations on a state that may raise\<close>

text \<open>
  A method that changes its object and may raise is a function from the state to a result
  and the state left behind, which an exception does not roll back.
\<close>

type_synonym ('s, 'a) prog = "'s \<Rightarrow> 'a result \<times> 's"

definition ret :: "'a \<Rightarrow> ('s, 'a) prog" where
  "ret x s = (Inr x, s)"

definition raise_p :: "py_error \<Rightarrow> ('s, 'a) prog" where
  "raise_p e s = (Inl e, s)"

definition lift_r :: "'a result \<Rightarrow> ('s, 'a) prog" where
  "lift_r r s = (r, s)"

definition bindp :: "('s, 'a) prog \<Rightarrow> ('a \<Rightarrow> ('s, 'b) prog) \<Rightarrow> ('s, 'b) prog" where
  "bindp m f s = (case m s of (Inl e, s') \<Rightarrow> (Inl e, s') | (Inr x, s') \<Rightarrow> f x s')"

definition getp :: "('s, 's) prog" where
  "getp s = (Inr s, s)"

definition modifyp :: "('s \<Rightarrow> 's) \<Rightarrow> ('s, unit) prog" where
  "modifyp f s = (Inr (), f s)"

definition catchp :: "('s, 'a) prog \<Rightarrow> (py_error \<Rightarrow> ('s, 'a) prog) \<Rightarrow> ('s, 'a) prog" where
  \<comment> \<open>\<open>try: m\<close> with a handler, which re-raises what it does not catch\<close>
  "catchp m h s = (case m s of (Inl e, s') \<Rightarrow> h e s' | (Inr x, s') \<Rightarrow> (Inr x, s'))"

fun iterp :: "('a \<Rightarrow> ('s, unit) prog) \<Rightarrow> 'a list \<Rightarrow> ('s, unit) prog" where
  \<comment> \<open>\<open>for x in xs: f(x)\<close>\<close>
  "iterp f [] = ret ()"
| "iterp f (x # xs) = bindp (f x) (\<lambda>_. iterp f xs)"

named_theorems prog_simps \<open>evaluation of operations on a state\<close>

lemma ret_apply [simp, prog_simps]: "ret x s = (Inr x, s)"
  by (simp add: ret_def)

lemma raise_p_apply [simp, prog_simps]: "raise_p e s = (Inl e, s)"
  by (simp add: raise_p_def)

lemma lift_r_apply [simp, prog_simps]: "lift_r r s = (r, s)"
  by (simp add: lift_r_def)

lemma getp_apply [simp, prog_simps]: "getp s = (Inr s, s)"
  by (simp add: getp_def)

lemma modifyp_apply [simp, prog_simps]: "modifyp f s = (Inr (), f s)"
  by (simp add: modifyp_def)

lemma bindp_Inr: "m s = (Inr x, s') \<Longrightarrow> bindp m f s = f x s'"
  by (simp add: bindp_def)

lemma bindp_Inl: "m s = (Inl e, s') \<Longrightarrow> bindp m f s = (Inl e, s')"
  by (simp add: bindp_def)

lemma bindp_ret [simp]: "bindp (ret x) f = f x"
  by (simp add: bindp_def fun_eq_iff)

lemma bindp_raise [simp]: "bindp (raise_p e) f = raise_p e"
  by (simp add: bindp_def fun_eq_iff)

lemma bindp_apply_cong: "m s = m' s \<Longrightarrow> bindp m f s = bindp m' f s"
  by (simp add: bindp_def)

lemma bindp_Inr_iff [prog_simps]:
  "bindp m f s = (Inr y, t) \<longleftrightarrow> (\<exists>x u. m s = (Inr x, u) \<and> f x u = (Inr y, t))"
  by (auto simp: bindp_def split: prod.splits sum.splits)

lemma catchp_Inr: "m s = (Inr x, s') \<Longrightarrow> catchp m h s = (Inr x, s')"
  by (simp add: catchp_def)

lemma catchp_Inl: "m s = (Inl e, s') \<Longrightarrow> catchp m h s = h e s'"
  by (simp add: catchp_def)

text \<open>
  A relation between the states before and after that every step keeps, whatever the
  step returns, is kept by every composition.
\<close>

definition steps_in :: "('s \<Rightarrow> 's \<Rightarrow> bool) \<Rightarrow> ('s, 'a) prog \<Rightarrow> bool" where
  "steps_in R m \<longleftrightarrow> (\<forall>s. R s (snd (m s)))"

named_theorems steps_intros \<open>composition of state relations\<close>

lemma steps_in_ret [steps_intros]: "reflp R \<Longrightarrow> steps_in R (ret x)"
  by (simp add: steps_in_def reflpD)

lemma steps_in_raise [steps_intros]: "reflp R \<Longrightarrow> steps_in R (raise_p e)"
  by (simp add: steps_in_def reflpD)

lemma steps_in_lift [steps_intros]: "reflp R \<Longrightarrow> steps_in R (lift_r r)"
  by (simp add: steps_in_def reflpD)

lemma steps_in_getp [steps_intros]: "reflp R \<Longrightarrow> steps_in R getp"
  by (simp add: steps_in_def reflpD)

lemma steps_in_bindp [steps_intros]:
  "transp R \<Longrightarrow> steps_in R m \<Longrightarrow> (\<And>x. steps_in R (f x)) \<Longrightarrow> steps_in R (bindp m f)"
  unfolding steps_in_def bindp_def
  by (auto split: prod.splits sum.splits) (metis snd_conv transpD)+

lemma steps_in_catchp [steps_intros]:
  "transp R \<Longrightarrow> steps_in R m \<Longrightarrow> (\<And>e. steps_in R (h e)) \<Longrightarrow> steps_in R (catchp m h)"
  unfolding steps_in_def catchp_def
  by (auto split: prod.splits sum.splits) (metis snd_conv transpD)+

lemma steps_in_iterp [steps_intros]:
  "reflp R \<Longrightarrow> transp R \<Longrightarrow> (\<And>x. steps_in R (f x)) \<Longrightarrow> steps_in R (iterp f xs)"
  by (induction xs) (auto intro: steps_intros)

lemma steps_in_if [steps_intros]:
  "(b \<Longrightarrow> steps_in R m) \<Longrightarrow> (\<not> b \<Longrightarrow> steps_in R n) \<Longrightarrow> steps_in R (if b then m else n)"
  by simp

lemma steps_in_option [steps_intros]:
  "steps_in R n \<Longrightarrow> (\<And>x. steps_in R (f x)) \<Longrightarrow> steps_in R (case v of None \<Rightarrow> n | Some x \<Rightarrow> f x)"
  by (cases v) auto

lemma steps_in_prod [steps_intros]:
  "(\<And>x y. steps_in R (f x y)) \<Longrightarrow> steps_in R (case v of (x, y) \<Rightarrow> f x y)"
  by (cases v) auto

section \<open>Decimal numerals\<close>

fun show_nat :: "nat \<Rightarrow> pystr" where
  "show_nat n = (if n < 10 then [48 + int n] else show_nat (n div 10) @ [48 + int (n mod 10)])"

declare show_nat.simps [simp del]

definition show_int :: "int \<Rightarrow> pystr" where
  \<comment> \<open>\<open>str(i)\<close>\<close>
  "show_int i = (if i < 0 then lit ''-'' @ show_nat (nat (- i)) else show_nat (nat i))"

section \<open>Dictionaries\<close>

lemma update_append_new: "k \<notin> fst ` set al \<Longrightarrow> AList.update k v al = al @ [(k, v)]"
  by (induction al) auto

section \<open>Integer division and ranges\<close>

definition ceil_div :: "int \<Rightarrow> int \<Rightarrow> int" where
  "ceil_div n k = (n + k - 1) div k"

lemma int_div_less_iff:
  fixes n m k :: int
  assumes "0 < k"
  shows "n div k < m \<longleftrightarrow> n < m * k"
proof -
  have "(n + (- m) * k) div k = - m + n div k"
    using assms by (subst div_mult_self1) simp_all
  then have "n div k < m \<longleftrightarrow> (n + (- m) * k) div k < 0" by linarith
  then show ?thesis using assms by (simp add: pos_imp_zdiv_neg_iff)
qed

lemma ceil_div_le_iff: "0 < k \<Longrightarrow> ceil_div n k \<le> m \<longleftrightarrow> n \<le> m * k"
  using int_div_less_iff [of k "n + k - 1" "m + 1"]
  by (auto simp: ceil_div_def algebra_simps)

lemma ceil_div_ge: "0 < k \<Longrightarrow> n \<le> ceil_div n k * k"
  using ceil_div_le_iff [of k n "ceil_div n k"] by simp

lemma ceil_div_mono: "0 < k \<Longrightarrow> n \<le> m \<Longrightarrow> ceil_div n k \<le> ceil_div m k"
  by (simp add: ceil_div_def zdiv_mono1)

lemma ceil_div_pos: "0 < k \<Longrightarrow> 0 < n \<Longrightarrow> 0 < ceil_div n k"
  using ceil_div_le_iff [of k n 0] by linarith

lemma ceil_div_nonneg: "0 < k \<Longrightarrow> 0 \<le> n \<Longrightarrow> 0 \<le> ceil_div n k"
  by (simp add: ceil_div_def pos_imp_zdiv_nonneg_iff)

lemma upto_shift: "map (\<lambda>i. a + i) [0..k] = [a..a + k]"
proof (rule nth_equalityI)
  show "length (map (\<lambda>i. a + i) [0..k]) = length [a..a + k]" by simp
qed auto

end
