(* ===== verification/Consts.thy ===== *)
theory Consts
  imports Prelude
begin

text \<open>
  The constants of \<open>consts.py\<close> that the modelled code uses, with the source's names.
  The collection \<open>const_defs\<close> unfolds them all.
\<close>

named_theorems const_defs \<open>definitions of the constants of consts.py\<close>

definition SECTOR_SIZE :: int where [const_defs]: "SECTOR_SIZE = 512"
definition CLUSTER_SIZE_KIB :: int where [const_defs]: "CLUSTER_SIZE_KIB = 128"
definition CLUSTER_SIZE_BYTES :: int where
  [const_defs]: "CLUSTER_SIZE_BYTES = CLUSTER_SIZE_KIB * 1024"
definition SECTORS_PER_CLUSTER :: int where
  [const_defs]: "SECTORS_PER_CLUSTER = CLUSTER_SIZE_BYTES div SECTOR_SIZE"
definition CLUSTER_HEAP_ALIGNMENT_SECTORS :: int where
  [const_defs]: "CLUSTER_HEAP_ALIGNMENT_SECTORS = 2048"
definition PARTITION_START_LBA :: int where [const_defs]: "PARTITION_START_LBA = 0"
definition BOOT_REGION_SECTORS :: int where [const_defs]: "BOOT_REGION_SECTORS = 12"
definition BOOT_REGION_TOTAL_SECTORS :: int where [const_defs]: "BOOT_REGION_TOTAL_SECTORS = 24"
definition DEFAULT_NFS_OPTIONS :: pystr where
  [const_defs]: "DEFAULT_NFS_OPTIONS =
     lit ''ro,hard,nconnect=2,rsize=1048576,noatime,nosuid,nodev,noexec''"
definition DEFAULT_CIFS_OPTIONS :: pystr where
  [const_defs]: "DEFAULT_CIFS_OPTIONS = lit ''ro,vers=3.1.1,cache=strict,actimeo=30,rsize=1048576''"
definition EXFAT_BOOT_SIGNATURE :: bytes where [const_defs]: "EXFAT_BOOT_SIGNATURE = [0x55, 0xAA]"
definition FAT_FREE :: int where [const_defs]: "FAT_FREE = 0"
definition FAT_EOC :: int where [const_defs]: "FAT_EOC = 0xFFFFFFFF"
definition FAT_FIRST_RESERVED :: int where [const_defs]: "FAT_FIRST_RESERVED = 0xFFFFFFF8"

definition ENTRY_END :: byte where [const_defs]: "ENTRY_END = 0x00"
definition ENTRY_BITMAP :: byte where [const_defs]: "ENTRY_BITMAP = 0x81"
definition ENTRY_UPCASE :: byte where [const_defs]: "ENTRY_UPCASE = 0x82"
definition ENTRY_VOLUME_LABEL :: byte where [const_defs]: "ENTRY_VOLUME_LABEL = 0x83"
definition ENTRY_FILE :: byte where [const_defs]: "ENTRY_FILE = 0x85"
definition ENTRY_STREAM :: byte where [const_defs]: "ENTRY_STREAM = 0xC0"
definition ENTRY_FILENAME :: byte where [const_defs]: "ENTRY_FILENAME = 0xC1"

definition UPCASE_TABLE_BYTES :: int where [const_defs]: "UPCASE_TABLE_BYTES = 65536 * 2"

lemma const_values [simp]:
  "SECTOR_SIZE = 512"
  "CLUSTER_SIZE_BYTES = 131072"
  "SECTORS_PER_CLUSTER = 256"
  "CLUSTER_HEAP_ALIGNMENT_SECTORS = 2048"
  "PARTITION_START_LBA = 0"
  "BOOT_REGION_SECTORS = 12"
  "BOOT_REGION_TOTAL_SECTORS = 24"
  "UPCASE_TABLE_BYTES = 131072"
  by (simp_all add: const_defs)

end
