(* ===== verification/ConfigTypes.thy ===== *)
theory ConfigTypes
  imports Consts
begin

text \<open>
  The frozen dataclasses of \<open>config.py\<close>, which validation produces and the builder, the
  preloader and the services read.
\<close>

record source_config =
  sc_name :: pystr
  sc_protocol :: pystr
  sc_endpoint :: pystr
  sc_mount_point :: pystr
  sc_read_only :: bool
  sc_options :: pystr
  sc_credentials_file :: "pystr option"

datatype entry_type = EntryFile | EntryDirectory

record entry_config =
  ec_virtual_path :: pystr
  ec_source :: pystr
  ec_type :: entry_type

record prefetch_category =
  pc_enabled :: bool
  pc_refresh_interval_seconds :: int

record prefetch_config =
  pf_directory_metadata :: prefetch_category
  pf_fat :: prefetch_category

definition default_prefetch :: prefetch_config where
  \<comment> \<open>\<open>PrefetchConfig()\<close>\<close>
  "default_prefetch =
     \<lparr>pf_directory_metadata = \<lparr>pc_enabled = True, pc_refresh_interval_seconds = 300\<rparr>,
      pf_fat = \<lparr>pc_enabled = True, pc_refresh_interval_seconds = 300\<rparr>\<rparr>"

record config =
  cf_image_size_gib :: int
  cf_cluster_size_kib :: int
  cf_label :: pystr
  cf_oem_name :: pystr
  cf_sources :: "source_config list"
  cf_entries :: "entry_config list"
  cf_usb_port :: pystr
  cf_prefetch :: prefetch_config
  cf_image_size_bytes_override :: "int option"

definition image_size_bytes :: "config \<Rightarrow> int" where
  \<comment> \<open>an override of 0 is falsy\<close>
  "image_size_bytes c =
     (case cf_image_size_bytes_override c of
        Some n \<Rightarrow> if n = 0 then cf_image_size_gib c * 1024 ^ 3 else n
      | None \<Rightarrow> cf_image_size_gib c * 1024 ^ 3)"

definition mount_points :: "config \<Rightarrow> pystr list" where
  \<comment> \<open>longest first, in source order among equals\<close>
  "mount_points c = sort_key (\<lambda>p. - int (length p)) (map sc_mount_point (cf_sources c))"

end
