(* ===== verification/Bytes.thy ===== *)
theory Bytes
  imports Prelude
begin

text \<open>
  Byte buffers: the fixed-width little-endian codecs of \<open>struct\<close>
  (\<open>"<H"\<close>, \<open>"<I"\<close>, \<open>"<Q"\<close>), slices, and the in-place writes the builder performs on a
  \<open>bytearray\<close>. \<open>pack_into\<close> and \<open>set_byte\<close> carry the range and bounds
  checks Python makes as error results; the lemmas below say that a write that passes
  them changes exactly its own field.
\<close>

section \<open>Slices\<close>

definition slice :: "nat \<Rightarrow> nat \<Rightarrow> 'a list \<Rightarrow> 'a list" where
  "slice off n xs = take n (drop off xs)"

definition splice :: "nat \<Rightarrow> 'a list \<Rightarrow> 'a list \<Rightarrow> 'a list" where
  \<comment> \<open>\<open>xs[off : off + len(d)] = d\<close>\<close>
  "splice off d xs = take off xs @ d @ drop (off + length d) xs"

definition ljust :: "nat \<Rightarrow> bytes \<Rightarrow> bytes" where
  \<comment> \<open>\<open>bytes.ljust(n, b"\0")\<close>\<close>
  "ljust n bs = bs @ replicate (n - length bs) 0"

named_theorems buffer_simps \<open>reading a buffer after writes\<close>

lemma length_slice [simp]: "length (slice off n xs) = min n (length xs - off)"
  by (simp add: slice_def)

lemma nth_slice: "i < n \<Longrightarrow> off + i < length xs \<Longrightarrow> slice off n xs ! i = xs ! (off + i)"
  by (simp add: slice_def)

lemma slice_append_left: "off + n \<le> length xs \<Longrightarrow> slice off n (xs @ ys) = slice off n xs"
  by (simp add: slice_def)

lemma slice_append_right: "length xs \<le> off \<Longrightarrow> slice off n (xs @ ys) = slice (off - length xs) n ys"
  by (simp add: slice_def)

lemma slice_full: "slice 0 (length xs) xs = xs"
  by (simp add: slice_def)

lemma slice_slice:
  "a + n \<le> m \<Longrightarrow> slice a n (slice off m xs) = slice (off + a) n xs"
  by (simp add: slice_def drop_take min_def add.commute)

lemma slice_split: "slice off (n + m) xs = slice off n xs @ slice (off + n) m xs"
  by (simp add: slice_def take_add add.commute [of off])

lemma length_splice [simp]:
  "off + length d \<le> length xs \<Longrightarrow> length (splice off d xs) = length xs"
  by (simp add: splice_def)

lemma nth_splice:
  assumes "off + length d \<le> length xs" "i < length xs"
  shows "splice off d xs ! i = (if off \<le> i \<and> i < off + length d then d ! (i - off) else xs ! i)"
  using assms by (auto simp: splice_def nth_append)

lemma slice_splice_same [buffer_simps]:
  assumes "off + length d \<le> length xs" "n = length d"
  shows "slice off n (splice off d xs) = d"
  using assms by (simp add: slice_def splice_def)

lemma slice_splice_before [buffer_simps]:
  assumes "off + length d \<le> length xs" "a + n \<le> off"
  shows "slice a n (splice off d xs) = slice a n xs"
  using assms by (auto intro!: nth_equalityI simp: nth_slice nth_splice)

lemma slice_splice_after [buffer_simps]:
  assumes "off + length d \<le> length xs" "off + length d \<le> a"
  shows "slice a n (splice off d xs) = slice a n xs"
  using assms by (auto intro!: nth_equalityI simp: nth_slice nth_splice)

text \<open>
  A buffer filled by a list of writes (the last one first): what a slice of it holds is
  found by looking for the last write that touches it.
\<close>

definition writes :: "(nat \<times> 'a list) list \<Rightarrow> 'a list \<Rightarrow> 'a list" where
  "writes ws buf = foldr (\<lambda>(off, d). splice off d) ws buf"

fun read_back :: "nat \<Rightarrow> nat \<Rightarrow> (nat \<times> 'a list) list \<Rightarrow> 'a list option" where
  "read_back off n [] = None"
| "read_back off n ((a, d) # ws) =
     (if a = off \<and> length d = n then Some d
      else if off + n \<le> a \<or> a + length d \<le> off then read_back off n ws else None)"

lemma length_writes:
  "list_all (\<lambda>(a, d). a + length d \<le> length buf) ws \<Longrightarrow> length (writes ws buf) = length buf"
  by (induction ws) (auto simp: writes_def)

lemma slice_writes:
  assumes "read_back off n ws = Some d" "list_all (\<lambda>(a, d). a + length d \<le> length buf) ws"
  shows "slice off n (writes ws buf) = d"
  using assms
proof (induction ws)
  case (Cons w ws)
  obtain a e where w: "w = (a, e)" by (cases w)
  have l: "length (writes ws buf) = length buf" using Cons.prems(2) by (intro length_writes) simp
  show ?case
  proof (cases "a = off \<and> length e = n")
    case True
    then show ?thesis using Cons.prems l
      by (auto simp: w writes_def slice_splice_same)
  next
    case False
    then have "off + n \<le> a \<or> a + length e \<le> off" "read_back off n ws = Some d"
      using Cons.prems(1) by (auto simp: w split: if_splits)
    then show ?thesis using Cons l
      by (auto simp: w writes_def slice_splice_before slice_splice_after)
  qed
qed simp

lemma length_ljust [simp]: "length (ljust n bs) = max n (length bs)"
  by (simp add: ljust_def)

lemma ljust_id [simp]: "n \<le> length bs \<Longrightarrow> ljust n bs = bs"
  by (simp add: ljust_def)

lemma nth_ljust: "i < max n (length bs) \<Longrightarrow> ljust n bs ! i = (if i < length bs then bs ! i else 0)"
  by (auto simp: ljust_def nth_append)

section \<open>Little-endian integers\<close>

fun le_bytes :: "nat \<Rightarrow> int \<Rightarrow> bytes" where
  "le_bytes 0 v = []"
| "le_bytes (Suc n) v = word_of_int v # le_bytes n (v div 256)"

fun le_val :: "bytes \<Rightarrow> int" where
  "le_val [] = 0"
| "le_val (b # bs) = uint b + 256 * le_val bs"

lemma length_le_bytes [simp]: "length (le_bytes n v) = n"
  by (induction n arbitrary: v) auto

lemma le_val_le_bytes_mod: "le_val (le_bytes n v) = v mod 256 ^ n"
proof (induction n arbitrary: v)
  case 0
  then show ?case by simp
next
  case (Suc n)
  have "le_val (le_bytes (Suc n) v) = v mod 256 + 256 * (v div 256 mod 256 ^ n)"
    by (simp add: Suc uint_word_of_int)
  also have "\<dots> = v mod (256 * 256 ^ n)"
    by (simp add: zmod_zmult2_eq)
  finally show ?case by simp
qed

lemma le_val_le_bytes: "0 \<le> v \<Longrightarrow> v < 256 ^ n \<Longrightarrow> le_val (le_bytes n v) = v"
  by (simp add: le_val_le_bytes_mod)

lemma le_val_bounds: "0 \<le> le_val bs \<and> le_val bs < 256 ^ length bs"
proof (induction bs)
  case Nil
  then show ?case by simp
next
  case (Cons b bs)
  have "uint b \<le> 255" "0 \<le> uint b" using uint_lt2p [of b] by simp_all
  with Cons show ?case by auto
qed

lemma le_bytes_le_val: "le_bytes (length bs) (le_val bs) = bs"
proof (induction bs)
  case Nil
  then show ?case by simp
next
  case (Cons b bs)
  have b: "uint b < 256" "0 \<le> uint b" using uint_lt2p [of b] by simp_all
  then have "(uint b + 256 * le_val bs) div 256 = le_val bs" by simp
  moreover have "word_of_int (uint b + 256 * le_val bs) = b"
  proof -
    have "(256 :: byte) = 0" by simp
    then have "(256 :: byte) * word_of_int (le_val bs) = 0" by (simp only: mult_zero_left)
    then show ?thesis by simp
  qed
  ultimately show ?case using Cons by simp
qed

section \<open>Cutting into pieces\<close>

fun chunks :: "nat \<Rightarrow> nat \<Rightarrow> 'a list \<Rightarrow> 'a list list" where
  \<comment> \<open>the first \<open>k\<close> pieces of \<open>n\<close> elements\<close>
  "chunks n 0 xs = []"
| "chunks n (Suc k) xs = take n xs # chunks n k (drop n xs)"

lemma length_chunks [simp]: "length (chunks n k xs) = k"
  by (induction n k xs rule: chunks.induct) simp_all

lemma chunks_append: "chunks n (k + m) xs = chunks n k xs @ chunks n m (drop (n * k) xs)"
  by (induction n k xs rule: chunks.induct) (simp_all add: add.commute)

lemma chunks_concat:
  "list_all (\<lambda>d. length d = n) ds \<Longrightarrow> chunks n (length ds) (concat ds @ rest) = ds"
  by (induction ds) simp_all

lemma nth_chunks: "i < k \<Longrightarrow> chunks n k xs ! i = slice (i * n) n xs"
  by (induction n k xs arbitrary: i rule: chunks.induct)
    (auto simp: slice_def nth_Cons' add.commute diff_mult_distrib le_add_diff_inverse2
      simp flip: mult_Suc split: nat.splits)

section \<open>Fixed-width codecs\<close>

text \<open>
  The contract of a fixed-width field, and what a client may conclude from it about a
  buffer the field is written to.
\<close>

locale fixed_codec =
  fixes width :: nat
    and ok :: "'v \<Rightarrow> bool"
    and enc :: "'v \<Rightarrow> bytes"
    and dec :: "bytes \<Rightarrow> 'v"
  assumes enc_width: "length (enc v) = width"
    and dec_enc: "ok v \<Longrightarrow> dec (enc v) = v"
begin

lemma read_back:
  assumes "ok v" "off + width \<le> length buf"
  shows "dec (slice off width (splice off (enc v) buf)) = v"
  using assms by (simp add: slice_splice_same enc_width dec_enc)

lemma read_other:
  assumes "off + width \<le> length buf" "a + width \<le> off \<or> off + width \<le> a"
  shows "dec (slice a width (splice off (enc v) buf)) = dec (slice a width buf)"
  using assms by (auto simp: slice_splice_before slice_splice_after enc_width)

lemma write_length:
  "off + width \<le> length buf \<Longrightarrow> length (splice off (enc v) buf) = length buf"
  by (simp add: enc_width)

end

interpretation u16: fixed_codec 2 "\<lambda>v. 0 \<le> v \<and> v < 65536" "le_bytes 2" le_val
  by unfold_locales (auto simp: le_val_le_bytes simp del: le_bytes.simps)

interpretation u32: fixed_codec 4 "\<lambda>v. 0 \<le> v \<and> v < 4294967296" "le_bytes 4" le_val
  by unfold_locales (auto simp: le_val_le_bytes simp del: le_bytes.simps)

interpretation u64: fixed_codec 8 "\<lambda>v. 0 \<le> v \<and> v < 18446744073709551616" "le_bytes 8" le_val
  by unfold_locales (auto simp: le_val_le_bytes simp del: le_bytes.simps)

section \<open>Checked writes\<close>

text \<open>
  \<open>struct.pack("<...", v)\<close> for an unsigned field of \<open>n\<close> bytes: \<open>struct.error\<close>
  when \<open>v\<close> is out of range. \<open>pack_into\<close> also fails when the buffer is too small.
  Assigning an element of a \<open>bytearray\<close> raises \<open>IndexError\<close> out of bounds and
  \<open>ValueError\<close> for a value that is not a byte.
\<close>

definition pack :: "nat \<Rightarrow> int \<Rightarrow> bytes result" where
  "pack n v = (if 0 \<le> v \<and> v < 256 ^ n then Inr (le_bytes n v) else Inl StructError)"

definition pack_into :: "nat \<Rightarrow> nat \<Rightarrow> int \<Rightarrow> bytes \<Rightarrow> bytes result" where
  "pack_into n off v buf = rbind (pack n v) (\<lambda>d.
     if off + n \<le> length buf then Inr (splice off d buf) else Inl StructError)"

definition set_byte :: "nat \<Rightarrow> int \<Rightarrow> bytes \<Rightarrow> bytes result" where
  "set_byte i v buf =
     (if length buf \<le> i then Inl IndexError
      else if v < 0 \<or> 256 \<le> v then Inl (ValueError (lit ''byte must be in range(0, 256)''))
      else Inr (splice i [word_of_int v] buf))"

definition to_bytes :: "nat \<Rightarrow> int \<Rightarrow> bytes result" where
  \<comment> \<open>\<open>value.to_bytes(n, "little")\<close>\<close>
  "to_bytes n v = (if 0 \<le> v \<and> v < 256 ^ n then Inr (le_bytes n v) else Inl OverflowError)"

definition mv_store :: "int \<Rightarrow> int \<Rightarrow> bytes \<Rightarrow> bytes \<Rightarrow> bytes result" where
  \<comment> \<open>\<open>out[lo:hi] = d\<close> on a \<open>memoryview\<close> with \<open>0 <= lo\<close>: the lengths must agree\<close>
  "mv_store lo hi d out =
     (if min hi (int (length out)) - lo = int (length d) then Inr (splice (nat lo) d out)
      else Inl (ValueError (lit ''memoryview assignment: lvalue and rvalue have different structures'')))"

lemma pack_Inr: "0 \<le> v \<Longrightarrow> v < 256 ^ n \<Longrightarrow> pack n v = Inr (le_bytes n v)"
  by (simp add: pack_def)

lemma pack_Inr_iff [result_simps]:
  "pack n v = Inr d \<longleftrightarrow> 0 \<le> v \<and> v < 256 ^ n \<and> d = le_bytes n v"
  by (auto simp: pack_def)

lemma pack_into_Inr:
  "0 \<le> v \<Longrightarrow> v < 256 ^ n \<Longrightarrow> off + n \<le> length buf \<Longrightarrow>
     pack_into n off v buf = Inr (splice off (le_bytes n v) buf)"
  by (simp add: pack_into_def pack_def)

lemma pack_into_Inr_iff [result_simps]:
  "pack_into n off v buf = Inr buf' \<longleftrightarrow>
     0 \<le> v \<and> v < 256 ^ n \<and> off + n \<le> length buf \<and> buf' = splice off (le_bytes n v) buf"
  by (auto simp: pack_into_def pack_def)

lemma set_byte_Inr:
  "0 \<le> v \<Longrightarrow> v < 256 \<Longrightarrow> i < length buf \<Longrightarrow> set_byte i v buf = Inr (splice i [word_of_int v] buf)"
  by (simp add: set_byte_def)

lemma set_byte_Inr_iff [result_simps]:
  "set_byte i v buf = Inr buf' \<longleftrightarrow>
     0 \<le> v \<and> v < 256 \<and> i < length buf \<and> buf' = splice i [word_of_int v] buf"
  by (auto simp: set_byte_def)

end
