(* ===== verification/Unicode.thy ===== *)
theory Unicode
  imports Bytes
begin

text \<open>
  The codecs of \<open>str.encode\<close> that the code uses. A \<open>str\<close> may hold surrogate code
  points (\<open>os.scandir\<close> puts U+DC80..U+DCFF for bytes that are not UTF-8), which the
  strict encoders reject with \<open>UnicodeEncodeError\<close>. The reader \<open>utf16_decode\<close>
  is the specification of the UTF-16 encoder.
\<close>

section \<open>UTF-16\<close>

definition surrogate :: "int \<Rightarrow> bool" where
  "surrogate c \<longleftrightarrow> 0xD800 \<le> c \<and> c < 0xE000"

definition scalar :: "int \<Rightarrow> bool" where
  "scalar c \<longleftrightarrow> 0 \<le> c \<and> c < 0x110000 \<and> \<not> surrogate c"

definition utf16_units :: "int \<Rightarrow> int list" where
  "utf16_units c =
     (if c < 0x10000 then [c]
      else [0xD800 + (c - 0x10000) div 1024, 0xDC00 + (c - 0x10000) mod 1024])"

definition utf16_le :: "pystr \<Rightarrow> bytes result" where
  \<comment> \<open>\<open>s.encode("utf-16-le")\<close>\<close>
  "utf16_le s =
     (if list_all scalar s
      then Inr (concat (map (\<lambda>c. concat (map (le_bytes 2) (utf16_units c))) s))
      else Inl UnicodeEncodeError)"

definition name_units :: "pystr \<Rightarrow> int list" where
  "name_units s = concat (map utf16_units s)"

fun units_of :: "bytes \<Rightarrow> int list" where
  "units_of (a # b # bs) = (uint a + 256 * uint b) # units_of bs"
| "units_of _ = []"

fun utf16_decode :: "int list \<Rightarrow> pystr" where
  "utf16_decode [] = []"
| "utf16_decode [u] = [u]"
| "utf16_decode (u # v # us) =
     (if 0xD800 \<le> u \<and> u < 0xDC00 \<and> 0xDC00 \<le> v \<and> v < 0xE000
      then (0x10000 + (u - 0xD800) * 1024 + (v - 0xDC00)) # utf16_decode us
      else u # utf16_decode (v # us))"

lemma utf16_units_range:
  "scalar c \<Longrightarrow> list_all (\<lambda>u. 0 \<le> u \<and> u < 65536) (utf16_units c)"
  by (auto simp: utf16_units_def scalar_def int_div_less_iff pos_imp_zdiv_nonneg_iff)

lemma le_bytes_2: "le_bytes 2 v = [word_of_int v, word_of_int (v div 256)]"
  by (simp add: numeral_2_eq_2)

lemma units_of_le_bytes:
  assumes "0 \<le> u" "u < 65536"
  shows "units_of (le_bytes 2 u @ bs) = u # units_of bs"
proof -
  have "0 \<le> u div 256" "u div 256 < 256"
    using assms by (simp_all add: pos_imp_zdiv_nonneg_iff int_div_less_iff)
  then show ?thesis by (simp add: le_bytes_2 uint_word_of_int)
qed

lemma units_of_concat:
  "list_all (\<lambda>u. 0 \<le> u \<and> u < 65536) us \<Longrightarrow> units_of (concat (map (le_bytes 2) us) @ bs) = us @ units_of bs"
  by (induction us) (simp_all add: units_of_le_bytes)

lemma utf16_le_Inr_iff:
  "utf16_le s = Inr bs \<longleftrightarrow> list_all scalar s \<and> bs = concat (map (le_bytes 2) (name_units s))"
proof -
  have "concat (map (\<lambda>c. concat (map (le_bytes 2) (utf16_units c))) s) =
      concat (map (le_bytes 2) (name_units s))"
    by (induction s) (simp_all add: name_units_def)
  then show ?thesis by (auto simp: utf16_le_def)
qed

lemma name_units_range:
  "list_all scalar s \<Longrightarrow> list_all (\<lambda>u. 0 \<le> u \<and> u < 65536) (name_units s)"
  by (induction s) (simp_all add: name_units_def utf16_units_range)

lemma length_concat_le2: "length (concat (map (le_bytes 2) us)) = 2 * length us"
  by (induction us) simp_all

lemma utf16_le_length: "utf16_le s = Inr bs \<Longrightarrow> length bs = 2 * length (name_units s)"
  by (simp add: utf16_le_Inr_iff length_concat_le2)

lemma units_of_utf16: "utf16_le s = Inr bs \<Longrightarrow> units_of bs = name_units s"
  using units_of_concat [OF name_units_range, of s "[]"] by (simp add: utf16_le_Inr_iff)

lemma utf16_decode_units:
  assumes "scalar c"
  shows "utf16_decode (utf16_units c @ us) = c # utf16_decode us"
proof (cases "c < 0x10000")
  case True
  then have "utf16_units c = [c]" by (simp add: utf16_units_def)
  moreover have "\<not> (0xD800 \<le> c \<and> c < 0xDC00)" using assms by (auto simp: scalar_def surrogate_def)
  ultimately show ?thesis by (cases us) auto
next
  case False
  define d where "d = c - 0x10000"
  have d: "0 \<le> d div 1024" "d div 1024 < 1024" "d div 1024 * 1024 + d mod 1024 = d"
    using False assms by (simp_all add: d_def pos_imp_zdiv_nonneg_iff int_div_less_iff scalar_def)
  have "utf16_units c = [0xD800 + d div 1024, 0xDC00 + d mod 1024]"
    using False by (simp add: utf16_units_def d_def)
  moreover have "0x10000 + d div 1024 * 1024 + d mod 1024 = c" using d(3) by (simp add: d_def)
  ultimately show ?thesis using d(1,2) by simp
qed

lemma utf16_decode_name: "list_all scalar s \<Longrightarrow> utf16_decode (name_units s) = s"
  by (induction s) (simp_all add: name_units_def utf16_decode_units)

lemma name_units_Nil_iff [simp]: "name_units s = [] \<longleftrightarrow> s = []"
  by (cases s) (simp_all add: name_units_def utf16_units_def)

section \<open>UTF-8 and ASCII\<close>

definition utf8_point :: "int \<Rightarrow> bytes" where
  "utf8_point c = map word_of_int
     (if c < 0x80 then [c]
      else if c < 0x800 then [0xC0 + c div 64, 0x80 + c mod 64]
      else if c < 0x10000 then [0xE0 + c div 4096, 0x80 + c div 64 mod 64, 0x80 + c mod 64]
      else [0xF0 + c div 262144, 0x80 + c div 4096 mod 64, 0x80 + c div 64 mod 64, 0x80 + c mod 64])"

definition utf8 :: "pystr \<Rightarrow> bytes result" where
  "utf8 s = (if list_all scalar s then Inr (concat (map utf8_point s)) else Inl UnicodeEncodeError)"

definition ascii :: "pystr \<Rightarrow> bytes result" where
  "ascii s = (if list_all (\<lambda>c. c < 128) s then Inr (map word_of_int s) else Inl UnicodeEncodeError)"

definition fsencode :: "pystr \<Rightarrow> bytes result" where
  \<comment> \<open>\<open>os.fsencode\<close> on Linux: UTF-8 with \<open>surrogateescape\<close>\<close>
  "fsencode s =
     (if list_all (\<lambda>c. scalar c \<or> 0xDC80 \<le> c \<and> c < 0xDD00) s
      then Inr (concat (map (\<lambda>c. if surrogate c then [word_of_int (c - 0xDC00)] else utf8_point c) s))
      else Inl UnicodeEncodeError)"

lemma utf16_units_le_utf8: "length (name_units s) \<le> length (concat (map utf8_point s))"
proof (induction s)
  case Nil
  then show ?case by (simp add: name_units_def)
next
  case (Cons c s)
  have "length (utf16_units c) \<le> length (utf8_point c)" by (simp add: utf16_units_def utf8_point_def)
  with Cons show ?case by (simp add: name_units_def)
qed

lemma ascii_utf16:
  assumes "ascii s = Inr a" "list_all (\<lambda>c. 0 \<le> c) s"
  shows "utf16_le s = Inr (concat (map (le_bytes 2) s))" "name_units s = s" "length a = length s"
proof -
  have s: "list_all (\<lambda>c. 0 \<le> c \<and> c < 128) s" "a = map word_of_int s"
    using assms by (auto simp: ascii_def list_all_iff split: if_splits)
  have n: "name_units s = s"
    using s(1) by (induction s) (simp_all add: name_units_def utf16_units_def)
  show "name_units s = s" by (rule n)
  have "list_all scalar s" using s(1) by (auto simp: list_all_iff scalar_def surrogate_def)
  then show "utf16_le s = Inr (concat (map (le_bytes 2) s))" by (simp add: utf16_le_Inr_iff n)
  show "length a = length s" using s(2) by simp
qed

end
