(* ===== verification/Geometry.thy ===== *)
theory Geometry
  imports ConfigTypes Unicode
begin

text \<open>
  The builder's object and its geometry: \<open>ExfatBuilder.__init__\<close> and \<open>_geometry\<close>. The
  loop looks for a fixed point of two antitone steps in at most eight rounds; whether it
  finds one or not, the FAT ends before the cluster heap.
\<close>

record builder =
  bd_config :: config
  bd_total_bytes :: int
  bd_total_sectors :: int

definition new_builder :: "config \<Rightarrow> builder result" where
  \<comment> \<open>\<open>ExfatBuilder.__init__\<close>\<close>
  "new_builder config =
     (let total_bytes = image_size_bytes config;
          total_sectors = total_bytes div SECTOR_SIZE
      in if total_bytes mod SECTOR_SIZE \<noteq> 0
         then Inl (ValueError (lit ''image size must be a multiple of 512 bytes''))
         else if total_sectors \<le> PARTITION_START_LBA + BOOT_REGION_TOTAL_SECTORS
         then Inl (ValueError (lit ''image is too small for exFAT partition''))
         else Inr \<lparr>bd_config = config, bd_total_bytes = total_bytes, bd_total_sectors = total_sectors\<rparr>)"

section \<open>The loop\<close>

definition geometry_round :: "int \<Rightarrow> int \<Rightarrow> int \<times> int \<times> int" where
  \<comment> \<open>heap offset, cluster count and new FAT length of one round\<close>
  "geometry_round partition_sectors fat_length =
     (let cluster_heap_offset =
            ((2048 + fat_length + CLUSTER_HEAP_ALIGNMENT_SECTORS - 1) div CLUSTER_HEAP_ALIGNMENT_SECTORS)
              * CLUSTER_HEAP_ALIGNMENT_SECTORS;
          cluster_count = (partition_sectors - cluster_heap_offset) div SECTORS_PER_CLUSTER;
          new_length = max 1 ((cluster_count * 4 + SECTOR_SIZE - 1) div SECTOR_SIZE);
          new_length = ((new_length + SECTORS_PER_CLUSTER - 1) div SECTORS_PER_CLUSTER) * SECTORS_PER_CLUSTER
      in (cluster_heap_offset, cluster_count, new_length))"

fun geometry_loop :: "nat \<Rightarrow> int \<Rightarrow> int \<times> int \<times> int \<Rightarrow> int \<times> int \<times> int" where
  \<comment> \<open>rounds left, partition sectors, and (cluster count, FAT length, heap offset)\<close>
  "geometry_loop 0 partition_sectors st = st"
| "geometry_loop (Suc rounds) partition_sectors (_, fat_length, _) =
     (case geometry_round partition_sectors fat_length of
        (cluster_heap_offset, cluster_count, new_length) \<Rightarrow>
          if new_length = fat_length then (cluster_count, fat_length, cluster_heap_offset)
          else geometry_loop rounds partition_sectors (cluster_count, new_length, cluster_heap_offset))"

definition geometry :: "builder \<Rightarrow> int \<times> int \<times> int \<times> int" where
  \<comment> \<open>FAT offset, FAT length, heap offset, cluster count\<close>
  "geometry b =
     (let partition_sectors = bd_total_sectors b - PARTITION_START_LBA;
          fat_offset = 2048;
          (cluster_count, fat_length, heap_offset) =
            geometry_loop 8 partition_sectors (0, SECTORS_PER_CLUSTER, fat_offset + SECTORS_PER_CLUSTER)
      in (fat_offset, fat_length, heap_offset, cluster_count))"

section \<open>One round\<close>

definition round_up :: "int \<Rightarrow> int \<Rightarrow> int" where
  "round_up k n = (n + k - 1) div k * k"

definition heap_for :: "int \<Rightarrow> int" where
  "heap_for fl = round_up 2048 (2048 + fl)"

definition clusters_for :: "int \<Rightarrow> int \<Rightarrow> int" where
  "clusters_for ps heap = (ps - heap) div 256"

definition fat_for :: "int \<Rightarrow> int" where
  "fat_for cc = round_up 256 (max 1 (ceil_div (cc * 4) 512))"

definition next_fat :: "int \<Rightarrow> int \<Rightarrow> int" where
  "next_fat ps fl = fat_for (clusters_for ps (heap_for fl))"

lemma geometry_round_eq:
  "geometry_round ps fl = (heap_for fl, clusters_for ps (heap_for fl), next_fat ps fl)"
  by (simp only: geometry_round_def Let_def next_fat_def heap_for_def clusters_for_def fat_for_def
      round_up_def ceil_div_def const_values)

lemma geometry_loop_Suc:
  "geometry_loop (Suc n) ps (cc, fl, ho) =
     (if next_fat ps fl = fl then (clusters_for ps (heap_for fl), fl, heap_for fl)
      else geometry_loop n ps (clusters_for ps (heap_for fl), next_fat ps fl, heap_for fl))"
  by (simp add: geometry_round_eq)

declare geometry_loop.simps(2) [simp del]

lemma round_up_ge: "0 < k \<Longrightarrow> n \<le> round_up k n"
  using ceil_div_ge [of k n] by (simp add: round_up_def ceil_div_def)

lemma round_up_mono: "0 < k \<Longrightarrow> n \<le> m \<Longrightarrow> round_up k n \<le> round_up k m"
  by (simp add: round_up_def zdiv_mono1)

lemma round_up_mult [simp]: "round_up k n mod k = 0"
  by (simp add: round_up_def)

lemma fat_for_mono: "cc \<le> cc' \<Longrightarrow> fat_for cc \<le> fat_for cc'"
  unfolding fat_for_def
  by (intro round_up_mono max.mono order_refl ceil_div_mono) simp_all

lemma heap_for_mono: "fl \<le> fl' \<Longrightarrow> heap_for fl \<le> heap_for fl'"
  unfolding heap_for_def by (intro round_up_mono) simp_all

lemma next_fat_antimono: "fl \<le> fl' \<Longrightarrow> next_fat ps fl' \<le> next_fat ps fl"
  unfolding next_fat_def clusters_for_def
  by (intro fat_for_mono zdiv_mono1) (simp_all add: heap_for_mono)

lemma next_fat_ge: "256 \<le> next_fat ps fl"
proof -
  have "round_up 256 1 \<le> next_fat ps fl"
    unfolding next_fat_def fat_for_def by (intro round_up_mono) simp_all
  then show ?thesis by (simp add: round_up_def)
qed

section \<open>All rounds\<close>

definition consistent :: "int \<Rightarrow> int \<times> int \<times> int \<Rightarrow> bool" where
  \<comment> \<open>heap and count belong together, and the length is the one the count asks for\<close>
  "consistent ps = (\<lambda>(cc, fl, ho).
     ho mod 2048 = 0 \<and> cc = clusters_for ps ho \<and> fl = fat_for cc)"

lemma geometry_loop_consistent:
  "consistent ps (geometry_loop (Suc n) ps (cc, fl, ho))"
proof (induction n arbitrary: cc fl ho)
  case 0
  then show ?case
    by (simp add: geometry_loop_Suc consistent_def) (simp add: heap_for_def next_fat_def)
next
  case (Suc n)
  show ?case
    by (subst geometry_loop_Suc)
      (use Suc in \<open>auto simp: consistent_def heap_for_def next_fat_def\<close>)
qed

lemma geometry_loop_room:
  assumes "fl \<le> next_fat ps fl" "geometry_loop (2 * Suc n) ps (cc, fl, ho) = (cc', fl', ho')"
  shows "2048 + fl' \<le> ho'"
  using assms
proof (induction n arbitrary: cc fl ho)
  case 0
  note heap = round_up_ge [of 2048 "2048 + fl" for fl, folded heap_for_def]
  have "next_fat ps (next_fat ps fl) \<le> next_fat ps fl"
    using 0(1) by (rule next_fat_antimono)
  with 0 heap [of fl] heap [of "next_fat ps fl"] show ?case
    by (auto simp: numeral_2_eq_2 geometry_loop_Suc split: if_splits)
next
  case (Suc n)
  note heap = round_up_ge [of 2048 "2048 + fl" for fl, folded heap_for_def]
  let ?fl = "next_fat ps (next_fat ps fl)"
  have "?fl \<le> next_fat ps fl" using Suc.prems(1) by (rule next_fat_antimono)
  then have rising: "?fl \<le> next_fat ps ?fl" by (rule next_fat_antimono)
  have two: "2 * Suc (Suc n) = Suc (Suc (2 * Suc n))" by simp
  show ?case
    using Suc.prems(2) Suc.IH [OF rising] heap [of fl] heap [of "next_fat ps fl"]
    unfolding two geometry_loop_Suc by (auto split: if_splits)
qed

text \<open>
  The geometry. The FAT starts at sector 2048 and ends before the aligned heap; the heap
  holds \<open>cluster_count\<close> whole clusters and less than one more; the FAT has a slot for as
  many clusters as the heap has. Two more slots are reserved at its start: whether all
  clusters have theirs depends on the count modulo the slots of one FAT block.
\<close>

lemma geometry_spec:
  assumes "geometry b = (fo, fl, ho, cc)"
  shows "fo = 2048" "fo + fl \<le> ho" "ho mod 2048 = 0" "fl mod 256 = 0" "256 \<le> fl"
    "cc = (bd_total_sectors b - ho) div 256" "fl = fat_for cc" "cc * 4 \<le> fl * 512"
proof -
  define ps where "ps = bd_total_sectors b"
  have g: "fo = 2048" "geometry_loop 8 ps (0, 256, 2304) = (cc, fl, ho)"
    using assms by (auto simp: geometry_def ps_def Let_def split: prod.splits)
  then show "fo = 2048" by simp
  have "256 \<le> next_fat ps 256" by (rule next_fat_ge)
  from geometry_loop_room [OF this, of 3] g(2) have "2048 + fl \<le> ho" by simp
  then show "fo + fl \<le> ho" using g(1) by simp
  have c: "consistent ps (cc, fl, ho)" using geometry_loop_consistent [of ps 7 0 256 2304] g(2) by simp
  then show "ho mod 2048 = 0" "cc = (bd_total_sectors b - ho) div 256" and fl: "fl = fat_for cc"
    by (auto simp: consistent_def clusters_for_def ps_def)
  show "fl mod 256 = 0" by (simp add: fl fat_for_def)
  have "ceil_div (cc * 4) 512 \<le> fl" "1 \<le> fl"
    using round_up_ge [of 256 "max 1 (ceil_div (cc * 4) 512)"] by (simp_all add: fl fat_for_def)
  then show "cc * 4 \<le> fl * 512" using ceil_div_le_iff [of 512 "cc * 4" fl] by simp
  have "fl div 256 * 256 = fl" using \<open>fl mod 256 = 0\<close> by auto
  then show "256 \<le> fl" using \<open>1 \<le> fl\<close> by presburger
qed

lemma fat_for_slots:
  assumes "0 < cc"
  shows "(cc + 2) * 4 \<le> fat_for cc * 512 \<longleftrightarrow> cc mod 32768 \<noteq> 0 \<and> cc mod 32768 \<noteq> 32767"
proof -
  define q r where "q = cc div 32768" and "r = cc mod 32768"
  have cc: "cc = 32768 * q + r" "0 \<le> r" "r < 32768" by (simp_all add: q_def r_def)
  have "max 1 (ceil_div (cc * 4) 512) = (cc + 127) div 128" using assms by (auto simp: ceil_div_def)
  then have "fat_for cc = ((cc + 127) div 128 + 255) div 256 * 256" by (simp add: fat_for_def round_up_def)
  also have "((cc + 127) div 128 + 255) div 256 = (cc + 32767) div 32768"
    using zdiv_zmult2_eq [of 256 "cc + 32767" 128] by (simp add: add.assoc [symmetric])
  also have "\<dots> = (if r = 0 then q else q + 1)"
  proof -
    have "cc + 32767 = 32768 * q + (r + 32767)" using cc(1) by simp
    then have "(cc + 32767) div 32768 = q + (r + 32767) div 32768" by simp
    moreover have "(r + 32767) div 32768 = (if r = 0 then 0 else 1)" using cc(2,3) by auto
    ultimately show ?thesis by simp
  qed
  finally show ?thesis using cc by (auto simp: r_def [symmetric])
qed

end
