(* ===== verification/SourceTree.thy ===== *)
theory SourceTree
  imports ConfigTypes Unicode
begin

unbundle bit_operations_syntax

text \<open>
  The source tree of \<open>exfat_builder.py\<close>: metadata snapshots (\<open>_source_stat\<close>), the
  nodes, the recursive scan, and the two walks over the nodes. The file systems below the
  mount points are a record of functions, so that what they answer is arbitrary.
\<close>

section \<open>File systems\<close>

record statx_time =
  tv_sec :: int
  tv_nsec :: int
  tv_reserved :: int

record statx_buf = \<comment> \<open>as the kernel filled it, each field within its C type\<close>
  stx_mask :: int
  stx_blksize :: int
  stx_attributes :: int
  stx_nlink :: int
  stx_uid :: int
  stx_gid :: int
  stx_mode :: int
  stx_spare0 :: int
  stx_ino :: int
  stx_size :: int
  stx_blocks :: int
  stx_attributes_mask :: int
  stx_atime :: statx_time
  stx_btime :: statx_time
  stx_ctime :: statx_time
  stx_mtime :: statx_time
  stx_rdev_major :: int
  stx_rdev_minor :: int
  stx_dev_major :: int
  stx_dev_minor :: int
  stx_mnt_id :: int
  stx_dio_mem_align :: int
  stx_dio_offset_align :: int
  stx_subvol :: int
  stx_atomic_write_unit_min :: int
  stx_atomic_write_unit_max :: int
  stx_atomic_write_segments_max :: int
  stx_dio_read_offset_align :: int
  stx_spare3 :: "int list"

record stat_result =
  st_size :: int
  st_atime_ns :: int
  st_mtime_ns :: int
  st_birthtime_ns :: "int option" \<comment> \<open>absent on most platforms\<close>

record dirent =
  de_name :: pystr
  de_is_dir :: "bool result"
  de_is_file :: "bool result"

record source_fs =
  fs_statx :: "(bytes \<Rightarrow> (int \<times> statx_buf) result) option" \<comment> \<open>\<open>_statx\<close>, if libc has it\<close>
  fs_stat :: "bytes \<Rightarrow> stat_result result"
  fs_scandir :: "bytes \<Rightarrow> dirent list result"

definition c_string :: "bytes \<Rightarrow> bytes" where
  \<comment> \<open>a \<open>c_char_p\<close> argument ends at its first NUL\<close>
  "c_string bs = takeWhile (\<lambda>b. b \<noteq> 0) bs"

definition os_path :: "pystr \<Rightarrow> bytes result" where
  \<comment> \<open>the conversion of a path argument by the functions of \<open>os\<close>\<close>
  "os_path path = rbind (fsencode path) (\<lambda>bs.
     if 0 \<in> set bs then Inl (ValueError (lit ''embedded null byte'')) else Inr bs)"

section \<open>Snapshots\<close>

record source_stat =
  ss_size_bytes :: int
  ss_accessed_ns :: int
  ss_modified_ns :: int
  ss_created_ns :: int

definition STATX_ATIME :: int where "STATX_ATIME = 0x0020"
definition STATX_BTIME :: int where "STATX_BTIME = 0x0800"
definition STATX_REQUIRED :: int where "STATX_REQUIRED = 0x0240"

definition time_ns :: "statx_time \<Rightarrow> int" where
  "time_ns t = tv_sec t * 1000000000 + tv_nsec t"

definition snapshot_of_statx :: "statx_buf \<Rightarrow> source_stat" where
  "snapshot_of_statx b =
     (let modified_ns = time_ns (stx_mtime b)
      in \<lparr>ss_size_bytes = stx_size b,
          ss_accessed_ns = (if stx_mask b AND STATX_ATIME \<noteq> 0 then time_ns (stx_atime b) else modified_ns),
          ss_modified_ns = modified_ns,
          ss_created_ns = (if stx_mask b AND STATX_BTIME \<noteq> 0 then time_ns (stx_btime b) else modified_ns)\<rparr>)"

definition snapshot_of_stat :: "stat_result \<Rightarrow> source_stat" where
  "snapshot_of_stat s =
     \<lparr>ss_size_bytes = st_size s, ss_accessed_ns = st_atime_ns s, ss_modified_ns = st_mtime_ns s,
      ss_created_ns = (case st_birthtime_ns s of Some n \<Rightarrow> if n \<noteq> 0 then n else st_mtime_ns s
                       | None \<Rightarrow> st_mtime_ns s)\<rparr>"

definition try_statx :: "source_fs \<Rightarrow> pystr \<Rightarrow> source_stat option result" where
  "try_statx fs path =
     (case fs_statx fs of
        None \<Rightarrow> Inr None
      | Some statx \<Rightarrow>
          (case rbind (fsencode path) (\<lambda>bs. statx (c_string bs)) of
             Inl (OSError e) \<Rightarrow> Inr None \<comment> \<open>\<open>status = -1\<close>\<close>
           | Inl e \<Rightarrow> Inl e
           | Inr (status, b) \<Rightarrow>
               Inr (if status = 0 \<and> stx_mask b AND STATX_REQUIRED = STATX_REQUIRED
                    then Some (snapshot_of_statx b) else None)))"

definition source_stat_of :: "source_fs \<Rightarrow> pystr \<Rightarrow> source_stat option result" where
  \<comment> \<open>\<open>_source_stat\<close>\<close>
  "source_stat_of fs path = rbind (try_statx fs path) (\<lambda>r.
     case r of
       Some s \<Rightarrow> Inr (Some s)
     | None \<Rightarrow>
         (case rbind (os_path path) (fs_stat fs) of
            Inl (OSError e) \<Rightarrow> Inr None
          | Inl e \<Rightarrow> Inl e
          | Inr s \<Rightarrow> Inr (Some (snapshot_of_stat s))))"

section \<open>Nodes\<close>

record node_info =
  n_name :: pystr
  n_virtual_path :: pystr
  n_source_path :: pystr
  n_is_directory :: bool
  n_size_bytes :: int
  n_first_cluster :: int
  n_cluster_count :: int
  n_created_ns :: int
  n_modified_ns :: int
  n_accessed_ns :: int

datatype node = Node (info: node_info) (children: "node list")

definition new_info :: "pystr \<Rightarrow> pystr \<Rightarrow> pystr \<Rightarrow> bool \<Rightarrow> node_info" where
  "new_info name virtual_path source_path is_directory =
     \<lparr>n_name = name, n_virtual_path = virtual_path, n_source_path = source_path,
      n_is_directory = is_directory, n_size_bytes = 0, n_first_cluster = 0, n_cluster_count = 0,
      n_created_ns = 0, n_modified_ns = 0, n_accessed_ns = 0\<rparr>"

definition apply_source_stat :: "node_info \<Rightarrow> source_stat \<Rightarrow> node_info" where
  "apply_source_stat i s =
     (let i = (if n_is_directory i then i else i\<lparr>n_size_bytes := ss_size_bytes s\<rparr>)
      in i\<lparr>n_created_ns := ss_created_ns s, n_modified_ns := ss_modified_ns s,
           n_accessed_ns := ss_accessed_ns s\<rparr>)"

definition apply_stat_opt :: "node_info \<Rightarrow> source_stat option \<Rightarrow> node_info" where
  "apply_stat_opt i s = (case s of None \<Rightarrow> i | Some s \<Rightarrow> apply_source_stat i s)"

section \<open>Scanning\<close>

definition join_path :: "pystr \<Rightarrow> pystr \<Rightarrow> pystr" where
  \<comment> \<open>\<open>DirEntry.path\<close>\<close>
  "join_path dir name = (if dir = [] \<or> last dir = 47 then dir @ name else dir @ [47] @ name)"

definition child_info :: "node_info \<Rightarrow> pystr \<Rightarrow> bool \<Rightarrow> node_info" where
  "child_info parent name is_directory =
     new_info name (n_virtual_path parent @ [47] @ name) (join_path (n_source_path parent) name)
       is_directory"

definition scan_items :: "source_fs \<Rightarrow> (node_info \<Rightarrow> source_stat option \<Rightarrow> node result) \<Rightarrow> node_info \<Rightarrow>
    dirent list \<Rightarrow> node list result" where
  \<comment> \<open>the loop over the items; \<open>scan_child\<close> is the recursive call\<close>
  "scan_items fs scan_child parent items =
     rbind (mapr (\<lambda>item. rbind (de_is_dir item) (\<lambda>d.
       if d then
         (let child = child_info parent (de_name item) True
          in rbind (source_stat_of fs (n_source_path child)) (\<lambda>s.
             rbind (scan_child (apply_stat_opt child s) s) (\<lambda>n. Inr [n])))
       else rbind (de_is_file item) (\<lambda>f.
         if f then
           (let child = child_info parent (de_name item) False
            in rbind (source_stat_of fs (n_source_path child)) (\<lambda>s.
               Inr [Node (apply_stat_opt child s) []]))
         else Inr []))) items) (\<lambda>ns. Inr (concat ns))"

text \<open>
  \<open>_scan\<close> recurses once per directory level; Python raises \<open>RecursionError\<close> at its
  limit, which is the fuel.
\<close>

fun scan :: "source_fs \<Rightarrow> nat \<Rightarrow> node_info \<Rightarrow> source_stat option \<Rightarrow> node result" where
  "scan fs 0 parent s = Inl RecursionError"
| "scan fs (Suc limit) parent s =
     (case rbind (os_path (n_source_path parent)) (fs_scandir fs) of
        Inl (OSError e) \<Rightarrow> Inr (Node parent []) \<comment> \<open>the warning is logged\<close>
      | Inl e \<Rightarrow> Inl e
      | Inr found \<Rightarrow>
          rbind (if s = None then source_stat_of fs (n_source_path parent) else Inr s) (\<lambda>s.
          rbind (scan_items fs (scan fs limit) (apply_stat_opt parent s) (sort_key de_name found)) (\<lambda>ns.
          Inr (Node (apply_stat_opt parent s) ns))))"

definition scan_entry :: "source_fs \<Rightarrow> nat \<Rightarrow> entry_config \<Rightarrow> node result" where
  \<comment> \<open>one round of the loop of \<open>_build_tree\<close>\<close>
  "scan_entry fs limit e =
     (let i = new_info (ec_virtual_path e) (ec_virtual_path e) (ec_source e) (ec_type e = EntryDirectory)
      in if n_is_directory i then scan fs limit i None
         else rbind (source_stat_of fs (n_source_path i)) (\<lambda>s. Inr (Node (apply_stat_opt i s) [])))"

definition build_tree :: "source_fs \<Rightarrow> nat \<Rightarrow> entry_config list \<Rightarrow> node result" where
  \<comment> \<open>the one root of the list that \<open>_build_tree\<close> returns\<close>
  "build_tree fs limit es =
     rbind (mapr (scan_entry fs limit) (sort_key ec_virtual_path es)) (\<lambda>ns.
       Inr (Node (new_info [] [] [] True) ns))"

section \<open>Walking\<close>

fun walk :: "node list \<Rightarrow> node list" where
  \<comment> \<open>\<open>_walk\<close>: depth first, into directories only\<close>
  "walk [] = []"
| "walk (Node i cs # ns) = Node i cs # (if n_is_directory i then walk cs else []) @ walk ns"

function walk_static :: "node list \<Rightarrow> node list" where
  \<comment> \<open>the loop of \<open>_walk_static\<close> on its stack, top first\<close>
  "walk_static [] = []"
| "walk_static (n # stack) = n # walk_static (children n @ stack)"
  by pat_completeness auto
termination
proof (relation "measure (size_list size)")
  fix n :: node and stack
  show "(children n @ stack, n # stack) \<in> measure (size_list size)"
    by (cases n) (simp add: size_list_append)
qed auto

text \<open>
  A \<open>for node in self._walk(...)\<close> loop that assigns fields of the nodes it visits and
  carries a state. The fields assigned are never the children or the kind.
\<close>

fun walk_update ::
  "(node \<Rightarrow> 's \<Rightarrow> (node_info \<times> 's) result) \<Rightarrow> node list \<Rightarrow> 's \<Rightarrow> (node list \<times> 's) result" where
  "walk_update f [] s = Inr ([], s)"
| "walk_update f (Node i cs # ns) s =
     rbind (f (Node i cs) s) (\<lambda>(i', s).
     rbind (if n_is_directory i' then walk_update f cs s else Inr (cs, s)) (\<lambda>(cs', s).
     rbind (walk_update f ns s) (\<lambda>(ns', s).
     Inr (Node i' cs' # ns', s))))"

definition tree_ok :: "node list \<Rightarrow> bool" where
  \<comment> \<open>files have no children\<close>
  "tree_ok ns \<longleftrightarrow> list_all (\<lambda>n. n_is_directory (info n) \<or> children n = []) (walk ns)"

end
