(* ===== verification/TreeWalk.thy ===== *)
theory TreeWalk
  imports SourceTree
begin

text \<open>
  Facts about the source tree. The scan of a directory is specified by the abstract tree a
  file system presents: with a recursion limit above its depth, \<open>scan\<close> returns exactly
  its regular files and directories, in name order. The two walks agree, and a loop over a
  walk that assigns fields is a loop over the list of visited nodes.
\<close>

section \<open>Walks\<close>

lemma walk_append [simp]: "walk (xs @ ys) = walk xs @ walk ys"
proof (induction xs)
  case (Cons n xs)
  then show ?case by (cases n) simp
qed simp

lemma walk_Cons: "walk (n # ns) = n # (if n_is_directory (info n) then walk (children n) else []) @ walk ns"
  by (cases n) simp

lemma tree_ok_simps [simp]:
  "tree_ok []"
  "tree_ok (xs @ ys) \<longleftrightarrow> tree_ok xs \<and> tree_ok ys"
  "tree_ok (Node i cs # ns) \<longleftrightarrow> (if n_is_directory i then tree_ok cs else cs = []) \<and> tree_ok ns"
  by (auto simp: tree_ok_def)

lemma walk_static_eq: "tree_ok ns \<Longrightarrow> walk_static ns = walk ns"
proof (induction ns rule: walk_static.induct)
  case (2 n stack)
  then have "tree_ok (children n @ stack)" by (cases n) (auto split: if_splits)
  with 2 show ?case by (cases n) (auto split: if_splits)
qed simp

lemma set_walk_self: "n \<in> set ns \<Longrightarrow> n \<in> set (walk ns)"
  by (induction ns) (auto simp: walk_Cons)

lemma children_walk:
  assumes "n \<in> set (walk ns)" "n_is_directory (info n)"
  shows "set (walk (children n)) \<subseteq> set (walk ns)"
  using assms
proof (induction ns rule: walk.induct)
  case (2 i cs ns)
  then show ?case by (auto split: if_splits)
qed simp

section \<open>Loops over a walk\<close>

fun state_map :: "('a \<Rightarrow> 's \<Rightarrow> ('b \<times> 's) result) \<Rightarrow> 'a list \<Rightarrow> 's \<Rightarrow> ('b list \<times> 's) result" where
  "state_map f [] s = Inr ([], s)"
| "state_map f (x # xs) s =
     rbind (f x s) (\<lambda>(y, s). rbind (state_map f xs s) (\<lambda>(ys, s). Inr (y # ys, s)))"

lemma state_map_append:
  "state_map f (xs @ ys) s = rbind (state_map f xs s) (\<lambda>(a, s).
     rbind (state_map f ys s) (\<lambda>(b, s). Inr (a @ b, s)))"
proof (induction xs arbitrary: s)
  case Nil
  then show ?case by (cases "state_map f ys s") auto
next
  case (Cons x xs)
  then show ?case
    by (auto simp: rbind_def split: sum.splits prod.splits)
qed

lemma state_map_cong:
  "(\<And>x s. x \<in> set xs \<Longrightarrow> f x s = g x s) \<Longrightarrow> state_map f xs s = state_map g xs s"
proof (induction xs arbitrary: s)
  case (Cons x xs)
  then have "f x s = g x s" "\<And>s. state_map f xs s = state_map g xs s" by auto
  then show ?case by simp
qed simp

lemma state_map_map: "state_map f (map h xs) s = state_map (\<lambda>x. f (h x)) xs s"
  by (induction xs arbitrary: s) (auto simp: rbind_def split: sum.splits)

definition keeps_kind :: "(node \<Rightarrow> 's \<Rightarrow> (node_info \<times> 's) result) \<Rightarrow> bool" where
  "keeps_kind f \<longleftrightarrow> (\<forall>n s i' s'. f n s = Inr (i', s') \<longrightarrow> n_is_directory i' = n_is_directory (info n))"

lemma walk_update_state_map:
  assumes "keeps_kind f"
  shows "state_map f (walk ns) s =
    rbind (walk_update f ns s) (\<lambda>(ns', s'). Inr (map info (walk ns'), s'))"
  using assms
proof (induction f ns s rule: walk_update.induct)
  case (2 f i cs ns s)
  show ?case
  proof (cases "f (Node i cs) s")
    case (Inr r)
    obtain i1 s1 where r: "r = (i1, s1)" by fastforce
    have kind: "n_is_directory i1 = n_is_directory i"
      using 2(3) Inr r by (fastforce simp: keeps_kind_def)
    have IH1: "state_map f (walk cs) t =
        rbind (walk_update f cs t) (\<lambda>(ns', s'). Inr (map info (walk ns'), s'))"
      if "n_is_directory i" for t
      using 2(1) [of i1 t] 2(3) that kind by simp
    have IH2: "state_map f (walk ns) t =
        rbind (walk_update f ns t) (\<lambda>(ns', s'). Inr (map info (walk ns'), s'))" for t
      using 2(2) [of t] 2(3) by simp
    show ?thesis
    proof (cases "n_is_directory i")
      case True
      then show ?thesis
        using kind Inr r IH1 [OF True, of s1]
        by (cases "walk_update f cs s1") (auto simp: state_map_append IH2 rbind_assoc
          rbind_def split: sum.splits)
    next
      case False
      then show ?thesis using kind Inr r
        by (auto simp: IH2 rbind_def split: sum.splits)
    qed
  qed simp
qed simp

text \<open>Assigning clusters changes nothing else of a tree.\<close>

definition unplaced :: "node_info \<Rightarrow> node_info" where
  "unplaced i = i\<lparr>n_first_cluster := 0, n_cluster_count := 0\<rparr>"

primrec erase :: "node \<Rightarrow> node" where
  "erase (Node i cs) = Node (unplaced i) (map erase cs)"

definition only_places :: "(node \<Rightarrow> 's \<Rightarrow> (node_info \<times> 's) result) \<Rightarrow> bool" where
  "only_places f \<longleftrightarrow> (\<forall>n s i' s'. f n s = Inr (i', s') \<longrightarrow> unplaced i' = unplaced (info n))"

lemma unplaced_fields [simp]:
  "n_name (unplaced i) = n_name i" "n_virtual_path (unplaced i) = n_virtual_path i"
  "n_source_path (unplaced i) = n_source_path i" "n_is_directory (unplaced i) = n_is_directory i"
  "n_size_bytes (unplaced i) = n_size_bytes i"
  by (simp_all add: unplaced_def)

lemma unplaced_eqD:
  assumes "unplaced i = unplaced j"
  shows "n_name i = n_name j" "n_virtual_path i = n_virtual_path j"
    "n_source_path i = n_source_path j" "n_is_directory i = n_is_directory j"
    "n_size_bytes i = n_size_bytes j" "n_created_ns i = n_created_ns j"
    "n_modified_ns i = n_modified_ns j" "n_accessed_ns i = n_accessed_ns j"
  using assms by (cases i, cases j, simp add: unplaced_def)+

lemma info_erase [simp]: "info (erase n) = unplaced (info n)"
  by (cases n) simp

lemma children_erase [simp]: "children (erase n) = map erase (children n)"
  by (cases n) simp

lemma only_places_keeps_kind: "only_places f \<Longrightarrow> keeps_kind f"
  by (auto simp: only_places_def keeps_kind_def dest: unplaced_eqD(4))

lemma walk_update_erase:
  assumes "only_places f" "walk_update f ns s = Inr (ns', s')"
  shows "map erase ns' = map erase ns"
  using assms
proof (induction f ns s arbitrary: ns' s' rule: walk_update.induct)
  case (2 f i cs ns s)
  then show ?case
    by (auto simp: result_simps only_places_def split: if_splits) (metis node.sel(1))+
qed simp

lemma walk_erase: "walk (map erase ns) = map erase (walk ns)"
  by (induction ns rule: walk.induct) auto

lemma tree_ok_erase: "tree_ok (map erase ns) = tree_ok ns"
  by (simp add: tree_ok_def walk_erase list_all_iff)

section \<open>What a scan returns\<close>

datatype ftree =
    FFile source_stat
  | FDir source_stat "(pystr \<times> ftree) list"
  | FOther \<comment> \<open>a symbolic link, a socket, a device\<close>

fun is_fdir :: "ftree \<Rightarrow> bool" where
  "is_fdir (FDir _ _) = True"
| "is_fdir _ = False"

fun is_ffile :: "ftree \<Rightarrow> bool" where
  "is_ffile (FFile _) = True"
| "is_ffile _ = False"

definition dirent_of :: "pystr \<times> ftree \<Rightarrow> dirent" where
  "dirent_of e = \<lparr>de_name = fst e, de_is_dir = Inr (is_fdir (snd e)), de_is_file = Inr (is_ffile (snd e))\<rparr>"

fun presents :: "source_fs \<Rightarrow> pystr \<Rightarrow> ftree \<Rightarrow> bool" where
  "presents fs path (FFile s) \<longleftrightarrow> source_stat_of fs path = Inr (Some s)"
| "presents fs path (FDir s es) \<longleftrightarrow>
     source_stat_of fs path = Inr (Some s) \<and>
     rbind (os_path path) (fs_scandir fs) = Inr (map dirent_of es) \<and>
     (\<forall>(name, t)\<in>set es. presents fs (join_path path name) t)"
| "presents fs path FOther \<longleftrightarrow> True"

fun depth :: "ftree \<Rightarrow> nat" where
  "depth (FDir s es) = Suc (Max (insert 0 (set (map (\<lambda>(_, t). depth t) es))))"
| "depth _ = 0"

primrec stat_of :: "ftree \<Rightarrow> source_stat option" where
  "stat_of (FFile s) = Some s"
| "stat_of (FDir s es) = Some s"
| "stat_of FOther = None"

fun expected :: "node_info \<Rightarrow> ftree \<Rightarrow> node list" where
  \<comment> \<open>the node of an entry, with its snapshot, and those below it in name order\<close>
  "expected i (FFile s) = [Node (apply_source_stat i s) []]"
| "expected i (FDir s es) =
     [Node (apply_source_stat i s)
        (concat (map (\<lambda>(name, ns). ns)
          (sort_key fst (map (\<lambda>(name, t).
             (name, expected (child_info (apply_source_stat i s) name (is_fdir t)) t)) es))))]"
| "expected i FOther = []"

lemma insort_key_map: "insort_key f (g x) (map g xs) = map g (insort_key (\<lambda>x. f (g x)) x xs)"
  by (induction xs) auto

lemma sort_key_map: "sort_key f (map g xs) = map g (sort_key (\<lambda>x. f (g x)) xs)"
  by (induction xs) (simp_all add: insort_key_map)

lemma apply_source_stat_kind [simp]: "n_is_directory (apply_source_stat i s) = n_is_directory i"
  by (simp add: apply_source_stat_def Let_def)

lemma apply_source_stat_paths [simp]:
  "n_source_path (apply_source_stat i s) = n_source_path i"
  "n_virtual_path (apply_source_stat i s) = n_virtual_path i"
  "n_name (apply_source_stat i s) = n_name i"
  by (simp_all add: apply_source_stat_def Let_def)

lemma apply_source_stat_twice [simp]:
  "apply_source_stat (apply_source_stat i s) s = apply_source_stat i s"
  by (simp add: apply_source_stat_def Let_def)

lemma child_info_fields [simp]:
  "n_is_directory (child_info i name d) = d"
  "n_name (child_info i name d) = name"
  "n_source_path (child_info i name d) = join_path (n_source_path i) name"
  "n_virtual_path (child_info i name d) = n_virtual_path i @ [47] @ name"
  by (simp_all add: child_info_def new_info_def)

lemma depth_child: "(name, t) \<in> set es \<Longrightarrow> depth (FDir s es) \<le> Suc limit \<Longrightarrow> depth t \<le> limit"
  by (force simp: Max_ge_iff)

lemma mapr_map: "mapr f (map g xs) = mapr (\<lambda>x. f (g x)) xs"
  by (induction xs) simp_all

lemma scan_expected:
  assumes "presents fs (n_source_path i) (FDir st es)" "depth (FDir st es) \<le> limit"
    and "s = None \<or> s = Some st"
  shows "\<exists>n. scan fs limit i s = Inr n \<and> [n] = expected i (FDir st es)"
  using assms
proof (induction limit arbitrary: i st es s)
  case 0
  then show ?case by simp
next
  case (Suc limit)
  let ?i = "apply_source_stat i st"
  let ?exp = "\<lambda>(name, t). expected (child_info ?i name (is_fdir t)) t"
  let ?es = "sort_key fst es"
  have found: "rbind (os_path (n_source_path i)) (fs_scandir fs) = Inr (map dirent_of es)"
    and st: "source_stat_of fs (n_source_path i) = Inr (Some st)"
    using Suc.prems(1) by auto
  have s: "(if s = None then source_stat_of fs (n_source_path i) else Inr s) = Inr (Some st)"
    using Suc.prems(3) st by auto
  have sorted: "sort_key de_name (map dirent_of es) = map dirent_of ?es"
    by (simp add: sort_key_map dirent_of_def)
  have item: "(let child = child_info ?i (de_name (dirent_of e)) True
          in rbind (source_stat_of fs (n_source_path child)) (\<lambda>s.
             rbind (scan fs limit (apply_stat_opt child s) s) (\<lambda>n. Inr [n]))) = Inr (?exp e)"
    if e: "e \<in> set ?es" "is_fdir (snd e)" for e
  proof -
    obtain name st' es' where e': "e = (name, FDir st' es')"
      using e(2) by (cases e; cases "snd e") auto
    let ?c = "child_info ?i name True"
    have pres: "presents fs (n_source_path (apply_source_stat ?c st')) (FDir st' es')"
      using Suc.prems(1) e e' by fastforce
    moreover have "depth (FDir st' es') \<le> limit"
      using depth_child [OF _ Suc.prems(2), of name] e e' by (simp del: depth.simps)
    ultimately obtain n where "scan fs limit (apply_source_stat ?c st') (Some st') = Inr n"
        "[n] = expected (apply_source_stat ?c st') (FDir st' es')"
      using Suc.IH [of "apply_source_stat ?c st'" st' es' "Some st'"] by blast
    moreover have "source_stat_of fs (join_path (n_source_path i) name) = Inr (Some st')"
      using pres by simp
    moreover have "expected (apply_source_stat ?c st') (FDir st' es') = expected ?c (FDir st' es')"
      by simp
    ultimately show ?thesis
      by (simp add: e' dirent_of_def apply_stat_opt_def Let_def del: expected.simps)
  qed
  have plain: "(let child = child_info ?i (de_name (dirent_of e)) False
          in rbind (source_stat_of fs (n_source_path child)) (\<lambda>s. Inr [Node (apply_stat_opt child s) []])) =
        Inr (?exp e)" if e: "e \<in> set ?es" "is_ffile (snd e)" for e
  proof -
    obtain name st' where e': "e = (name, FFile st')" using e(2) by (cases e; cases "snd e") auto
    have "source_stat_of fs (join_path (n_source_path i) name) = Inr (Some st')"
      using Suc.prems(1) e e' by fastforce
    then show ?thesis by (simp add: e' dirent_of_def apply_stat_opt_def Let_def)
  qed
  have "scan_items fs (scan fs limit) ?i (map dirent_of ?es) = Inr (concat (map ?exp ?es))"
    unfolding scan_items_def mapr_map
  proof (subst mapr_pure [where g = ?exp])
    fix e assume e: "e \<in> set ?es"
    show "rbind (de_is_dir (dirent_of e)) (\<lambda>d.
       if d then
         (let child = child_info ?i (de_name (dirent_of e)) True
          in rbind (source_stat_of fs (n_source_path child)) (\<lambda>s.
             rbind (scan fs limit (apply_stat_opt child s) s) (\<lambda>n. Inr [n])))
       else rbind (de_is_file (dirent_of e)) (\<lambda>f.
         if f then
           (let child = child_info ?i (de_name (dirent_of e)) False
            in rbind (source_stat_of fs (n_source_path child)) (\<lambda>s.
               Inr [Node (apply_stat_opt child s) []]))
         else Inr [])) = Inr (?exp e)"
    proof (cases "snd e")
      case (FFile st')
      then show ?thesis using plain [OF e] by (simp add: dirent_of_def)
    next
      case (FDir st' es')
      then show ?thesis using item [OF e] by (simp add: dirent_of_def)
    next
      case FOther
      then show ?thesis by (cases e) (simp add: dirent_of_def)
    qed
  qed simp
  then have "scan fs (Suc limit) i s = Inr (Node ?i (concat (map ?exp ?es)))"
    using found s sorted by (simp add: apply_stat_opt_def)
  moreover have "map (\<lambda>(name, ns). ns) (sort_key fst (map (\<lambda>(name, t).
      (name, expected (child_info ?i name (is_fdir t)) t)) es)) = map ?exp ?es"
    by (simp add: sort_key_map case_prod_beta' comp_def)
  ultimately show ?case by simp
qed

section \<open>Every scan returns a well-formed tree\<close>

lemma mapr_list_all:
  assumes "mapr f xs = Inr ys" "\<And>x y. x \<in> set xs \<Longrightarrow> f x = Inr y \<Longrightarrow> P y"
  shows "list_all P ys"
  using assms
proof (induction xs arbitrary: ys)
  case (Cons x xs)
  then obtain y zs where "f x = Inr y" "mapr f xs = Inr zs" "ys = y # zs" by (auto simp: result_simps)
  moreover have "list_all P zs"
    by (rule Cons.IH [OF \<open>mapr f xs = Inr zs\<close>]) (rule Cons.prems(2), simp_all)
  ultimately show ?case using Cons.prems(2) [of x y] by simp
qed simp

lemma tree_ok_concat: "tree_ok (concat nss) \<longleftrightarrow> list_all tree_ok nss"
  by (induction nss) auto

lemma apply_stat_opt_fields [simp]:
  "n_is_directory (apply_stat_opt i s) = n_is_directory i"
  "n_name (apply_stat_opt i s) = n_name i"
  "n_virtual_path (apply_stat_opt i s) = n_virtual_path i"
  "n_source_path (apply_stat_opt i s) = n_source_path i"
  by (cases s; simp add: apply_stat_opt_def)+

lemma scan_items_ok:
  assumes "scan_items fs sc p items = Inr ns"
    and "\<And>c s n. n_is_directory c \<Longrightarrow> sc c s = Inr n \<Longrightarrow> tree_ok [n]"
  shows "tree_ok ns"
proof -
  obtain nss where nss: "mapr (\<lambda>item. rbind (de_is_dir item) (\<lambda>d.
       if d then
         (let child = child_info p (de_name item) True
          in rbind (source_stat_of fs (n_source_path child)) (\<lambda>s.
             rbind (sc (apply_stat_opt child s) s) (\<lambda>n. Inr [n])))
       else rbind (de_is_file item) (\<lambda>f.
         if f then
           (let child = child_info p (de_name item) False
            in rbind (source_stat_of fs (n_source_path child)) (\<lambda>s.
               Inr [Node (apply_stat_opt child s) []]))
         else Inr []))) items = Inr nss" "ns = concat nss"
    using assms(1) by (auto simp: scan_items_def result_simps)
  have "list_all tree_ok nss"
    by (rule mapr_list_all [OF nss(1)])
      (auto simp: result_simps Let_def split: if_splits dest!: assms(2) [rotated])
  then show ?thesis by (simp add: nss(2) tree_ok_concat)
qed

lemma scan_ok: "scan fs limit i s = Inr n \<Longrightarrow> n_is_directory i \<Longrightarrow>
    tree_ok [n] \<and> n_is_directory (info n) \<and> n_name (info n) = n_name i"
proof (induction limit arbitrary: i s n)
  case (Suc limit)
  show ?case
  proof (cases "rbind (os_path (n_source_path i)) (fs_scandir fs)")
    case (Inl e)
    with Suc.prems show ?thesis by (cases e) auto
  next
    case (Inr found)
    with Suc.prems obtain s' ns where
      items: "scan_items fs (scan fs limit) (apply_stat_opt i s') (sort_key de_name found) = Inr ns"
      and n: "n = Node (apply_stat_opt i s') ns"
      by (auto simp: result_simps)
    have "tree_ok ns" by (rule scan_items_ok [OF items]) (use Suc.IH in blast)
    then show ?thesis using n Suc.prems(2) by simp
  qed
qed simp

lemma scan_entry_ok:
  "scan_entry fs limit e = Inr n \<Longrightarrow> tree_ok [n] \<and> n_name (info n) = ec_virtual_path e"
  using scan_ok [of fs limit "new_info (ec_virtual_path e) (ec_virtual_path e) (ec_source e) True" None n]
  by (auto simp: scan_entry_def Let_def result_simps new_info_def split: if_splits)

lemma build_tree_ok:
  assumes "build_tree fs limit es = Inr root"
  shows "tree_ok [root]" "info root = new_info [] [] [] True"
    "length (children root) = length es"
    "map (\<lambda>n. n_name (info n)) (children root) = sort (map ec_virtual_path es)"
proof -
  obtain ns where ns: "mapr (scan_entry fs limit) (sort_key ec_virtual_path es) = Inr ns"
      "root = Node (new_info [] [] [] True) ns"
    using assms by (auto simp: build_tree_def result_simps)
  have "list_all (\<lambda>n. tree_ok [n]) ns" by (rule mapr_list_all [OF ns(1)]) (simp add: scan_entry_ok)
  then have "tree_ok ns" by (induction ns) (auto simp: tree_ok_def walk_Cons)
  then show "tree_ok [root]" by (simp add: ns(2) new_info_def)
  show "info root = new_info [] [] [] True" by (simp add: ns(2))
  show "length (children root) = length es" using mapr_Inr_length [OF ns(1)] by (simp add: ns(2))
  have "map (\<lambda>n. n_name (info n)) ns = map ec_virtual_path xs"
    if "mapr (scan_entry fs limit) xs = Inr ns" for xs ns
    using that by (induction xs arbitrary: ns) (auto simp: result_simps scan_entry_ok)
  from this [OF ns(1)] show "map (\<lambda>n. n_name (info n)) (children root) = sort (map ec_virtual_path es)"
    by (simp add: ns(2) sort_key_map)
qed

end
