(* ===== verification/Checksum.thy ===== *)
theory Checksum
  imports Consts Bytes
begin

unbundle bit_operations_syntax

text \<open>
  The rotating checksums of \<open>exfat_builder.py\<close>: \<open>_boot_checksum\<close> and
  \<open>_rotate_checksum\<close> on 32 bits, \<open>_entry_checksum\<close> and \<open>_name_hash\<close> on
  16 bits. The code computes on Python's unbounded integers and masks; the lemmas show
  that each step is a rotation of a machine word followed by a wrapping addition, that
  the sums stay in range, and that a change of one summed byte always changes the sum.
\<close>

section \<open>The steps\<close>

definition rot32 :: "int \<Rightarrow> byte \<Rightarrow> int" where
  "rot32 v b = ((drop_bit 1 v OR push_bit 31 (v AND 1)) + uint b) AND 0xFFFFFFFF"

definition rot16 :: "int \<Rightarrow> byte \<Rightarrow> int" where
  "rot16 v b = ((push_bit 15 (v AND 1) OR drop_bit 1 v) + uint b) AND 0xFFFF"

section \<open>The checksums\<close>

definition boot_checksum :: "bytes \<Rightarrow> int" where
  "boot_checksum boot =
     fold (\<lambda>(off, b) v. if off \<in> {106, 107, 112} then v else rot32 v b)
       (enumerate 0 (take (nat (11 * SECTOR_SIZE)) boot)) 0"

definition rotate_checksum :: "bytes \<Rightarrow> int" where
  "rotate_checksum data = fold (\<lambda>b v. rot32 v b) data 0"

definition entry_checksum :: "bytes \<Rightarrow> int" where
  "entry_checksum data =
     fold (\<lambda>(i, b) v. if i < 32 \<and> i \<in> {2, 3} then v else rot16 v b) (enumerate 0 data) 0"

text \<open>
  \<open>_name_hash\<close> reads the encoded name two bytes at a time, maps the code unit with
  \<open>_upcase_codepoint\<close> (the parameter \<open>up\<close>) and sums the two bytes of the result.
  \<open>unpack_from\<close> fails on an odd rest and \<open>pack\<close> on a unit above 65535.
\<close>

fun name_hash_from :: "(int \<Rightarrow> int) \<Rightarrow> bytes \<Rightarrow> int \<Rightarrow> int result" where
  "name_hash_from up [] v = Inr v"
| "name_hash_from up [b] v = Inl StructError"
| "name_hash_from up (b0 # b1 # rest) v =
     rbind (pack 2 (up (le_val [b0, b1]))) (\<lambda>bs.
       name_hash_from up rest (fold (\<lambda>b v. rot16 v b) bs v))"

definition name_hash :: "(int \<Rightarrow> int) \<Rightarrow> bytes \<Rightarrow> int result" where
  "name_hash up encoded = name_hash_from up encoded 0"

section \<open>Steps as machine arithmetic\<close>

text \<open>Rotating a value of \<open>log (2 * h)\<close> bits to the right by one.\<close>

definition halves :: "int \<Rightarrow> int \<Rightarrow> int" where
  "halves h v = v div 2 + h * (v mod 2)"

lemma or_push_as_sum:
  fixes v :: int
  assumes "0 \<le> v" "v < 2 ^ Suc n"
  shows "drop_bit 1 v OR push_bit n (v AND 1) = v div 2 + 2 ^ n * (v mod 2)"
proof -
  have "take_bit n (drop_bit 1 v) = drop_bit 1 v"
    using assms by (simp add: take_bit_int_eq_self_iff drop_bit_eq_div int_div_less_iff)
  then have "drop_bit 1 v OR push_bit n (v AND 1) = concat_bit n (drop_bit 1 v) (v AND 1)"
    by (simp add: concat_bit_def)
  also have "\<dots> = drop_bit 1 v + push_bit n (v AND 1)"
    using \<open>take_bit n (drop_bit 1 v) = drop_bit 1 v\<close> by (simp add: concat_bit_eq)
  finally show ?thesis
    by (simp add: drop_bit_eq_div push_bit_eq_mult and_one_eq mult.commute)
qed

lemma rot32_arith:
  assumes "0 \<le> v" "v < 4294967296"
  shows "rot32 v b = (halves 2147483648 v + uint b) mod 4294967296"
proof -
  have "drop_bit 1 v OR push_bit 31 (v AND 1) = halves 2147483648 v"
    using or_push_as_sum [of v 31] assms by (simp add: halves_def)
  moreover have "x AND 0xFFFFFFFF = x mod 4294967296" for x :: int
    using take_bit_eq_mask [of 32 x] by (simp add: mask_eq_exp_minus_1 take_bit_eq_mod)
  ultimately show ?thesis by (simp add: rot32_def)
qed

lemma rot16_arith:
  assumes "0 \<le> v" "v < 65536"
  shows "rot16 v b = (halves 32768 v + uint b) mod 65536"
proof -
  have "push_bit 15 (v AND 1) OR drop_bit 1 v = halves 32768 v"
    using or_push_as_sum [of v 15] assms by (simp add: halves_def or.commute)
  moreover have "x AND 0xFFFF = x mod 65536" for x :: int
    using take_bit_eq_mask [of 16 x] by (simp add: mask_eq_exp_minus_1 take_bit_eq_mod)
  ultimately show ?thesis by (simp add: rot16_def)
qed

text \<open>The steps are the rotations of the exFAT specification on machine words.\<close>

lemma rotr_arith:
  fixes w :: "'a::len word"
  assumes "LENGTH('a) = Suc n" "0 < n"
  shows "uint (word_rotr 1 w) = uint w div 2 + 2 ^ n * (uint w mod 2)"
proof -
  have "uint (word_rotr 1 w) = concat_bit n (drop_bit 1 (uint w)) (take_bit 1 (uint w))"
  proof -
    have "1 mod LENGTH('a) = 1" "LENGTH('a) - 1 = n" using assms by simp_all
    then show ?thesis
      by (simp only: uint_word_rotr_eq unsigned_take_bit_eq)
  qed
  then have "uint (word_rotr 1 w) = concat_bit n (drop_bit 1 (uint w)) (uint w mod 2)"
    by (simp add: take_bit_eq_mod)
  moreover have "take_bit n (drop_bit 1 (uint w)) = drop_bit 1 (uint w)"
    using assms uint_lt2p [of w]
    by (simp add: take_bit_int_eq_self_iff drop_bit_eq_div int_div_less_iff)
  ultimately show ?thesis
    by (simp add: concat_bit_eq drop_bit_eq_div push_bit_eq_mult mult.commute)
qed

lemma rot32_word:
  assumes "0 \<le> v" "v < 4294967296"
  shows "rot32 v b = uint (word_rotr 1 (word_of_int v :: 32 word) + ucast b)"
proof -
  have "uint (word_of_int v :: 32 word) = v" using assms by (simp add: uint_word_of_int)
  then have "halves 2147483648 v = uint (word_rotr 1 (word_of_int v :: 32 word))"
    using rotr_arith [of 31 "word_of_int v :: 32 word"] by (simp add: halves_def)
  then show ?thesis
    using assms by (simp add: rot32_arith uint_word_ariths unsigned_ucast_eq take_bit_eq_mod mod_add_right_eq)
qed

lemma rot16_word:
  assumes "0 \<le> v" "v < 65536"
  shows "rot16 v b = uint (word_rotr 1 (word_of_int v :: 16 word) + ucast b)"
proof -
  have "uint (word_of_int v :: 16 word) = v" using assms by (simp add: uint_word_of_int)
  then have "halves 32768 v = uint (word_rotr 1 (word_of_int v :: 16 word))"
    using rotr_arith [of 15 "word_of_int v :: 16 word"] by (simp add: halves_def)
  then show ?thesis
    using assms by (simp add: rot16_arith uint_word_ariths unsigned_ucast_eq take_bit_eq_mod mod_add_right_eq)
qed

section \<open>A family of rotating checksums\<close>

definition sum_from :: "(int \<Rightarrow> byte \<Rightarrow> int) \<Rightarrow> (nat \<Rightarrow> bool) \<Rightarrow> nat \<Rightarrow> bytes \<Rightarrow> int \<Rightarrow> int" where
  "sum_from step skip i data v =
     fold (\<lambda>(i, b) v. if skip i then v else step v b) (enumerate i data) v"

lemma sum_from_Nil [simp]: "sum_from step skip i [] v = v"
  by (simp add: sum_from_def)

lemma sum_from_Cons [simp]:
  "sum_from step skip i (b # bs) v = sum_from step skip (Suc i) bs (if skip i then v else step v b)"
  by (simp add: sum_from_def)

lemma sum_from_append:
  "sum_from step skip i (xs @ ys) v =
     sum_from step skip (i + length xs) ys (sum_from step skip i xs v)"
  by (induction xs arbitrary: i v) simp_all

lemma sum_from_skipped:
  assumes "\<And>k. k < length xs \<Longrightarrow> skip (i + k)"
  shows "sum_from step skip i xs v = v"
  using assms
proof (induction xs arbitrary: i)
  case Nil
  then show ?case by simp
next
  case (Cons x xs)
  from Cons.prems [of 0] have "skip i" by simp
  moreover have "sum_from step skip (Suc i) xs v = v"
  proof (rule Cons.IH)
    fix k assume "k < length xs"
    then show "skip (Suc i + k)" using Cons.prems [of "Suc k"] by simp
  qed
  ultimately show ?case by simp
qed

locale rotating_checksum =
  fixes step :: "int \<Rightarrow> byte \<Rightarrow> int"
    and bound :: int
  assumes bound_pos: "0 < bound"
    and step_range: "0 \<le> v \<Longrightarrow> v < bound \<Longrightarrow> 0 \<le> step v b \<and> step v b < bound"
    and step_inj_sum: "0 \<le> v \<Longrightarrow> v < bound \<Longrightarrow> 0 \<le> w \<Longrightarrow> w < bound \<Longrightarrow>
      step v b = step w b \<Longrightarrow> v = w"
    and step_inj_byte: "0 \<le> v \<Longrightarrow> v < bound \<Longrightarrow> step v b = step v c \<Longrightarrow> b = c"
begin

lemma sum_range:
  "0 \<le> v \<Longrightarrow> v < bound \<Longrightarrow>
     0 \<le> sum_from step skip i data v \<and> sum_from step skip i data v < bound"
  by (induction data arbitrary: i v) (auto simp: step_range)

lemma sum_inj:
  assumes "0 \<le> v" "v < bound" "0 \<le> w" "w < bound"
    and "sum_from step skip i data v = sum_from step skip i data w"
  shows "v = w"
  using assms
proof (induction data arbitrary: i v w)
  case Nil
  then show ?case by simp
next
  case (Cons b data)
  show ?case
  proof (cases "skip i")
    case True
    with Cons.prems show ?thesis by (intro Cons.IH [of v w "Suc i"]) simp_all
  next
    case False
    have rv: "0 \<le> step v b" "step v b < bound" and rw: "0 \<le> step w b" "step w b < bound"
      using Cons.prems(1-4) step_range by simp_all
    have "sum_from step skip (Suc i) data (step v b) = sum_from step skip (Suc i) data (step w b)"
      using False Cons.prems(5) by simp
    then have "step v b = step w b" by (rule Cons.IH [OF rv rw])
    then show ?thesis by (rule step_inj_sum [OF Cons.prems(1-4)])
  qed
qed

text \<open>A single changed byte at a summed position is always detected.\<close>

lemma detects_single_byte:
  assumes "\<not> skip (i + length xs)" "b \<noteq> c" "0 \<le> v" "v < bound"
  shows "sum_from step skip i (xs @ b # ys) v \<noteq> sum_from step skip i (xs @ c # ys) v"
proof
  let ?v = "sum_from step skip i xs v"
  assume eq: "sum_from step skip i (xs @ b # ys) v = sum_from step skip i (xs @ c # ys) v"
  have v: "0 \<le> ?v \<and> ?v < bound" using assms by (intro sum_range)
  have "sum_from step skip (Suc (i + length xs)) ys (step ?v b) =
      sum_from step skip (Suc (i + length xs)) ys (step ?v c)"
    using eq assms(1) by (simp add: sum_from_append)
  then have "step ?v b = step ?v c"
    by (rule sum_inj [rotated 4]) (use v step_range in simp_all)
  with v assms(2) show False using step_inj_byte by blast
qed

end

lemma byte_range [simp]: "0 \<le> uint (b :: byte)" "uint (b :: byte) < 256" "uint (b :: byte) \<le> 255"
  using uint_lt2p [of b] by auto

lemma mod_add_cancel:
  fixes a b c m :: int
  assumes "(a + c) mod m = (b + c) mod m" "0 \<le> a" "a < m" "0 \<le> b" "b < m"
  shows "a = b"
proof -
  have "(a + c - c) mod m = (b + c - c) mod m"
    using assms(1) by (rule mod_diff_cong) simp
  with assms show ?thesis by simp
qed

lemma halves_inj:
  fixes v w :: int
  assumes "0 \<le> v" "v < 2 * h" "0 \<le> w" "w < 2 * h" and "halves h v = halves h w"
  shows "v = w"
proof -
  have lt: "v div 2 < h" "w div 2 < h" "0 \<le> v div 2" "0 \<le> w div 2" using assms(1-4) by auto
  have eq: "v div 2 + h * (v mod 2) = w div 2 + h * (w mod 2)"
    using assms(5) by (simp add: halves_def)
  have "v mod 2 = w mod 2"
  proof (rule ccontr)
    assume "v mod 2 \<noteq> w mod 2"
    then consider "v mod 2 = 0" "w mod 2 = 1" | "v mod 2 = 1" "w mod 2 = 0" by linarith
    then show False using eq lt by cases auto
  qed
  with eq show ?thesis by (metis add_right_cancel mult_div_mod_eq)
qed

lemma halves_range:
  fixes v :: int
  assumes "0 \<le> v" "v < 2 * h"
  shows "0 \<le> halves h v" "halves h v < 2 * h"
proof -
  have lt: "v div 2 < h" "0 \<le> v div 2" "0 < h" using assms by auto
  consider "v mod 2 = 0" | "v mod 2 = 1" by linarith
  then show "0 \<le> halves h v" "halves h v < 2 * h"
    using lt by (cases; simp add: halves_def)+
qed

lemma rot32_inj_sum:
  assumes "0 \<le> v" "v < 4294967296" "0 \<le> w" "w < 4294967296" "rot32 v b = rot32 w b"
  shows "v = w"
proof -
  have r: "0 \<le> halves 2147483648 v" "halves 2147483648 v < 4294967296" "0 \<le> halves 2147483648 w" "halves 2147483648 w < 4294967296"
    using halves_range [of v 2147483648] halves_range [of w 2147483648] assms(1-4) by simp_all
  have "(halves 2147483648 v + uint b) mod 4294967296 = (halves 2147483648 w + uint b) mod 4294967296"
    using assms by (simp add: rot32_arith)
  then have "halves 2147483648 v = halves 2147483648 w" using r by (rule mod_add_cancel)
  then show ?thesis using assms(1-4) by (intro halves_inj [of v 2147483648 w]) simp_all
qed

lemma rot32_inj_byte:
  assumes "0 \<le> v" "v < 4294967296" "rot32 v b = rot32 v c"
  shows "b = c"
proof -
  have "(uint b + halves 2147483648 v) mod 4294967296 = (uint c + halves 2147483648 v) mod 4294967296"
    using assms by (simp add: rot32_arith add.commute)
  then have "uint b = uint c"
    by (rule mod_add_cancel) (use byte_range [of b] byte_range [of c] in linarith)+
  then show ?thesis by (simp only: word_uint_eq_iff)
qed

interpretation sum32: rotating_checksum rot32 4294967296
proof
  fix v w :: int and b c :: byte
  assume v: "0 \<le> v" "v < 4294967296"
  show "0 \<le> rot32 v b \<and> rot32 v b < 4294967296" using v by (simp add: rot32_arith)
  show "b = c" if "rot32 v b = rot32 v c" using v that by (rule rot32_inj_byte)
  assume w: "0 \<le> w" "w < 4294967296" "rot32 v b = rot32 w b"
  show "v = w" using v w by (rule rot32_inj_sum)
qed simp

lemma rot16_inj_sum:
  assumes "0 \<le> v" "v < 65536" "0 \<le> w" "w < 65536" "rot16 v b = rot16 w b"
  shows "v = w"
proof -
  have r: "0 \<le> halves 32768 v" "halves 32768 v < 65536" "0 \<le> halves 32768 w" "halves 32768 w < 65536"
    using halves_range [of v 32768] halves_range [of w 32768] assms(1-4) by simp_all
  have "(halves 32768 v + uint b) mod 65536 = (halves 32768 w + uint b) mod 65536"
    using assms by (simp add: rot16_arith)
  then have "halves 32768 v = halves 32768 w" using r by (rule mod_add_cancel)
  then show ?thesis using assms(1-4) by (intro halves_inj [of v 32768 w]) simp_all
qed

lemma rot16_inj_byte:
  assumes "0 \<le> v" "v < 65536" "rot16 v b = rot16 v c"
  shows "b = c"
proof -
  have "(uint b + halves 32768 v) mod 65536 = (uint c + halves 32768 v) mod 65536"
    using assms by (simp add: rot16_arith add.commute)
  then have "uint b = uint c"
    by (rule mod_add_cancel) (use byte_range [of b] byte_range [of c] in linarith)+
  then show ?thesis by (simp only: word_uint_eq_iff)
qed

interpretation sum16: rotating_checksum rot16 65536
proof
  fix v w :: int and b c :: byte
  assume v: "0 \<le> v" "v < 65536"
  show "0 \<le> rot16 v b \<and> rot16 v b < 65536" using v by (simp add: rot16_arith)
  show "b = c" if "rot16 v b = rot16 v c" using v that by (rule rot16_inj_byte)
  assume w: "0 \<le> w" "w < 65536" "rot16 v b = rot16 w b"
  show "v = w" using v w by (rule rot16_inj_sum)
qed simp

section \<open>The code's sums as members of the family\<close>

lemma boot_checksum_sum:
  "boot_checksum boot = sum_from rot32 (\<lambda>i. i \<in> {106, 107, 112}) 0 (take 5632 boot) 0"
  by (simp add: boot_checksum_def sum_from_def)

lemma fold_step_sum: "fold (\<lambda>b v. step v b) data v = sum_from step (\<lambda>_. False) i data v"
  by (induction data arbitrary: i v) simp_all

lemma rotate_checksum_sum: "rotate_checksum data = sum_from rot32 (\<lambda>_. False) 0 data 0"
  by (simp add: rotate_checksum_def fold_step_sum)

lemma entry_checksum_sum: "entry_checksum data = sum_from rot16 (\<lambda>i. i \<in> {2, 3}) 0 data 0"
proof -
  have "(\<lambda>(i, b) v. if i < 32 \<and> i \<in> {2, 3 :: nat} then v else rot16 v b) =
      (\<lambda>(i, b) v. if i \<in> {2, 3} then v else rot16 v b)"
    by (auto simp: fun_eq_iff)
  then show ?thesis by (simp only: entry_checksum_def sum_from_def)
qed

lemma boot_checksum_range: "0 \<le> boot_checksum boot \<and> boot_checksum boot < 4294967296"
  using sum32.sum_range [of 0] by (simp add: boot_checksum_sum)

lemma rotate_checksum_range: "0 \<le> rotate_checksum data \<and> rotate_checksum data < 4294967296"
  using sum32.sum_range [of 0] by (simp add: rotate_checksum_sum)

lemma entry_checksum_range: "0 \<le> entry_checksum data \<and> entry_checksum data < 65536"
  using sum16.sum_range [of 0] by (simp add: entry_checksum_sum)

text \<open>
  The checksum field of an entry set lies at the two skipped positions, so storing the
  sum does not change it.
\<close>

lemma entry_checksum_stored:
  assumes "length d = 2" "4 \<le> length raw"
  shows "entry_checksum (splice 2 d raw) = entry_checksum raw"
proof -
  obtain a b where d: "d = [a, b]" using assms(1) by (auto simp: length_Suc_conv numeral_2_eq_2)
  obtain r0 r1 r2 r3 rest where "raw = r0 # r1 # r2 # r3 # rest"
    using assms(2) by (auto simp: Suc_le_length_iff eval_nat_numeral)
  with d show ?thesis by (simp add: entry_checksum_sum splice_def)
qed

lemma entry_checksum_detects:
  assumes "length xs \<noteq> 2" "length xs \<noteq> 3" "b \<noteq> c"
  shows "entry_checksum (xs @ b # ys) \<noteq> entry_checksum (xs @ c # ys)"
  using sum16.detects_single_byte [of "\<lambda>i. i \<in> {2, 3}" 0 xs b c 0 ys] assms
  by (simp add: entry_checksum_sum)

lemma boot_checksum_detects:
  assumes "length xs \<notin> {106, 107, 112}" "length xs < 5632" "b \<noteq> c"
  shows "boot_checksum (xs @ b # ys) \<noteq> boot_checksum (xs @ c # ys)"
proof -
  have "take 5632 (xs @ x # ys) = xs @ x # take (5631 - length xs) ys" for x
    using assms(2) by (simp add: take_Cons' )
  then show ?thesis
    using sum32.detects_single_byte [of "\<lambda>i. i \<in> {106, 107, 112}" 0 xs b c 0] assms
    by (simp add: boot_checksum_sum)
qed

lemma name_hash_from_range:
  "name_hash_from up enc v = Inr h \<Longrightarrow> 0 \<le> v \<Longrightarrow> v < 65536 \<Longrightarrow> 0 \<le> h \<and> h < 65536"
proof (induction up enc v rule: name_hash_from.induct)
  case (3 up b0 b1 rest v)
  then obtain bs where bs: "pack 2 (up (le_val [b0, b1])) = Inr bs"
    and h: "name_hash_from up rest (fold (\<lambda>b v. rot16 v b) bs v) = Inr h"
    by (auto simp: rbind_Inr_iff)
  have "fold (\<lambda>b v. rot16 v b) bs v = sum_from rot16 (\<lambda>_. False) 0 bs v"
    by (rule fold_step_sum)
  then have "0 \<le> fold (\<lambda>b v. rot16 v b) bs v \<and> fold (\<lambda>b v. rot16 v b) bs v < 65536"
    using sum16.sum_range [of v] 3 by simp
  with 3(1) [OF h] show ?case by simp
qed auto

end
