(* ===== verification/Timestamp.thy ===== *)
theory Timestamp
  imports Consts
begin

unbundle bit_operations_syntax

text \<open>
  \<open>_exfat_timestamp\<close> of \<open>exfat_builder.py\<close> and the parts of Python's \<open>calendar\<close>
  and \<open>datetime\<close> it uses: \<open>timegm\<close> (broken-down UTC time to seconds) and
  \<open>fromtimestamp\<close> with \<open>datetime.UTC\<close> (seconds to broken-down time), both on the
  proleptic Gregorian calendar.
\<close>

section \<open>The calendar\<close>

definition is_leap :: "int \<Rightarrow> bool" where
  "is_leap y \<longleftrightarrow> y mod 4 = 0 \<and> (y mod 100 \<noteq> 0 \<or> y mod 400 = 0)"

definition days_in_year :: "int \<Rightarrow> int" where
  "days_in_year y = (if is_leap y then 366 else 365)"

definition days_in_month :: "int \<Rightarrow> int \<Rightarrow> int" where
  "days_in_month y m =
     (if m = 2 then (if is_leap y then 29 else 28)
      else if m \<in> {4, 6, 9, 11} then 30 else 31)"

function days_between :: "int \<Rightarrow> int \<Rightarrow> int" where
  \<comment> \<open>days from 1 January of \<open>y0\<close> to 1 January of \<open>y\<close>\<close>
  "days_between y0 y = (if y0 < y then days_in_year y0 + days_between (y0 + 1) y else 0)"
  by pat_completeness auto
termination by (relation "measure (\<lambda>(y0, y). nat (y - y0))") auto

function days_before_month :: "int \<Rightarrow> int \<Rightarrow> int \<Rightarrow> int" where
  \<comment> \<open>days of year \<open>y\<close> from the first of month \<open>m0\<close> to the first of month \<open>m\<close>\<close>
  "days_before_month y m0 m =
     (if m0 < m then days_in_month y m0 + days_before_month y (m0 + 1) m else 0)"
  by pat_completeness auto
termination by (relation "measure (\<lambda>(y, m0, m). nat (m - m0))") auto

definition timegm :: "int \<Rightarrow> int \<Rightarrow> int \<Rightarrow> int \<Rightarrow> int \<Rightarrow> int \<Rightarrow> int" where
  "timegm y m d hour minute second =
     (((days_between 1970 y + days_before_month y 1 m + d - 1) * 24 + hour) * 60 + minute) * 60
       + second"

function find_year :: "int \<Rightarrow> int \<Rightarrow> int \<times> int" where
  \<comment> \<open>year and zero-based day of the year, \<open>n\<close> days after 1 January of \<open>y\<close>\<close>
  "find_year y n = (if n < days_in_year y then (y, n) else find_year (y + 1) (n - days_in_year y))"
  by pat_completeness auto
termination
  by (relation "measure (\<lambda>(y, n). nat n)") (auto simp: days_in_year_def split: if_splits)

function find_month :: "int \<Rightarrow> int \<Rightarrow> int \<Rightarrow> int \<times> int" where
  \<comment> \<open>month and one-based day of the month, \<open>n\<close> days after the first of month \<open>m\<close>\<close>
  "find_month y m n =
     (if 12 \<le> m \<or> n < days_in_month y m then (m, n + 1)
      else find_month y (m + 1) (n - days_in_month y m))"
  by pat_completeness auto
termination by (relation "measure (\<lambda>(y, m, n). nat (12 - m))") auto

declare days_between.simps [simp del] days_before_month.simps [simp del]
  find_year.simps [simp del] find_month.simps [simp del]

record datetime =
  dt_year :: int
  dt_month :: int
  dt_day :: int
  dt_hour :: int
  dt_minute :: int
  dt_second :: int

definition fromtimestamp :: "int \<Rightarrow> datetime" where
  "fromtimestamp seconds =
     (let days = seconds div 86400; rest = seconds mod 86400;
          (y, n) = find_year 1970 days; (m, d) = find_month y 1 n
      in \<lparr>dt_year = y, dt_month = m, dt_day = d,
          dt_hour = rest div 3600, dt_minute = rest div 60 mod 60, dt_second = rest mod 60\<rparr>)"

section \<open>The encoder\<close>

definition EXFAT_MIN_TIMESTAMP_SECONDS :: int where
  "EXFAT_MIN_TIMESTAMP_SECONDS = timegm 1980 1 1 0 0 0"

definition EXFAT_MAX_TIMESTAMP_SECONDS :: int where
  "EXFAT_MAX_TIMESTAMP_SECONDS = timegm 2107 12 31 23 59 59"

definition exfat_timestamp :: "int \<Rightarrow> int \<times> int \<times> int" where
  "exfat_timestamp timestamp_ns =
     (let seconds = timestamp_ns div 1000000000; nanoseconds = timestamp_ns mod 1000000000;
          (seconds, nanoseconds) =
            (if seconds < EXFAT_MIN_TIMESTAMP_SECONDS then (EXFAT_MIN_TIMESTAMP_SECONDS, 0)
             else if seconds > EXFAT_MAX_TIMESTAMP_SECONDS
               then (EXFAT_MAX_TIMESTAMP_SECONDS, 999000000)
             else (seconds, nanoseconds));
          timestamp = fromtimestamp seconds;
          date = push_bit 9 (dt_year timestamp - 1980) OR push_bit 5 (dt_month timestamp)
            OR dt_day timestamp;
          time = push_bit 11 (dt_hour timestamp) OR push_bit 5 (dt_minute timestamp)
            OR dt_second timestamp div 2;
          increment = dt_second timestamp mod 2 * 100 + nanoseconds div 10000000
      in (date, time, increment))"

section \<open>Seconds and dates are inverse\<close>

lemma days_between_end [simp]: "y \<le> y0 \<Longrightarrow> days_between y0 y = 0"
  by (simp add: days_between.simps)

lemma days_before_month_end [simp]: "m \<le> m0 \<Longrightarrow> days_before_month y m0 m = 0"
  by (simp add: days_before_month.simps)

lemma find_year_spec:
  assumes "0 \<le> n" "find_year y n = (y', n')"
  shows "y \<le> y' \<and> 0 \<le> n' \<and> n' < days_in_year y' \<and> n = days_between y y' + n'"
  using assms
proof (induction y n rule: find_year.induct)
  case (1 y n)
  show ?case
  proof (cases "n < days_in_year y")
    case True
    with 1(2,3) show ?thesis by (auto simp: find_year.simps [of y n])
  next
    case False
    then have "find_year (y + 1) (n - days_in_year y) = (y', n')"
      using 1(3) by (simp add: find_year.simps [of y n])
    with 1(1) [OF False] False have
      "y + 1 \<le> y' \<and> 0 \<le> n' \<and> n' < days_in_year y' \<and>
        n - days_in_year y = days_between (y + 1) y' + n'"
      by simp
    then show ?thesis by (simp add: days_between.simps [of y y'])
  qed
qed

lemma find_month_spec:
  assumes "0 \<le> n" "1 \<le> m" "m \<le> 12" "n < days_before_month y m 13" "find_month y m n = (m', d)"
  shows "m \<le> m' \<and> m' \<le> 12 \<and> 1 \<le> d \<and> d \<le> days_in_month y m' \<and>
    n = days_before_month y m m' + d - 1"
  using assms
proof (induction y m n rule: find_month.induct)
  case (1 y m n)
  have step: "days_before_month y m 13 = days_in_month y m + days_before_month y (m + 1) 13"
    using 1(4) by (simp add: days_before_month.simps [of y m 13])
  show ?case
  proof (cases "12 \<le> m \<or> n < days_in_month y m")
    case True
    then have "m' = m" "d = n + 1" using 1(6) by (auto simp: find_month.simps [of y m n])
    moreover have "n < days_in_month y m"
      using True
    proof
      assume "12 \<le> m"
      then show ?thesis using 1(4,5) step by simp
    qed
    ultimately show ?thesis using 1(2-4) by simp
  next
    case False
    then have "find_month y (m + 1) (n - days_in_month y m) = (m', d)"
      using 1(6) by (simp add: find_month.simps [of y m n])
    with 1(1) [OF False] False step 1(3,5) have
      "m + 1 \<le> m' \<and> m' \<le> 12 \<and> 1 \<le> d \<and> d \<le> days_in_month y m' \<and>
        n - days_in_month y m = days_before_month y (m + 1) m' + d - 1"
      by simp
    then show ?thesis by (simp add: days_before_month.simps [of y m m'])
  qed
qed

lemma days_before_month_13: "days_before_month y 1 13 = days_in_year y"
  by (simp add: days_before_month.simps days_in_month_def days_in_year_def)

lemma days_in_month_le: "days_in_month y m \<le> 31"
  by (simp add: days_in_month_def)

lemma fromtimestamp_fields:
  assumes "0 \<le> s"
  defines "t \<equiv> fromtimestamp s"
  shows "1970 \<le> dt_year t" "1 \<le> dt_month t" "dt_month t \<le> 12" "1 \<le> dt_day t" "dt_day t \<le> 31"
    and "0 \<le> dt_hour t" "dt_hour t < 24" "0 \<le> dt_minute t" "dt_minute t < 60"
    and "0 \<le> dt_second t" "dt_second t < 60"
    and "timegm (dt_year t) (dt_month t) (dt_day t) (dt_hour t) (dt_minute t) (dt_second t) = s"
    and "days_between 1970 (dt_year t) \<le> s div 86400"
    and "s div 86400 < days_between 1970 (dt_year t) + days_in_year (dt_year t)"
proof -
  obtain y n where yn: "find_year 1970 (s div 86400) = (y, n)" by fastforce
  obtain m d where md: "find_month y 1 n = (m, d)" by fastforce
  have t: "t = \<lparr>dt_year = y, dt_month = m, dt_day = d, dt_hour = s mod 86400 div 3600,
      dt_minute = s mod 86400 div 60 mod 60, dt_second = s mod 86400 mod 60\<rparr>"
    by (simp add: t_def fromtimestamp_def yn md Let_def)
  have "0 \<le> s div 86400" using assms by simp
  note y = find_year_spec [OF this yn]
  then have "n < days_before_month y 1 13" by (simp add: days_before_month_13)
  with y md have m: "1 \<le> m \<and> m \<le> 12 \<and> 1 \<le> d \<and> d \<le> days_in_month y m \<and>
      n = days_before_month y 1 m + d - 1"
    using find_month_spec [of n 1 y m d] by simp
  show "1970 \<le> dt_year t" "1 \<le> dt_month t" "dt_month t \<le> 12" "1 \<le> dt_day t" "dt_day t \<le> 31"
    and "days_between 1970 (dt_year t) \<le> s div 86400"
    and "s div 86400 < days_between 1970 (dt_year t) + days_in_year (dt_year t)"
    using y m days_in_month_le [of y m] by (simp_all add: t)
  have split: "(x div 3600 * 60 + x div 60 mod 60) * 60 + x mod 60 = x" for x :: int
  proof -
    have "x div 3600 = x div 60 div 60" using zdiv_zmult2_eq [of 60 x 60] by simp
    then have "x div 3600 * 60 + x div 60 mod 60 = x div 60" by simp
    then show ?thesis by simp
  qed
  have h: "s mod 86400 div 3600 < 24" by (simp add: int_div_less_iff)
  show "0 \<le> dt_hour t" "dt_hour t < 24" "0 \<le> dt_minute t" "dt_minute t < 60"
    "0 \<le> dt_second t" "dt_second t < 60"
    using h by (simp_all add: t pos_imp_zdiv_nonneg_iff)
  have days: "days_between 1970 y + n = s div 86400" using y by simp
  have "timegm (dt_year t) (dt_month t) (dt_day t) (dt_hour t) (dt_minute t) (dt_second t) =
      (days_between 1970 y + n) * 86400 +
      ((s mod 86400 div 3600 * 60 + s mod 86400 div 60 mod 60) * 60 + s mod 86400 mod 60)"
    using m by (simp add: t timegm_def algebra_simps)
  also have "\<dots> = s" by (simp only: split days div_mult_mod_eq)
  finally show "timegm (dt_year t) (dt_month t) (dt_day t) (dt_hour t) (dt_minute t) (dt_second t) = s" .
qed


lemma days_between_add:
  "y0 \<le> y1 \<Longrightarrow> y1 \<le> y2 \<Longrightarrow> days_between y0 y2 = days_between y0 y1 + days_between y1 y2"
proof (induction y0 y2 rule: days_between.induct)
  case (1 y0 y2)
  then show ?case
    by (cases "y0 = y1") (simp_all add: days_between.simps [of y0 y2] days_between.simps [of y0 y1])
qed

lemma days_between_nonneg: "0 \<le> days_between y0 y"
  by (induction y0 y rule: days_between.induct)
    (subst days_between.simps, simp add: days_in_year_def)

lemma days_between_mono: "y0 \<le> y1 \<Longrightarrow> y1 \<le> y2 \<Longrightarrow> days_between y0 y1 \<le> days_between y0 y2"
  using days_between_add [of y0 y1 y2] days_between_nonneg [of y1 y2] by simp

lemma days_to_1980: "days_between 1970 1980 = 3652"
  by code_simp

lemma days_to_2108: "days_between 1970 2108 = 50403"
  by code_simp

lemma min_seconds: "EXFAT_MIN_TIMESTAMP_SECONDS = 315532800"
  unfolding EXFAT_MIN_TIMESTAMP_SECONDS_def by code_simp

lemma max_seconds: "EXFAT_MAX_TIMESTAMP_SECONDS = 4354819199"
  unfolding EXFAT_MAX_TIMESTAMP_SECONDS_def by code_simp

lemma fromtimestamp_year_range:
  assumes "EXFAT_MIN_TIMESTAMP_SECONDS \<le> s" "s \<le> EXFAT_MAX_TIMESTAMP_SECONDS"
  shows "1980 \<le> dt_year (fromtimestamp s)" "dt_year (fromtimestamp s) \<le> 2107"
proof -
  let ?y = "dt_year (fromtimestamp s)"
  have s: "0 \<le> s" "3652 \<le> s div 86400" "s div 86400 < 50403"
    using assms by (simp_all add: min_seconds max_seconds int_div_less_iff)
  note f = fromtimestamp_fields [OF s(1)]
  show "1980 \<le> ?y"
  proof (rule ccontr)
    assume "\<not> 1980 \<le> ?y"
    then have "days_between 1970 (?y + 1) \<le> 3652"
      using f(1) days_between_mono [of 1970 "?y + 1" 1980] by (simp add: days_to_1980)
    moreover have "days_between 1970 (?y + 1) = days_between 1970 ?y + days_in_year ?y"
      using f(1) days_between_add [of 1970 ?y "?y + 1"] by (simp add: days_between.simps [of ?y])
    ultimately show False using f(14) s by simp
  qed
  show "?y \<le> 2107"
  proof (rule ccontr)
    assume "\<not> ?y \<le> 2107"
    then have "50403 \<le> days_between 1970 ?y"
      using days_between_mono [of 1970 2108 ?y] by (simp add: days_to_2108)
    then show False using f(13) s by simp
  qed
qed

section \<open>The packed fields\<close>

lemma push_or_sum:
  fixes hi lo :: int
  assumes "0 \<le> lo" "lo < 2 ^ n"
  shows "push_bit n hi OR lo = 2 ^ n * hi + lo"
proof -
  have "take_bit n lo = lo" using assms by (simp add: take_bit_int_eq_self_iff)
  then have "push_bit n hi OR lo = concat_bit n lo hi" by (simp add: concat_bit_def or.commute)
  also have "\<dots> = lo + push_bit n hi" using \<open>take_bit n lo = lo\<close> by (simp add: concat_bit_eq)
  finally show ?thesis by (simp add: push_bit_eq_mult mult.commute)
qed

lemma pack_three:
  fixes a b c :: int
  assumes "0 \<le> b" "b < 2 ^ k" "0 \<le> c" "c < 32"
  shows "push_bit (5 + k) a OR push_bit 5 b OR c = 32 * (2 ^ k * a + b) + c"
proof -
  have "push_bit (5 + k) a OR push_bit 5 b = push_bit 5 (push_bit k a OR b)"
    by (simp add: push_bit_or)
  moreover have "push_bit 5 (push_bit k a OR b) OR c = 32 * (push_bit k a OR b) + c"
    using push_or_sum [of c 5 "push_bit k a OR b"] assms by simp
  ultimately show ?thesis using push_or_sum [of b k a] assms by (simp flip: or.assoc)
qed

lemma unpack_three:
  fixes a b c k :: int
  assumes "0 \<le> b" "b < k" "0 \<le> c" "c < 32"
  defines "v \<equiv> 32 * (k * a + b) + c"
  shows "v div (32 * k) = a" "v div 32 mod k = b" "v mod 32 = c"
proof -
  have "v = c + (k * a + b) * 32" by (simp add: v_def)
  then have v: "v div 32 = k * a + b" "v mod 32 = c"
    using assms(3,4) by (simp_all only: div_mult_self1 mod_mult_self1) simp_all
  moreover have "(k * a + b) div k = a" "(k * a + b) mod k = b" using assms by simp_all
  moreover have "v div (32 * k) = v div 32 div k" using assms by (intro zdiv_zmult2_eq) simp
  ultimately show "v div (32 * k) = a" "v div 32 mod k = b" "v mod 32 = c" by simp_all
qed

text \<open>
  A reader's view of an exFAT timestamp: the number of 10 ms units since 1970 that the
  date, time and increment fields denote.
\<close>

definition exfat_time_units :: "int \<times> int \<times> int \<Rightarrow> int" where
  "exfat_time_units = (\<lambda>(date, time, increment).
     timegm (1980 + date div 512) (date div 32 mod 16) (date mod 32)
       (time div 2048) (time div 32 mod 64) (time mod 32 * 2) * 100 + increment)"

definition clamp_units :: "int \<Rightarrow> int" where
  "clamp_units timestamp_ns =
     (if timestamp_ns div 1000000000 < EXFAT_MIN_TIMESTAMP_SECONDS
        then EXFAT_MIN_TIMESTAMP_SECONDS * 100
      else if timestamp_ns div 1000000000 > EXFAT_MAX_TIMESTAMP_SECONDS
        then EXFAT_MAX_TIMESTAMP_SECONDS * 100 + 99
      else timestamp_ns div 10000000)"

lemma timegm_seconds: "timegm y m d h mi (s + k) = timegm y m d h mi s + k"
  by (simp add: timegm_def)

lemma sub_second:
  "(ns :: int) div 10000000 = ns div 1000000000 * 100 + ns mod 1000000000 div 10000000"
proof -
  have "ns div 10000000 = (ns div 1000000000 * 100 * 10000000 + ns mod 1000000000) div 10000000"
    by simp
  also have "\<dots> = ns div 1000000000 * 100 + ns mod 1000000000 div 10000000"
    by (simp only: div_mult_self3 [of "10000000 :: int"])
  finally show ?thesis .
qed

lemma exfat_timestamp_fields:
  assumes ts: "exfat_timestamp ns = (date, time, inc)"
  shows "exfat_time_units (date, time, inc) = clamp_units ns"
    and "0 \<le> date" "date < 65536" "0 \<le> time" "time < 65536" "0 \<le> inc" "inc < 200"
proof -
  define sn where "sn = (if ns div 1000000000 < EXFAT_MIN_TIMESTAMP_SECONDS
        then (EXFAT_MIN_TIMESTAMP_SECONDS, 0)
      else if ns div 1000000000 > EXFAT_MAX_TIMESTAMP_SECONDS
        then (EXFAT_MAX_TIMESTAMP_SECONDS, 999000000)
      else (ns div 1000000000, ns mod 1000000000))"
  obtain s n where sn': "sn = (s, n)" by fastforce
  have s: "EXFAT_MIN_TIMESTAMP_SECONDS \<le> s" "s \<le> EXFAT_MAX_TIMESTAMP_SECONDS"
    and n: "0 \<le> n" "n < 1000000000"
    using sn' by (auto simp: sn_def min_seconds max_seconds split: if_splits)
  have order: "EXFAT_MIN_TIMESTAMP_SECONDS < EXFAT_MAX_TIMESTAMP_SECONDS"
    by (simp add: min_seconds max_seconds)
  consider (low) "ns div 1000000000 < EXFAT_MIN_TIMESTAMP_SECONDS"
    | (high) "\<not> ns div 1000000000 < EXFAT_MIN_TIMESTAMP_SECONDS"
        "EXFAT_MAX_TIMESTAMP_SECONDS < ns div 1000000000"
    | (inside) "\<not> ns div 1000000000 < EXFAT_MIN_TIMESTAMP_SECONDS"
        "\<not> EXFAT_MAX_TIMESTAMP_SECONDS < ns div 1000000000"
    by blast
  then have cl: "clamp_units ns = s * 100 + n div 10000000"
  proof cases
    case low
    then show ?thesis using sn' by (auto simp only: sn_def clamp_units_def if_True prod.inject)
  next
    case high
    then show ?thesis using sn' by (auto simp only: sn_def clamp_units_def if_True if_False prod.inject)
  next
    case inside
    then have "s = ns div 1000000000" "n = ns mod 1000000000"
      using sn' by (auto simp only: sn_def if_False prod.inject)
    then show ?thesis using inside by (simp only: clamp_units_def if_False sub_second [of ns])
  qed
  define t where "t = fromtimestamp s"
  have "0 \<le> s" using s by (simp add: min_seconds)
  note f = fromtimestamp_fields [OF this, folded t_def]
  note yr = fromtimestamp_year_range [OF s, folded t_def]
  have fields: "date = push_bit 9 (dt_year t - 1980) OR push_bit 5 (dt_month t) OR dt_day t"
    "time = push_bit 11 (dt_hour t) OR push_bit 5 (dt_minute t) OR dt_second t div 2"
    and inc: "inc = dt_second t mod 2 * 100 + n div 10000000"
    using ts unfolding exfat_timestamp_def Let_def sn_def [symmetric] sn' prod.case t_def [symmetric]
    by simp_all
  have date: "date = 32 * (16 * (dt_year t - 1980) + dt_month t) + dt_day t"
    using fields pack_three [of "dt_month t" 4 "dt_day t" "dt_year t - 1980"] f by simp
  have sec: "0 \<le> dt_second t div 2" "dt_second t div 2 < 32"
    using f(10,11) by (simp_all add: pos_imp_zdiv_nonneg_iff int_div_less_iff)
  then have time: "time = 32 * (64 * dt_hour t + dt_minute t) + dt_second t div 2"
    using fields pack_three [of "dt_minute t" 6 "dt_second t div 2" "dt_hour t"] f by simp
  have n': "0 \<le> n div 10000000" "n div 10000000 < 100"
    using n by (simp_all add: int_div_less_iff pos_imp_zdiv_nonneg_iff)
  have "0 \<le> 16 * (dt_year t - 1980) + dt_month t" using f(2) yr(1) by simp
  then show "0 \<le> date" using date f(4) by simp
  have "16 * (dt_year t - 1980) + dt_month t \<le> 2044" using f(3) yr(2) by simp
  then show "date < 65536" using date f(5) by simp
  show "0 \<le> time" using time f(6,8) sec(1) by simp
  have "64 * dt_hour t + dt_minute t \<le> 1531" using f(7,9) by simp
  then show "time < 65536" using time sec(2) by simp
  show "0 \<le> inc" using inc n'(1) by simp
  show "inc < 200" using inc n'(2) by linarith
  note ud = unpack_three [of "dt_month t" 16 "dt_day t" "dt_year t - 1980", folded date]
  have d: "date div 512 = dt_year t - 1980" "date div 32 mod 16 = dt_month t" "date mod 32 = dt_day t"
    using ud f(2-5) by simp_all
  note ut = unpack_three [of "dt_minute t" 64 "dt_second t div 2" "dt_hour t", folded time]
  have tm: "time div 2048 = dt_hour t" "time div 32 mod 64 = dt_minute t"
      "time mod 32 = dt_second t div 2"
    using ut f(8,9) sec by simp_all
  have "timegm (dt_year t) (dt_month t) (dt_day t) (dt_hour t) (dt_minute t)
      (dt_second t div 2 * 2 + dt_second t mod 2) = s"
    using f(12) by simp
  then have "timegm (dt_year t) (dt_month t) (dt_day t) (dt_hour t) (dt_minute t)
      (dt_second t div 2 * 2) = s - dt_second t mod 2"
    by (simp only: timegm_seconds)
  then show "exfat_time_units (date, time, inc) = clamp_units ns"
    by (simp add: exfat_time_units_def d tm inc cl)
qed

end
