(* ===== verification/Directory.thy ===== *)
theory Directory
  imports TreeWalk Checksum Timestamp
begin

text \<open>
  Directory contents of \<open>exfat_builder.py\<close>: the upcase table, the entry set of a file or
  directory, the bytes of a directory, and the number of clusters the allocator gives it.
  \<open>str.upper\<close> on one character is the parameter \<open>up\<close>, a function from a code point
  to a string.
\<close>

section \<open>Upcase table\<close>

definition simple_upper :: "(int \<Rightarrow> pystr) \<Rightarrow> int \<Rightarrow> int" where
  "simple_upper up codepoint =
     (let upper = up codepoint
      in if length upper = 1 \<and> hd upper \<le> 0xFFFF then hd upper else codepoint)"

definition upcase_table :: "(int \<Rightarrow> pystr) \<Rightarrow> bytes result" where
  "upcase_table up =
     rbind (mapr (\<lambda>codepoint. pack 2 (simple_upper up codepoint)) [0..65535]) (\<lambda>ds. Inr (concat ds))"

section \<open>Entry sets\<close>

definition put_timestamps :: "bytes \<Rightarrow> node_info \<Rightarrow> bytes result" where
  "put_timestamps primary i =
     (let (create_date, create_time, create_increment) = exfat_timestamp (n_created_ns i);
          (modified_date, modified_time, modified_increment) = exfat_timestamp (n_modified_ns i);
          (accessed_date, accessed_time, _) = exfat_timestamp (n_accessed_ns i)
      in rbind (pack_into 2 8 create_time primary) (\<lambda>primary.
         rbind (pack_into 2 10 create_date primary) (\<lambda>primary.
         rbind (pack_into 2 12 modified_time primary) (\<lambda>primary.
         rbind (pack_into 2 14 modified_date primary) (\<lambda>primary.
         rbind (pack_into 2 16 accessed_time primary) (\<lambda>primary.
         rbind (pack_into 2 18 accessed_date primary) (\<lambda>primary.
         rbind (set_byte 20 create_increment primary) (\<lambda>primary.
         rbind (set_byte 21 modified_increment primary) (\<lambda>primary.
         Inr (splice 22 [0x80, 0x80, 0x80] primary))))))))))"

definition data_length_of :: "node_info \<Rightarrow> int" where
  "data_length_of i =
     (if n_is_directory i then n_cluster_count i * CLUSTER_SIZE_BYTES else n_size_bytes i)"

definition primary_entry :: "node_info \<Rightarrow> int \<Rightarrow> bytes result" where
  "primary_entry i filename_count =
     (let primary = splice 0 [ENTRY_FILE] (replicate 32 0)
      in rbind (set_byte 1 (filename_count + 1) primary) (\<lambda>primary.
         rbind (pack_into 2 4 (if n_is_directory i then 0x10 else 0x20) primary) (\<lambda>primary.
         put_timestamps primary i)))"

definition stream_entry :: "(int \<Rightarrow> pystr) \<Rightarrow> node_info \<Rightarrow> bytes \<Rightarrow> int \<Rightarrow> bytes result" where
  "stream_entry up i encoded units =
     (let stream = splice 0 [ENTRY_STREAM] (replicate 32 0)
      in rbind (set_byte 3 units stream) (\<lambda>stream.
         rbind (name_hash (simple_upper up) encoded) (\<lambda>hash.
         rbind (pack_into 2 4 hash stream) (\<lambda>stream.
         (let stream = splice 1 [1] stream
          in rbind (pack_into 8 8 (data_length_of i) stream) (\<lambda>stream.
             rbind (pack_into 4 20 (n_first_cluster i) stream) (\<lambda>stream.
             pack_into 8 24 (data_length_of i) stream)))))))"

definition name_entries :: "bytes \<Rightarrow> bytes list" where
  "name_entries encoded =
     map (\<lambda>chunk. [ENTRY_FILENAME, 0] @ chunk)
       (let pieces = map (\<lambda>k. ljust 30 (slice (30 * k) 30 encoded)) [0..<(length encoded + 29) div 30]
        in if pieces = [] then [replicate 30 0] else pieces)"

definition file_entry_set :: "(int \<Rightarrow> pystr) \<Rightarrow> node_info \<Rightarrow> bytes list result" where
  "file_entry_set up i =
     rbind (utf16_le (n_name i)) (\<lambda>full.
     (let encoded = take (2 * 255) full;
          units = int (length encoded) div 2;
          filename_count = max 1 ((units + 14) div 15)
      in rbind (primary_entry i filename_count) (\<lambda>primary.
         rbind (stream_entry up i encoded units) (\<lambda>stream.
         (let rest = stream # name_entries encoded;
              raw = concat (primary # rest)
          in rbind (pack 2 (entry_checksum raw)) (\<lambda>checksum.
             Inr (splice 2 checksum primary # rest)))))))"

section \<open>Directories\<close>

definition entry_count :: "node \<Rightarrow> int result" where
  \<comment> \<open>the \<open>count\<close> of \<open>_directory_cluster_count\<close>\<close>
  "entry_count n =
     rbind (mapr (\<lambda>child. rbind (utf16_le (n_name (info child))) (\<lambda>e.
       Inr (1 + (int (length e) div 2 + 14) div 15))) (children n)) (\<lambda>cs.
     Inr ((if n_virtual_path (info n) = [] then 3 else 0) + 1 + sum_list cs))"

definition directory_cluster_count :: "node \<Rightarrow> int result" where
  "directory_cluster_count n =
     rbind (entry_count n) (\<lambda>count.
       Inr (max 1 ((count * 32 + CLUSTER_SIZE_BYTES - 1) div CLUSTER_SIZE_BYTES)))"

definition label_entry :: "pystr \<Rightarrow> bytes result" where
  "label_entry label =
     rbind (utf16_le label) (\<lambda>label.
     (let item = splice 0 [ENTRY_VOLUME_LABEL] (replicate 32 0)
      in rbind (set_byte 1 (min (int (length label) div 2) 11) item) (\<lambda>item.
         Inr (splice 2 (take 22 label) item))))"

definition bitmap_entry :: "int \<Rightarrow> int \<Rightarrow> bytes result" where
  "bitmap_entry bitmap_cluster bitmap_length =
     (let bitmap = splice 1 [0] (splice 0 [ENTRY_BITMAP] (replicate 32 0))
      in rbind (pack_into 4 20 bitmap_cluster bitmap) (\<lambda>bitmap.
         pack_into 8 24 bitmap_length bitmap))"

definition upcase_entry :: "(int \<Rightarrow> pystr) \<Rightarrow> int \<Rightarrow> int \<Rightarrow> bytes result" where
  "upcase_entry up upcase_cluster upcase_length =
     rbind (upcase_table up) (\<lambda>table.
     (let upcase = splice 0 [ENTRY_UPCASE] (replicate 32 0)
      in rbind (pack_into 4 4 (rotate_checksum table) upcase) (\<lambda>upcase.
         rbind (pack_into 4 20 upcase_cluster upcase) (\<lambda>upcase.
         pack_into 8 24 upcase_length upcase))))"

definition root_entries :: "(int \<Rightarrow> pystr) \<Rightarrow> pystr \<Rightarrow> int \<Rightarrow> int \<Rightarrow> int \<Rightarrow> int \<Rightarrow> bytes list result" where
  "root_entries up label bitmap_cluster bitmap_length upcase_cluster upcase_length =
     rbind (label_entry label) (\<lambda>item.
     rbind (bitmap_entry bitmap_cluster bitmap_length) (\<lambda>bitmap.
     rbind (upcase_entry up upcase_cluster upcase_length) (\<lambda>upcase.
     Inr [item, bitmap, upcase])))"

definition sorted_children :: "node \<Rightarrow> node list" where
  "sorted_children n = sort_key (\<lambda>c. n_name (info c)) (children n)"

definition directory_bytes :: "(int \<Rightarrow> pystr) \<Rightarrow> pystr \<Rightarrow> node \<Rightarrow> bool \<Rightarrow> int \<Rightarrow> int \<Rightarrow> int \<Rightarrow> int \<Rightarrow> bytes result" where
  "directory_bytes up label n is_root bitmap_cluster bitmap_length upcase_cluster upcase_length =
     rbind (if is_root then root_entries up label bitmap_cluster bitmap_length upcase_cluster upcase_length
            else Inr []) (\<lambda>system.
     rbind (mapr (\<lambda>child. file_entry_set up (info child)) (sorted_children n)) (\<lambda>sets.
     (let result = concat (system @ concat sets @ [replicate 32 0])
      in Inr (ljust (nat (max 32 ((int (length result) + CLUSTER_SIZE_BYTES - 1) div CLUSTER_SIZE_BYTES
                * CLUSTER_SIZE_BYTES))) result))))"

end
