(* ===== verification/Layout.thy ===== *)
theory Layout
  imports Consts Bytes
begin

text \<open>
  The data that \<open>exfat_builder.py\<close> hands to the sector mapper: \<open>FileMapping\<close>,
  \<open>VirtualEntry\<close> and \<open>ExfatLayout\<close>, with \<open>to_state\<close> and \<open>from_state\<close>. A
  \<open>dict\<close> is an association list in insertion order, updated with
  \<^const>\<open>AList.update\<close> and read with \<^const>\<open>map_of\<close>.
\<close>

record file_mapping =
  fm_start_cluster :: int
  fm_cluster_count :: int
  fm_source_path :: pystr
  fm_size_bytes :: int
  fm_virtual_path :: pystr

record virtual_entry =
  ve_virtual_path :: pystr
  ve_source_path :: pystr
  ve_name :: pystr
  ve_is_directory :: bool
  ve_size_bytes :: int
  ve_first_cluster :: int
  ve_cluster_count :: int
  ve_file_id :: int
  ve_parent_path :: pystr

type_synonym cluster_range = "int \<times> int"
type_synonym metadata = "(int \<times> bytes) list"

record exfat_layout =
  total_bytes :: int
  total_sectors :: int
  partition_start_lba :: int
  sectors_per_cluster :: int
  cluster_size_bytes :: int
  fat_offset :: int
  fat_length :: int
  cluster_heap_offset :: int
  cluster_count :: int
  root_dir_cluster :: int
  bitmap_cluster :: int
  bitmap_length :: int
  upcase_cluster :: int
  upcase_length :: int
  metadata :: metadata
  file_mappings :: "file_mapping list"
  entries :: "virtual_entry list"
  hot_ranges :: "cluster_range list"
  allocated_ranges :: "cluster_range list"

section \<open>Plain state\<close>

text \<open>The values of the \<open>dict[str, object]\<close> that is pickled.\<close>

datatype state_value =
    StInt int
  | StMetadata metadata
  | StMappings "file_mapping list"
  | StEntries "virtual_entry list"
  | StRanges "cluster_range list"

type_synonym layout_state = "(string \<times> state_value) list"

definition to_state :: "exfat_layout \<Rightarrow> layout_state" where
  "to_state l =
    [(''total_bytes'', StInt (total_bytes l)),
     (''total_sectors'', StInt (total_sectors l)),
     (''partition_start_lba'', StInt (partition_start_lba l)),
     (''sectors_per_cluster'', StInt (sectors_per_cluster l)),
     (''cluster_size_bytes'', StInt (cluster_size_bytes l)),
     (''fat_offset'', StInt (fat_offset l)),
     (''fat_length'', StInt (fat_length l)),
     (''cluster_heap_offset'', StInt (cluster_heap_offset l)),
     (''cluster_count'', StInt (cluster_count l)),
     (''root_dir_cluster'', StInt (root_dir_cluster l)),
     (''bitmap_cluster'', StInt (bitmap_cluster l)),
     (''bitmap_length'', StInt (bitmap_length l)),
     (''upcase_cluster'', StInt (upcase_cluster l)),
     (''upcase_length'', StInt (upcase_length l)),
     (''metadata'', StMetadata (metadata l)),
     (''file_mappings'', StMappings (file_mappings l)),
     (''entries'', StEntries (entries l)),
     (''hot_ranges'', StRanges (hot_ranges l)),
     (''allocated_ranges'', StRanges (allocated_ranges l))]"

text \<open>
  \<open>cls(**state)\<close>: a missing required keyword and an unknown keyword are
  \<open>TypeError\<close>; the fields with a default may be missing. A value of the wrong kind,
  which the typed record cannot hold, is a \<open>TypeError\<close> of the model.
\<close>

definition layout_keys :: "string list" where
  "layout_keys =
    [''total_bytes'', ''total_sectors'', ''partition_start_lba'', ''sectors_per_cluster'',
     ''cluster_size_bytes'', ''fat_offset'', ''fat_length'', ''cluster_heap_offset'',
     ''cluster_count'', ''root_dir_cluster'', ''bitmap_cluster'', ''bitmap_length'',
     ''upcase_cluster'', ''upcase_length'', ''metadata'', ''file_mappings'', ''entries'',
     ''hot_ranges'', ''allocated_ranges'']"

definition get_int :: "layout_state \<Rightarrow> string \<Rightarrow> int result" where
  "get_int st k = (case map_of st k of Some (StInt i) \<Rightarrow> Inr i | _ \<Rightarrow> Inl TypeError)"

definition get_ranges :: "layout_state \<Rightarrow> string \<Rightarrow> cluster_range list result" where
  "get_ranges st k =
    (case map_of st k of None \<Rightarrow> Inr [] | Some (StRanges r) \<Rightarrow> Inr r | _ \<Rightarrow> Inl TypeError)"

definition from_state :: "layout_state \<Rightarrow> exfat_layout result" where
  "from_state st =
    (if map_of st ''allocated_ranges'' = None
     then Inl (ValueError (lit ''mapper state lacks compact allocation ranges; rebuild required''))
     else if \<not> list_all (\<lambda>(k, _). k \<in> set layout_keys) st then Inl TypeError
     else
       rbind (mapr (get_int st) (take 14 layout_keys)) (\<lambda>is.
       rbind (case map_of st ''metadata'' of None \<Rightarrow> Inr [] | Some (StMetadata m) \<Rightarrow> Inr m
              | _ \<Rightarrow> Inl TypeError) (\<lambda>md.
       rbind (case map_of st ''file_mappings'' of None \<Rightarrow> Inr [] | Some (StMappings m) \<Rightarrow> Inr m
              | _ \<Rightarrow> Inl TypeError) (\<lambda>fm.
       rbind (case map_of st ''entries'' of None \<Rightarrow> Inr [] | Some (StEntries m) \<Rightarrow> Inr m
              | _ \<Rightarrow> Inl TypeError) (\<lambda>es.
       rbind (get_ranges st ''hot_ranges'') (\<lambda>hr.
       rbind (get_ranges st ''allocated_ranges'') (\<lambda>ar.
       Inr \<lparr>total_bytes = is ! 0, total_sectors = is ! 1, partition_start_lba = is ! 2,
         sectors_per_cluster = is ! 3, cluster_size_bytes = is ! 4, fat_offset = is ! 5,
         fat_length = is ! 6, cluster_heap_offset = is ! 7, cluster_count = is ! 8,
         root_dir_cluster = is ! 9, bitmap_cluster = is ! 10, bitmap_length = is ! 11,
         upcase_cluster = is ! 12, upcase_length = is ! 13, metadata = md, file_mappings = fm,
         entries = es, hot_ranges = hr, allocated_ranges = ar\<rparr>)))))))"

lemma map_of_to_state:
  "k \<in> set (take 14 layout_keys) \<Longrightarrow> \<exists>i. map_of (to_state l) k = Some (StInt i)"
  by (auto simp: layout_keys_def to_state_def)

lemma state_roundtrip: "from_state (to_state l) = Inr l"
  by (simp add: from_state_def to_state_def layout_keys_def get_int_def get_ranges_def)

end
