(* ===== verification/Builder.thy ===== *)
theory Builder
  imports Geometry Directory Layout Sha256
begin

unbundle bit_operations_syntax

text \<open>
  \<open>ExfatBuilder\<close>: cluster allocation, boot regions, the metadata dictionary and the layout
  that \<open>build\<close> returns. The source file systems (\<open>fs\<close>), Python's recursion limit and
  \<open>str.upper\<close> (\<open>up\<close>) are parameters.
\<close>

section \<open>Stable ids and records\<close>

definition stable_file_id :: "pystr \<Rightarrow> int result" where
  "stable_file_id virtual_path =
     rbind (utf8 virtual_path) (\<lambda>d. Inr (le_val (take 4 (sha256 d)) AND 0x7FFFFFFF))"

definition entry_record :: "node_info \<Rightarrow> pystr \<Rightarrow> virtual_entry result" where
  "entry_record i parent_path =
     rbind (stable_file_id (n_virtual_path i)) (\<lambda>file_id.
       Inr \<lparr>ve_virtual_path = n_virtual_path i, ve_source_path = n_source_path i, ve_name = n_name i,
            ve_is_directory = n_is_directory i, ve_size_bytes = n_size_bytes i,
            ve_first_cluster = n_first_cluster i, ve_cluster_count = n_cluster_count i,
            ve_file_id = file_id, ve_parent_path = parent_path\<rparr>)"

section \<open>Allocation\<close>

definition place_directory :: "node \<Rightarrow> int \<Rightarrow> (node_info \<times> int) result" where
  \<comment> \<open>the body of the first loop of \<open>build\<close>; the state is \<open>next_cluster\<close>\<close>
  "place_directory n next_cluster =
     (if n_is_directory (info n)
      then rbind (directory_cluster_count n) (\<lambda>k.
             Inr ((info n)\<lparr>n_cluster_count := k, n_first_cluster := next_cluster\<rparr>, next_cluster + k))
      else Inr ((info n)\<lparr>n_cluster_count := 0\<rparr>, next_cluster))"

definition mapping_of :: "node_info \<Rightarrow> file_mapping" where
  "mapping_of i =
     \<lparr>fm_start_cluster = n_first_cluster i, fm_cluster_count = n_cluster_count i,
      fm_source_path = n_source_path i, fm_size_bytes = n_size_bytes i,
      fm_virtual_path = n_virtual_path i\<rparr>"

definition place_file :: "node \<Rightarrow> int \<times> file_mapping list \<Rightarrow> (node_info \<times> int \<times> file_mapping list) result" where
  \<comment> \<open>the body of the second loop\<close>
  "place_file n = (\<lambda>(next_cluster, mappings).
     if n_is_directory (info n) then Inr (info n, next_cluster, mappings)
     else
       (let count = max 1 ((n_size_bytes (info n) + CLUSTER_SIZE_BYTES - 1) div CLUSTER_SIZE_BYTES);
            i = (info n)\<lparr>n_cluster_count := count, n_first_cluster := next_cluster\<rparr>
        in Inr (i, next_cluster + count, mappings @ [mapping_of i])))"

definition place_all :: "node \<Rightarrow> int \<Rightarrow> (node \<times> int \<times> file_mapping list) result" where
  "place_all root next_cluster =
     rbind (walk_update place_directory [root] next_cluster) (\<lambda>(roots, next_cluster).
     rbind (walk_update place_file roots (next_cluster, [])) (\<lambda>(roots, next_cluster, mappings).
     Inr (hd roots, next_cluster, mappings)))"

definition make_allocated_ranges ::
  "file_mapping list \<Rightarrow> node list \<Rightarrow> int \<Rightarrow> int \<Rightarrow> int \<Rightarrow> int \<Rightarrow> cluster_range list" where
  "make_allocated_ranges mappings roots bm_cluster bm_clusters uc_cluster uc_clusters =
     sort ([(bm_cluster, bm_clusters), (uc_cluster, uc_clusters)] @
       map (\<lambda>n. (n_first_cluster (info n), n_cluster_count (info n)))
         (filter (\<lambda>n. n_is_directory (info n)) (walk_static roots)) @
       map (\<lambda>m. (fm_start_cluster m, fm_cluster_count m)) mappings)"

section \<open>Metadata\<close>

definition put_sectors :: "metadata \<Rightarrow> int \<Rightarrow> bytes \<Rightarrow> int \<Rightarrow> metadata" where
  "put_sectors md start_sector data sector_count =
     fold (\<lambda>index md. AList.update (start_sector + index)
         (ljust 512 (slice (nat (index * SECTOR_SIZE)) 512 data)) md)
       [0..sector_count - 1] md"

definition put_cluster_bytes :: "metadata \<Rightarrow> int \<Rightarrow> int \<Rightarrow> bytes \<Rightarrow> metadata" where
  "put_cluster_bytes md heap_off cluster data =
     (let start = PARTITION_START_LBA + heap_off + (cluster - 2) * SECTORS_PER_CLUSTER;
          padded = ljust (nat (max SECTOR_SIZE
            ((int (length data) + SECTOR_SIZE - 1) div SECTOR_SIZE * SECTOR_SIZE))) data
      in put_sectors md start padded ((int (length padded) + SECTOR_SIZE - 1) div SECTOR_SIZE))"

definition boot_sectors :: "builder \<Rightarrow> int \<Rightarrow> int \<Rightarrow> int \<Rightarrow> int \<Rightarrow> int \<Rightarrow> bytes result" where
  \<comment> \<open>the bytearray \<open>boot\<close> of \<open>_put_boot_regions\<close> when its checksum is taken\<close>
  "boot_sectors b fat_off fat_len heap_off clusters root_cluster =
     (let partition_sectors = bd_total_sectors b - PARTITION_START_LBA;
          boot = replicate (nat ((BOOT_REGION_SECTORS - 1) * SECTOR_SIZE)) 0;
          boot = splice 0 ([0xEB, 0x76, 0x90] @ [0x45, 0x58, 0x46, 0x41, 0x54, 0x20, 0x20, 0x20]) boot;
          boot = splice 11 (replicate 53 0) boot
      in rbind (pack_into 8 64 PARTITION_START_LBA boot) (\<lambda>boot.
         rbind (pack_into 8 72 partition_sectors boot) (\<lambda>boot.
         rbind (pack_into 4 80 fat_off boot) (\<lambda>boot.
         rbind (pack_into 4 84 fat_len boot) (\<lambda>boot.
         rbind (pack_into 4 88 heap_off boot) (\<lambda>boot.
         rbind (pack_into 4 92 clusters boot) (\<lambda>boot.
         rbind (pack_into 4 96 root_cluster boot) (\<lambda>boot.
         rbind (ascii (cf_label (bd_config b))) (\<lambda>label.
         (let serial = le_val (take 4 (sha256 label))
          in rbind (pack_into 4 100 serial boot) (\<lambda>boot.
             rbind (pack_into 2 104 0x0100 boot) (\<lambda>boot.
             rbind (pack_into 2 106 0 boot) (\<lambda>boot.
             Inr (splice 510 EXFAT_BOOT_SIGNATURE (splice 108 [9, 8, 1, 0x80, 0xFF] boot)))))))))))))))"

definition boot_region :: "bytes \<Rightarrow> bytes result" where
  "boot_region boot =
     rbind (pack 4 (boot_checksum boot)) (\<lambda>checksum.
       Inr (boot @ concat (replicate (nat (SECTOR_SIZE div 4)) checksum)))"

definition put_boot_regions ::
  "builder \<Rightarrow> metadata \<Rightarrow> int \<Rightarrow> int \<Rightarrow> int \<Rightarrow> int \<Rightarrow> int \<Rightarrow> metadata result" where
  "put_boot_regions b md fat_off fat_len heap_off clusters root_cluster =
     rbind (boot_sectors b fat_off fat_len heap_off clusters root_cluster) (\<lambda>boot.
     rbind (boot_region boot) (\<lambda>region.
     (let primary = PARTITION_START_LBA;
          backup = PARTITION_START_LBA + BOOT_REGION_SECTORS
      in Inr (fold (\<lambda>index md.
           let d = slice (nat (index * SECTOR_SIZE)) 512 region
           in AList.update (backup + index) d (AList.update (primary + index) d md))
         [0..BOOT_REGION_SECTORS - 1] md))))"

definition ranges_step :: "int \<Rightarrow> cluster_range list \<Rightarrow> cluster_range list" where
  \<comment> \<open>\<open>result\<close> newest first\<close>
  "ranges_step sector result =
     (case result of
        (start, len) # rest \<Rightarrow>
          (if start + len = sector * SECTOR_SIZE then (start, len + SECTOR_SIZE) # rest
           else (sector * SECTOR_SIZE, SECTOR_SIZE) # result)
      | [] \<Rightarrow> [(sector * SECTOR_SIZE, SECTOR_SIZE)])"

definition metadata_ranges :: "metadata \<Rightarrow> cluster_range list" where
  \<comment> \<open>\<open>_ranges\<close>\<close>
  "metadata_ranges md = rev (fold ranges_step (sort (map fst md)) [])"

section \<open>Build\<close>

definition put_directory :: "(int \<Rightarrow> pystr) \<Rightarrow> builder \<Rightarrow> int \<Rightarrow> int \<Rightarrow> int \<Rightarrow> int \<Rightarrow> int \<Rightarrow> node \<Rightarrow> metadata \<Rightarrow>
    metadata result" where
  "put_directory up b heap_off bm_cluster bm_length uc_cluster uc_length n md =
     (if n_is_directory (info n)
      then rbind (directory_bytes up (cf_label (bd_config b)) n False bm_cluster bm_length
             uc_cluster uc_length) (\<lambda>d.
           Inr (put_cluster_bytes md heap_off (n_first_cluster (info n)) d))
      else Inr md)"

definition build_metadata :: "(int \<Rightarrow> pystr) \<Rightarrow> builder \<Rightarrow> int \<times> int \<times> int \<times> int \<Rightarrow> node \<Rightarrow> int \<Rightarrow> int \<Rightarrow> int \<Rightarrow>
    (metadata \<times> int) result" where
  \<comment> \<open>the dictionary and \<open>len(upcase)\<close>\<close>
  "build_metadata up b = (\<lambda>(fat_off, fat_len, heap_off, clusters) root
       bm_cluster bm_length uc_cluster.
     rbind (put_boot_regions b [] fat_off fat_len heap_off clusters
       (n_first_cluster (info root))) (\<lambda>md.
     rbind (upcase_table up) (\<lambda>upcase.
     rbind (directory_bytes up (cf_label (bd_config b)) root True bm_cluster bm_length
       uc_cluster (int (length upcase))) (\<lambda>root_bytes.
     (let md = put_cluster_bytes md heap_off (n_first_cluster (info root)) root_bytes;
          md = put_cluster_bytes md heap_off uc_cluster upcase
      in rbind (foldr_r (put_directory up b heap_off bm_cluster bm_length uc_cluster
             (int (length upcase))) (walk (children root)) md) (\<lambda>md.
         Inr (md, int (length upcase))))))))"

definition clusters_of :: "int \<Rightarrow> int" where
  "clusters_of n = max 1 ((n + CLUSTER_SIZE_BYTES - 1) div CLUSTER_SIZE_BYTES)"

definition build :: "source_fs \<Rightarrow> nat \<Rightarrow> (int \<Rightarrow> pystr) \<Rightarrow> builder \<Rightarrow> exfat_layout result" where
  "build fs limit up b =
     rbind (build_tree fs limit (cf_entries (bd_config b))) (\<lambda>root.
     (let (fat_off, fat_len, heap_off, clusters) = geometry b;
          bm_length = (clusters + 7) div 8;
          bm_clusters = clusters_of bm_length;
          bm_cluster = 2;
          uc_cluster = bm_cluster + bm_clusters;
          uc_clusters = clusters_of UPCASE_TABLE_BYTES
      in rbind (place_all root (uc_cluster + uc_clusters)) (\<lambda>(root, next_cluster, mappings).
         if next_cluster - 2 > clusters
         then Inl (ValueError (lit ''configured files do not fit virtual image''))
         else
           (let ranges = make_allocated_ranges mappings [root] bm_cluster bm_clusters
                  uc_cluster uc_clusters
            in rbind (build_metadata up b (fat_off, fat_len, heap_off, clusters) root
                 bm_cluster bm_length uc_cluster) (\<lambda>(md, uc_length).
               rbind (mapr (\<lambda>n. entry_record (info n) []) (walk (children root))) (\<lambda>records.
               Inr \<lparr>total_bytes = bd_total_bytes b, total_sectors = bd_total_sectors b,
                    partition_start_lba = PARTITION_START_LBA,
                    sectors_per_cluster = SECTORS_PER_CLUSTER,
                    cluster_size_bytes = CLUSTER_SIZE_BYTES,
                    fat_offset = fat_off, fat_length = fat_len,
                    cluster_heap_offset = heap_off, cluster_count = clusters,
                    root_dir_cluster = n_first_cluster (info root),
                    bitmap_cluster = bm_cluster, bitmap_length = bm_length,
                    upcase_cluster = uc_cluster, upcase_length = uc_length,
                    metadata = md, file_mappings = mappings, entries = records,
                    hot_ranges = metadata_ranges md, allocated_ranges = ranges\<rparr>))))))"

definition build_exfat :: "source_fs \<Rightarrow> nat \<Rightarrow> (int \<Rightarrow> pystr) \<Rightarrow> config \<Rightarrow> exfat_layout result" where
  "build_exfat fs limit up config = rbind (new_builder config) (build fs limit up)"

definition scan_directory :: "source_fs \<Rightarrow> nat \<Rightarrow> pystr \<Rightarrow> pystr \<Rightarrow> virtual_entry list result" where
  \<comment> \<open>the builder it makes for \<open>Config(1, 128, ...)\<close> plays no part in the scan\<close>
  "scan_directory fs limit source_path virtual_parent =
     rbind (scan fs limit (new_info virtual_parent virtual_parent source_path True) None) (\<lambda>root.
       mapr (\<lambda>n. entry_record (info n) virtual_parent) (walk (children root)))"

end
