(* ===== verification/World.thy ===== *)
theory World
  imports Prelude
begin

text \<open>
  The operating system as the modelled code sees it through Python's \<open>os\<close> module: which
  paths can be opened, what a read returns, and the process's table of open descriptors.
  What the storage answers (\<open>w_open\<close>, \<open>w_pread\<close>, \<open>w_close\<close>) is a parameter: an unreachable
  source, a short read or an I/O error is a choice of these functions.
\<close>

record world =
  w_open :: "pystr \<Rightarrow> int option" \<comment> \<open>the \<open>errno\<close> of opening the path, if it fails\<close>
  w_pread :: "pystr \<Rightarrow> int \<Rightarrow> int \<Rightarrow> bytes result" \<comment> \<open>path, count, offset\<close>
  w_close :: "pystr \<Rightarrow> int option" \<comment> \<open>the \<open>errno\<close> of closing a descriptor of the path, if it reports one\<close>
  w_fds :: "(int \<times> pystr) list"
  w_next_fd :: int

definition EBADF :: int where "EBADF = 9"

definition os_open :: "pystr \<Rightarrow> (world, int) prog" where
  "os_open path w =
     (case w_open w path of
        Some e \<Rightarrow> (Inl (OSError e), w)
      | None \<Rightarrow> (Inr (w_next_fd w),
          w\<lparr>w_fds := (w_next_fd w, path) # w_fds w, w_next_fd := w_next_fd w + 1\<rparr>))"

definition os_pread :: "int \<Rightarrow> int \<Rightarrow> int \<Rightarrow> world \<Rightarrow> bytes result" where
  "os_pread fd count off w =
     (case map_of (w_fds w) fd of None \<Rightarrow> Inl (OSError EBADF) | Some p \<Rightarrow> w_pread w p count off)"

definition os_close :: "int \<Rightarrow> (world, unit) prog" where
  \<comment> \<open>the descriptor is free again even when closing reports an error\<close>
  "os_close fd w =
     (case map_of (w_fds w) fd of
        None \<Rightarrow> (Inl (OSError EBADF), w)
      | Some p \<Rightarrow> (case w_close w p of None \<Rightarrow> Inr () | Some e \<Rightarrow> Inl (OSError e),
          w\<lparr>w_fds := AList.delete fd (w_fds w)\<rparr>))"

text \<open>The table is well formed when descriptors are distinct and below the next one.\<close>

definition fds_ok :: "world \<Rightarrow> bool" where
  "fds_ok w \<longleftrightarrow> distinct (map fst (w_fds w)) \<and> (\<forall>fd \<in> fst ` set (w_fds w). fd < w_next_fd w)"

lemma os_open_fds_ok: "fds_ok w \<Longrightarrow> os_open path w = (r, w') \<Longrightarrow> fds_ok w'"
  by (fastforce simp: os_open_def fds_ok_def split: option.splits)

lemma delete_subset: "set (AList.delete k al) \<subseteq> set al"
  by (auto simp: AList.delete_eq)

lemma os_close_fds_ok: "fds_ok w \<Longrightarrow> os_close fd w = (r, w') \<Longrightarrow> fds_ok w'"
  using delete_subset [of fd "w_fds w"]
  by (fastforce simp: os_close_def fds_ok_def AList.distinct_delete split: option.splits)

text \<open>
  Faithful storage: the named files can be opened, and a read of \<open>n\<close> bytes at a
  non-negative offset returns the bytes that are there, fewer only at the end of the file.
\<close>

definition serves :: "world \<Rightarrow> (pystr \<rightharpoonup> bytes) \<Rightarrow> bool" where
  "serves w files \<longleftrightarrow> (\<forall>p content. files p = Some content \<longrightarrow>
     w_open w p = None \<and>
     (\<forall>n off. 0 \<le> n \<longrightarrow> 0 \<le> off \<longrightarrow>
        w_pread w p n off = Inr (take (nat n) (drop (nat off) content))))"

lemma servesD:
  assumes "serves w files" "files p = Some content"
  shows "w_open w p = None"
    and "0 \<le> n \<Longrightarrow> 0 \<le> off \<Longrightarrow> w_pread w p n off = Inr (take (nat n) (drop (nat off) content))"
  using assms by (auto simp: serves_def)

lemma serves_cong: "w_open w' = w_open w \<Longrightarrow> w_pread w' = w_pread w \<Longrightarrow> serves w' files = serves w files"
  by (simp add: serves_def)

lemma os_open_frame:
  "os_open path w = (r, w') \<Longrightarrow> w_open w' = w_open w \<and> w_pread w' = w_pread w \<and> w_close w' = w_close w"
  by (auto simp: os_open_def split: option.splits)

end
