(* ===== verification/SectorMapper.thy ===== *)
theory SectorMapper
  imports Layout World
begin

unbundle bit_operations_syntax

text \<open>
  The sector mapper of \<open>sector_mapper.py\<close>: lazily generated FAT and bitmap sectors,
  resolution of a sector to metadata, a source file or zeros, reads, extents and the
  ranges worth prefetching. The mapper's state is its layout, its dictionary of opened
  descriptors, and the operating system below it.
\<close>

definition MAX_METADATA_PREFETCH_BYTES :: int where
  "MAX_METADATA_PREFETCH_BYTES = 64 * 1024"

section \<open>State\<close>

datatype mapping_kind = KMetadata | KFile | KZero

record sector_mapping =
  sm_kind :: mapping_kind
  sm_source_fd :: "int option"
  sm_offset :: "int option"
  sm_metadata :: "bytes option"

record mapper =
  mp_layout :: exfat_layout
  mp_fds :: "(pystr \<times> int) list"
  mp_world :: world

definition new_mapper :: "exfat_layout \<Rightarrow> world \<Rightarrow> mapper" where
  "new_mapper l w = \<lparr>mp_layout = l, mp_fds = [], mp_world = w\<rparr>"

definition mapper_from_state :: "layout_state \<Rightarrow> world \<Rightarrow> mapper result" where
  "mapper_from_state st w = rbind (from_state st) (\<lambda>l. Inr (new_mapper l w))"

definition mapper_to_state :: "mapper \<Rightarrow> layout_state" where
  "mapper_to_state m = to_state (mp_layout m)"

section \<open>Generated metadata\<close>

definition file_start_sector :: "exfat_layout \<Rightarrow> file_mapping \<Rightarrow> int" where
  "file_start_sector l fm =
     partition_start_lba l + cluster_heap_offset l + (fm_start_cluster fm - 2) * SECTORS_PER_CLUSTER"

definition fat_entry :: "cluster_range list \<Rightarrow> int \<Rightarrow> int" where
  "fat_entry ranges cluster =
     (if cluster = 0 then 0xFFFFFFF8
      else if cluster = 1 then 0xFFFFFFFF
      else case find (\<lambda>(start, count). start \<le> cluster \<and> cluster < start + count) ranges of
          None \<Rightarrow> 0
        | Some (start, count) \<Rightarrow>
            (if cluster = start + count - 1 then 0xFFFFFFFF else cluster + 1))"

definition fat_sector :: "exfat_layout \<Rightarrow> int \<Rightarrow> bytes result" where
  "fat_sector l sector_index =
     (let first_entry = sector_index * (SECTOR_SIZE div 4)
      in foldr_r (\<lambda>index data.
           rbind (to_bytes 4 (fat_entry (allocated_ranges l) (first_entry + index)))
             (\<lambda>d. Inr (splice (nat (index * 4)) d data)))
         [0..SECTOR_SIZE div 4 - 1] (replicate (nat SECTOR_SIZE) 0))"

definition set_bit_at :: "int \<Rightarrow> bytes \<Rightarrow> bytes" where
  \<comment> \<open>\<open>data[bit // 8] |= 1 << (bit % 8)\<close>\<close>
  "set_bit_at b data =
     data[nat (b div 8) := data ! nat (b div 8) OR push_bit (nat (b mod 8)) 1]"

definition bitmap_sector :: "exfat_layout \<Rightarrow> int \<Rightarrow> bytes" where
  "bitmap_sector l sector_index =
     (let first_cluster = 2 + sector_index * SECTOR_SIZE * 8
      in fold (\<lambda>(start, count) data.
           let begin = max start first_cluster;
               stop = min (start + count) (first_cluster + SECTOR_SIZE * 8)
           in fold (\<lambda>cluster. set_bit_at (cluster - first_cluster)) [begin..stop - 1] data)
         (allocated_ranges l) (replicate (nat SECTOR_SIZE) 0))"

definition bitmap_mapping :: "exfat_layout \<Rightarrow> file_mapping" where
  \<comment> \<open>\<open>FileMapping(self.layout.bitmap_cluster, 1, "", 0, "")\<close>\<close>
  "bitmap_mapping l = \<lparr>fm_start_cluster = bitmap_cluster l, fm_cluster_count = 1,
     fm_source_path = lit '''', fm_size_bytes = 0, fm_virtual_path = lit ''''\<rparr>"

definition metadata_sector :: "exfat_layout \<Rightarrow> int \<Rightarrow> bytes option result" where
  "metadata_sector l sector =
     (case map_of (metadata l) sector of
        Some direct \<Rightarrow> Inr (Some direct)
      | None \<Rightarrow>
          (let fat_start = partition_start_lba l + fat_offset l in
           if fat_start \<le> sector \<and> sector < fat_start + fat_length l
           then rbind (fat_sector l (sector - fat_start)) (\<lambda>d. Inr (Some d))
           else
             (let bitmap_start = file_start_sector l (bitmap_mapping l);
                  bitmap_sectors = (bitmap_length l + SECTOR_SIZE - 1) div SECTOR_SIZE in
              if bitmap_start \<le> sector \<and> sector < bitmap_start + bitmap_sectors
              then Inr (Some (bitmap_sector l (sector - bitmap_start)))
              else Inr None)))"

section \<open>Resolution\<close>

definition mapper_open :: "pystr \<Rightarrow> (mapper, int) prog" where
  "mapper_open path m =
     (case map_of (mp_fds m) path of
        Some fd \<Rightarrow> (Inr fd, m)
      | None \<Rightarrow>
          (case os_open path (mp_world m) of
             (Inl e, w) \<Rightarrow> (Inl e, m\<lparr>mp_world := w\<rparr>)
           | (Inr fd, w) \<Rightarrow>
               (Inr fd, m\<lparr>mp_fds := AList.update path fd (mp_fds m), mp_world := w\<rparr>)))"

definition covers_sector :: "exfat_layout \<Rightarrow> int \<Rightarrow> file_mapping \<Rightarrow> bool" where
  "covers_sector l sector fm \<longleftrightarrow>
     file_start_sector l fm \<le> sector \<and>
     sector < file_start_sector l fm + fm_cluster_count fm * SECTORS_PER_CLUSTER"

definition mapper_map :: "int \<Rightarrow> (mapper, sector_mapping) prog" where
  "mapper_map sector = bindp getp (\<lambda>m. let l = mp_layout m in
     if sector < 0 \<or> total_sectors l \<le> sector
     then raise_p (ValueError (lit ''sector outside image: '' @ show_int sector))
     else bindp (lift_r (metadata_sector l sector)) (\<lambda>md.
       case md of
         Some d \<Rightarrow> ret \<lparr>sm_kind = KMetadata, sm_source_fd = None, sm_offset = None,
                         sm_metadata = Some d\<rparr>
       | None \<Rightarrow>
           (case find (covers_sector l sector) (file_mappings l) of
              Some fm \<Rightarrow> bindp (mapper_open (fm_source_path fm)) (\<lambda>fd.
                ret \<lparr>sm_kind = KFile, sm_source_fd = Some fd,
                     sm_offset = Some ((sector - file_start_sector l fm) * SECTOR_SIZE),
                     sm_metadata = None\<rparr>)
            | None \<Rightarrow> ret \<lparr>sm_kind = KZero, sm_source_fd = None, sm_offset = None,
                           sm_metadata = None\<rparr>)))"

section \<open>Reads\<close>

text \<open>
  One round of the loop of \<open>read\<close>: the part of one sector that falls into the request
  is stored at \<open>cursor\<close> of the destination.
\<close>

definition fill_piece :: "int \<Rightarrow> int \<Rightarrow> int \<Rightarrow> int \<Rightarrow> bytes \<Rightarrow> (mapper, bytes) prog" where
  "fill_piece sector within count cursor out = bindp (mapper_map sector) (\<lambda>mapping.
     case sm_kind mapping of
       KMetadata \<Rightarrow>
         (case sm_metadata mapping of
            None \<Rightarrow> raise_p TypeError
          | Some d \<Rightarrow> lift_r (mv_store cursor (cursor + count) (slice (nat within) (nat count) d) out))
     | KFile \<Rightarrow>
         (case (sm_source_fd mapping, sm_offset mapping) of
            (Some fd, Some off) \<Rightarrow>
              bindp getp (\<lambda>m. bindp (lift_r (os_pread fd count (off + within) (mp_world m))) (\<lambda>data.
              bindp (lift_r (mv_store cursor (cursor + int (length data)) data out)) (\<lambda>out.
                if int (length data) < count
                then lift_r (mv_store (cursor + int (length data)) (cursor + count)
                       (replicate (nat (count - int (length data))) 0) out)
                else ret out)))
          | _ \<Rightarrow> raise_p AssertionError)
     | KZero \<Rightarrow> lift_r (mv_store cursor (cursor + count) (replicate (nat count) 0) out))"

function read_loop ::
  "(int \<Rightarrow> int \<Rightarrow> int \<Rightarrow> int \<Rightarrow> bytes \<Rightarrow> ('s, bytes) prog) \<Rightarrow> int \<Rightarrow> int \<Rightarrow> int \<Rightarrow> bytes \<Rightarrow> ('s, bytes) prog"
where
  "read_loop fill offset len cursor out =
     (if cursor < len then
        (let absolute = offset + cursor;
             sector = absolute div SECTOR_SIZE;
             within = absolute mod SECTOR_SIZE;
             count = min (len - cursor) (SECTOR_SIZE - within)
         in bindp (fill sector within count cursor out)
              (\<lambda>out. read_loop fill offset len (cursor + count) out))
      else ret out)"
  by pat_completeness auto
termination
  by (relation "measure (\<lambda>(fill, offset, len, cursor, out). nat (len - cursor))")
    (auto simp: Let_def)

declare read_loop.simps [simp del]

definition mapper_read :: "int \<Rightarrow> bytes option \<Rightarrow> (mapper, bytes) prog" where
  "mapper_read offset destination = bindp getp (\<lambda>m.
     if offset < 0 then raise_p (ValueError (lit ''offset must be non-negative''))
     else case destination of
       None \<Rightarrow> raise_p (ValueError (lit ''destination buffer is required''))
     | Some out \<Rightarrow>
         if total_bytes (mp_layout m) < offset + int (length out)
         then raise_p (ValueError (lit ''read exceeds image size''))
         else read_loop fill_piece offset (int (length out)) 0 out)"

definition read_bytes :: "int \<Rightarrow> int \<Rightarrow> (mapper, bytes) prog" where
  "read_bytes offset len =
     (if len < 0 then raise_p (ValueError (lit ''negative count''))
      else mapper_read offset (Some (replicate (nat len) 0)))"

definition is_metadata_region :: "exfat_layout \<Rightarrow> int \<Rightarrow> int \<Rightarrow> bool result" where
  "is_metadata_region l offset len =
     (if len \<le> 0 then Inr True
      else foldr_r (\<lambda>sector ok. if ok then rbind (metadata_sector l sector) (\<lambda>d. Inr (d \<noteq> None))
             else Inr False)
           [offset div SECTOR_SIZE..(offset + len - 1) div SECTOR_SIZE] True)"

definition read_metadata :: "int \<Rightarrow> bytes \<Rightarrow> (mapper, bytes) prog" where
  "read_metadata offset destination = bindp getp (\<lambda>m.
     bindp (lift_r (is_metadata_region (mp_layout m) offset (int (length destination)))) (\<lambda>ok.
       if ok then mapper_read offset (Some destination)
       else raise_p (ValueError (lit ''range contains non-metadata sectors''))))"

section \<open>Extents\<close>

definition zero_sector :: "int \<Rightarrow> (mapper, bool) prog" where
  "zero_sector sector = bindp (mapper_map sector) (\<lambda>mapping. ret (sm_kind mapping = KZero))"

function run_loop :: "(int \<Rightarrow> ('s, bool) prog) \<Rightarrow> bool \<Rightarrow> int \<Rightarrow> int \<Rightarrow> ('s, int) prog" where
  \<comment> \<open>the inner \<open>while\<close>: the end of the run that contains the sector before \<open>cursor\<close>\<close>
  "run_loop zero is_zero cursor stop =
     (if cursor < stop
      then bindp (zero (cursor div SECTOR_SIZE)) (\<lambda>z.
             if z = is_zero then run_loop zero is_zero (cursor + SECTOR_SIZE) stop else ret cursor)
      else ret cursor)"
  by pat_completeness auto
termination
  by (relation "measure (\<lambda>(zero, z, cursor, stop). nat (stop - cursor))") auto

declare run_loop.simps [simp del]

text \<open>
  The outer loop restarts at the end of the run, which the inner loop returns; its fuel is
  the number of sectors left, and every round consumes at least one.
\<close>

fun extents_loop ::
  "nat \<Rightarrow> (int \<Rightarrow> ('s, bool) prog) \<Rightarrow> int \<Rightarrow> int \<Rightarrow> ('s, (int \<times> int \<times> bool) list) prog" where
  "extents_loop 0 zero cursor stop = (if cursor < stop then raise_p OutOfFuel else ret [])"
| "extents_loop (Suc fuel) zero cursor stop =
     (if cursor < stop
      then bindp (zero (cursor div SECTOR_SIZE)) (\<lambda>is_zero.
           bindp (run_loop zero is_zero (cursor + SECTOR_SIZE) stop) (\<lambda>next.
           bindp (extents_loop fuel zero next stop) (\<lambda>rest.
             ret ((cursor, next - cursor, is_zero) # rest))))
      else ret [])"

definition mapper_extents :: "int \<Rightarrow> int \<Rightarrow> (mapper, (int \<times> int \<times> bool) list) prog" where
  "mapper_extents offset count = bindp getp (\<lambda>m.
     if count \<le> 0 then ret []
     else
       (let start = offset - offset mod SECTOR_SIZE;
            stop = min (total_bytes (mp_layout m))
              ((offset + count + SECTOR_SIZE - 1) div SECTOR_SIZE * SECTOR_SIZE)
        in extents_loop (nat (stop - start)) zero_sector start stop))"

section \<open>Prefetch ranges\<close>

function split_range :: "int \<Rightarrow> int \<Rightarrow> cluster_range list" where
  \<comment> \<open>the second loop of \<open>_bounded_ranges\<close> on one merged range\<close>
  "split_range start len =
     (if len > MAX_METADATA_PREFETCH_BYTES
      then (start, MAX_METADATA_PREFETCH_BYTES) #
           split_range (start + MAX_METADATA_PREFETCH_BYTES) (len - MAX_METADATA_PREFETCH_BYTES)
      else if len \<noteq> 0 then [(start, len)] else [])"
  by pat_completeness auto
termination
  by (relation "measure (\<lambda>(start, len). nat len)") (auto simp: MAX_METADATA_PREFETCH_BYTES_def)

declare split_range.simps [simp del]

definition merge_step :: "cluster_range list \<Rightarrow> cluster_range \<Rightarrow> cluster_range list" where
  \<comment> \<open>\<open>merged\<close> is kept newest first\<close>
  "merge_step merged r =
     (case (merged, r) of
        ((ps, pl) # rest, (start, len)) \<Rightarrow>
          (if start \<le> ps + pl then (ps, max (ps + pl) (start + len) - ps) # rest
           else r # merged)
      | ([], _) \<Rightarrow> [r])"

definition bounded_ranges :: "cluster_range list \<Rightarrow> cluster_range list" where
  "bounded_ranges ranges =
     (let merged = rev (foldl merge_step [] (sort (filter (\<lambda>(start, len). len > 0) ranges)))
      in concat (map (\<lambda>(start, len). split_range start len) merged))"

definition directory_clusters :: "exfat_layout \<Rightarrow> cluster_range list" where
  "directory_clusters l =
     (root_dir_cluster l, 1) #
     map (\<lambda>e. (ve_first_cluster e, ve_cluster_count e))
       (filter (\<lambda>e. ve_is_directory e \<and> ve_cluster_count e \<noteq> 0) (entries l))"

definition fat_byte_range :: "int \<Rightarrow> cluster_range \<Rightarrow> cluster_range" where
  "fat_byte_range fat_start = (\<lambda>(first_cluster, count).
     let first_byte = first_cluster * 4;
         last_byte = (first_cluster + count) * 4;
         first_sector = first_byte div SECTOR_SIZE;
         sector_count = (last_byte + SECTOR_SIZE - 1) div SECTOR_SIZE - first_sector
     in ((fat_start + first_sector) * SECTOR_SIZE, sector_count * SECTOR_SIZE))"

definition get_hot_ranges :: "exfat_layout \<Rightarrow> bool \<Rightarrow> bool \<Rightarrow> cluster_range list" where
  "get_hot_ranges l include_directory_metadata include_full_fat =
     (let fat_start = partition_start_lba l + fat_offset l;
          bitmap_start = file_start_sector l (bitmap_mapping l);
          bitmap_sectors = (bitmap_length l + SECTOR_SIZE - 1) div SECTOR_SIZE
      in bounded_ranges
           ((if include_directory_metadata
             then hot_ranges l @ map (fat_byte_range fat_start) (directory_clusters l) @
                  [(bitmap_start * SECTOR_SIZE, bitmap_sectors * SECTOR_SIZE)]
             else []) @
            (if include_full_fat then [(fat_start * SECTOR_SIZE, fat_length l * SECTOR_SIZE)] else [])))"

section \<open>Closing\<close>

definition close_one :: "int \<Rightarrow> (mapper, unit) prog" where
  "close_one fd m = (case os_close fd (mp_world m) of (r, w) \<Rightarrow> (r, m\<lparr>mp_world := w\<rparr>))"

definition mapper_close :: "(mapper, unit) prog" where
  "mapper_close = bindp getp (\<lambda>m.
     bindp (iterp close_one (map snd (mp_fds m))) (\<lambda>_. modifyp (\<lambda>m. m\<lparr>mp_fds := []\<rparr>)))"

end
