(* ===== verification/MapperMetadata.thy ===== *)
theory MapperMetadata
  imports SectorMapper
begin

unbundle bit_operations_syntax

text \<open>
  What the lazily generated metadata sectors of \<^theory_text>\<open>SectorMapper\<close> contain:
  every FAT slot holds the entry of its cluster, the FAT links the clusters of each
  allocated run in order up to the end-of-chain mark, and a bitmap bit is set exactly
  for the allocated clusters.
\<close>

section \<open>Integer ranges\<close>

lemma upto_conv_upt: "[a..b] = map (\<lambda>k. a + int k) [0..<nat (b - a + 1)]"
proof (rule nth_equalityI)
  fix i assume "i < length [a..b]"
  then show "[a..b] ! i = map (\<lambda>k. a + int k) [0..<nat (b - a + 1)] ! i" by simp
qed simp

lemma upto_0_conv: "[0..int n - 1] = map int [0..<n]"
  by (simp add: upto_conv_upt)

section \<open>FAT sectors\<close>

lemma foldr_r_chunks:
  assumes len: "\<And>i d. f i = Inr d \<Longrightarrow> length d = w"
  shows "length pre = w * i0 \<Longrightarrow> length post = w * k \<Longrightarrow>
     foldr_r (\<lambda>i data. rbind (f i) (\<lambda>d. Inr (splice (nat (i * int w)) d data)))
       (map int [i0..<i0 + k]) (pre @ post) =
     rbind (mapr f (map int [i0..<i0 + k])) (\<lambda>ds. Inr (pre @ concat ds))"
proof (induction k arbitrary: i0 pre post)
  case 0
  then show ?case by simp
next
  case (Suc k)
  have upt: "[i0..<i0 + Suc k] = i0 # [Suc i0..<Suc i0 + k]"
    by (simp add: upt_conv_Cons del: upt_Suc)
  show ?case
  proof (cases "f (int i0)")
    case (Inl e)
    then show ?thesis unfolding upt by simp
  next
    case (Inr d)
    have d: "length d = w" using len Inr by blast
    have nat: "nat (int i0 * int w) = w * i0" by (simp add: nat_mult_distrib mult.commute)
    have "splice (w * i0) d (pre @ post) = (pre @ d) @ drop w post"
      using Suc.prems d by (simp add: splice_def)
    moreover have "length (pre @ d) = w * Suc i0" "length (drop w post) = w * k"
      using Suc.prems d by simp_all
    ultimately show ?thesis
      using Suc.IH [of "pre @ d" "Suc i0" "drop w post"] Inr nat
      unfolding upt by (simp add: rbind_assoc del: upt_Suc append_assoc) simp
  qed
qed

lemma to_bytes_length: "to_bytes n v = Inr d \<Longrightarrow> length d = n"
  by (auto simp: to_bytes_def split: if_splits)

lemma fat_sector_mapr:
  "fat_sector l k = rbind (mapr (\<lambda>i. to_bytes 4 (fat_entry (allocated_ranges l) (k * 128 + i)))
     (map int [0..<128])) (\<lambda>ds. Inr (concat ds))"
  using foldr_r_chunks [of "\<lambda>i. to_bytes 4 (fat_entry (allocated_ranges l) (k * 128 + i))" 4
      "[]" 0 "replicate 512 0" 128] upto_0_conv [of 128]
  by (simp add: fat_sector_def Let_def to_bytes_length)

lemma nth_concat_chunk:
  "(\<And>d. d \<in> set ds \<Longrightarrow> length d = w) \<Longrightarrow> i < length ds \<Longrightarrow> slice (w * i) w (concat ds) = ds ! i"
proof (induction ds arbitrary: i)
  case Nil
  then show ?case by simp
next
  case (Cons d ds)
  then have d: "length d = w" by simp
  show ?case
  proof (cases i)
    case 0
    with d show ?thesis by (simp add: slice_def)
  next
    case (Suc j)
    with Cons d show ?thesis by (simp add: slice_append_right)
  qed
qed

lemma length_concat_chunks:
  "(\<And>d. d \<in> set ds \<Longrightarrow> length d = w) \<Longrightarrow> length (concat ds) = w * length ds"
  by (induction ds) auto

lemma fat_sector_slots:
  assumes "fat_sector l k = Inr d"
  shows "length d = 512"
    and "i < 128 \<Longrightarrow> le_val (slice (4 * i) 4 d) = fat_entry (allocated_ranges l) (k * 128 + int i)"
proof -
  let ?f = "\<lambda>i. to_bytes 4 (fat_entry (allocated_ranges l) (k * 128 + i))"
  obtain ds where ds: "map ?f (map int [0..<128]) = map Inr ds" and d: "d = concat ds"
    using assms by (auto simp: fat_sector_mapr rbind_Inr_iff mapr_Inr_iff simp del: map_map)
  have "length (map ?f (map int [0..<128])) = length ds" unfolding ds by simp
  then have n: "length ds = 128" by simp
  have nth: "?f (int i) = Inr (ds ! i)" if "i < 128" for i
    using arg_cong [OF ds, of "\<lambda>xs. xs ! i"] that n by simp
  have w: "length e = 4" if e: "e \<in> set ds" for e
  proof -
    obtain i where "i < 128" "e = ds ! i" using e n by (auto simp: in_set_conv_nth)
    with nth show ?thesis by (auto dest: to_bytes_length)
  qed
  show "length d = 512" using length_concat_chunks [of ds 4] w n d by simp
  show "le_val (slice (4 * i) 4 d) = fat_entry (allocated_ranges l) (k * 128 + int i)" if "i < 128"
  proof -
    let ?v = "fat_entry (allocated_ranges l) (k * 128 + int i)"
    have "ds ! i = le_bytes 4 ?v" "0 \<le> ?v" "?v < 256 ^ 4"
      using nth [OF that] by (auto simp: to_bytes_def simp del: le_bytes.simps split: if_splits)
    then show ?thesis
      using nth_concat_chunk [of ds 4 i] w n that d by (simp only: le_val_le_bytes)
  qed
qed

section \<open>Runs of clusters\<close>

definition allocated :: "cluster_range list \<Rightarrow> int \<Rightarrow> bool" where
  "allocated ranges c \<longleftrightarrow> list_ex (\<lambda>(s, n). s \<le> c \<and> c < s + n) ranges"

definition disjoint_runs :: "cluster_range list \<Rightarrow> bool" where
  \<comment> \<open>in ascending order, none empty, none overlapping the next\<close>
  "disjoint_runs ranges \<longleftrightarrow>
     list_all (\<lambda>(s, n). 2 \<le> s \<and> 0 < n) ranges \<and>
     sorted_wrt (\<lambda>(s, n) (s', n'). s + n \<le> s') ranges"

definition clusters_below :: "int \<Rightarrow> cluster_range list \<Rightarrow> bool" where
  "clusters_below bound ranges \<longleftrightarrow> list_all (\<lambda>(s, n). 0 \<le> s \<and> 0 \<le> n \<and> s + n \<le> bound) ranges"

lemma find_run:
  assumes "disjoint_runs ranges" "(s, n) \<in> set ranges" "s \<le> c" "c < s + n"
  shows "find (\<lambda>(s, n). s \<le> c \<and> c < s + n) ranges = Some (s, n)"
  using assms
proof (induction ranges)
  case Nil
  then show ?case by simp
next
  case (Cons r ranges)
  obtain s' n' where r: "r = (s', n')" by fastforce
  show ?case
  proof (cases "(s, n) = r")
    case True
    with Cons.prems show ?thesis by auto
  next
    case False
    then have "(s, n) \<in> set ranges" using Cons.prems by simp
    moreover from this have "s' + n' \<le> s" "disjoint_runs ranges"
      using Cons.prems(1) r by (auto simp: disjoint_runs_def)
    ultimately show ?thesis using Cons r by simp
  qed
qed

lemma fat_entry_run:
  assumes "disjoint_runs ranges" "(s, n) \<in> set ranges" "s \<le> c" "c < s + n"
  shows "fat_entry ranges c = (if c = s + n - 1 then 0xFFFFFFFF else c + 1)"
proof -
  have "2 \<le> s" using assms(1,2) by (auto simp: disjoint_runs_def list_all_iff)
  then show ?thesis using find_run [OF assms] assms(3) by (simp add: fat_entry_def)
qed

lemma fat_entry_free:
  assumes "2 \<le> c" "\<not> allocated ranges c"
  shows "fat_entry ranges c = 0"
proof -
  have "find (\<lambda>(s, n). s \<le> c \<and> c < s + n) ranges = None"
    using assms(2) by (auto simp: find_None_iff allocated_def list_ex_iff)
  then show ?thesis using assms(1) by (simp add: fat_entry_def)
qed

lemma fat_entry_range:
  assumes "clusters_below 4294967295 ranges"
  shows "0 \<le> fat_entry ranges c \<and> fat_entry ranges c < 4294967296"
proof (cases "c = 0 \<or> c = 1")
  case True
  then show ?thesis by (auto simp: fat_entry_def)
next
  case False
  show ?thesis
  proof (cases "find (\<lambda>(s, n). s \<le> c \<and> c < s + n) ranges")
    case None
    with False show ?thesis by (simp add: fat_entry_def)
  next
    case (Some r)
    then have "case r of (s, n) \<Rightarrow> s \<le> c \<and> c < s + n" "r \<in> set ranges"
      by (auto simp: find_Some_iff) (metis nth_mem)
    with assms have "case r of (s, n) \<Rightarrow> 0 \<le> s \<and> s \<le> c \<and> c < s + n \<and> s + n \<le> 4294967295"
      by (fastforce simp: clusters_below_def list_all_iff)
    with Some False show ?thesis by (auto simp: fat_entry_def split: prod.splits)
  qed
qed

lemma fat_sector_total:
  assumes "clusters_below 4294967295 (allocated_ranges l)"
  shows "\<exists>d. fat_sector l k = Inr d"
proof -
  have "\<exists>d. to_bytes 4 (fat_entry (allocated_ranges l) c) = Inr d" for c
    using fat_entry_range [OF assms, of c] by (simp add: to_bytes_def)
  then show ?thesis
    using mapr_total [of "map int [0..<128]" "\<lambda>i. to_bytes 4 (fat_entry (allocated_ranges l) (k * 128 + i))"]
    by (auto simp: fat_sector_mapr)
qed

text \<open>A reader that follows the chain from a first cluster.\<close>

fun fat_chain :: "nat \<Rightarrow> (int \<Rightarrow> int) \<Rightarrow> int \<Rightarrow> int list" where
  "fat_chain 0 fat c = []"
| "fat_chain (Suc fuel) fat c = c # (if fat c = 0xFFFFFFFF then [] else fat_chain fuel fat (fat c))"

lemma fat_chain_run:
  assumes "disjoint_runs ranges" "clusters_below 4294967295 ranges" "(s, n) \<in> set ranges"
  shows "s \<le> c \<Longrightarrow> c < s + n \<Longrightarrow> s + n - c \<le> int fuel \<Longrightarrow>
    fat_chain fuel (fat_entry ranges) c = [c..s + n - 1]"
proof (induction fuel arbitrary: c)
  case 0
  then show ?case by simp
next
  case (Suc fuel)
  note e = fat_entry_run [OF assms(1,3) Suc.prems(1,2)]
  have b: "c + 1 \<le> 4294967295"
    using assms(2,3) Suc.prems by (force simp: clusters_below_def list_all_iff)
  show ?case
  proof (cases "c = s + n - 1")
    case True
    with e show ?thesis by simp
  next
    case False
    with e b have "fat_entry ranges c = c + 1" "fat_entry ranges c \<noteq> 0xFFFFFFFF \<or> c + 1 = 4294967295"
      by auto
    moreover have "c + 1 < 4294967295"
      using False assms(2,3) Suc.prems by (force simp: clusters_below_def list_all_iff)
    ultimately show ?thesis
      using Suc False by (simp add: upto_rec1 [of c])
  qed
qed

section \<open>Bitmap sectors\<close>

lemma length_set_bit_at [simp]: "length (set_bit_at b data) = length data"
  by (simp add: set_bit_at_def)

lemma bit_set_bit_at:
  assumes "0 \<le> b" "b < 8 * int (length data)" "j < 8 * length data"
  shows "bit (set_bit_at b data ! (j div 8)) (j mod 8) \<longleftrightarrow>
    bit (data ! (j div 8)) (j mod 8) \<or> int j = b"
proof -
  define q where "q = nat b"
  have b: "b = int q" "nat (b div 8) = q div 8" "nat (b mod 8) = q mod 8"
    using assms(1) by (simp_all add: q_def nat_div_distrib nat_mod_distrib)
  have lt: "q div 8 < length data" "j div 8 < length data"
    using assms b by (simp_all add: less_mult_imp_div_less mult.commute)
  have "bit (push_bit (q mod 8) (1 :: byte)) (j mod 8) \<longleftrightarrow> q mod 8 = j mod 8"
    by (auto simp: bit_exp_iff)
  moreover have "q = j \<longleftrightarrow> q div 8 = j div 8 \<and> q mod 8 = j mod 8"
    by (metis div_mult_mod_eq)
  moreover have "set_bit_at b data = data[q div 8 := data ! (q div 8) OR push_bit (q mod 8) 1]"
    by (simp only: set_bit_at_def b(2,3))
  ultimately show ?thesis
    using lt b(1) by (auto simp: nth_list_update bit_or_iff simp del: push_bit_of_1)
qed

lemma fold_set_bits:
  assumes "\<And>c. c \<in> set cs \<Longrightarrow> first \<le> c \<and> c < first + 8 * int (length data)" "j < 8 * length data"
  shows "length (fold (\<lambda>c. set_bit_at (c - first)) cs data) = length data \<and>
    (bit (fold (\<lambda>c. set_bit_at (c - first)) cs data ! (j div 8)) (j mod 8) \<longleftrightarrow>
     bit (data ! (j div 8)) (j mod 8) \<or> first + int j \<in> set cs)"
  using assms
proof (induction cs arbitrary: data)
  case Nil
  then show ?case by simp
next
  case (Cons c cs)
  have "0 \<le> c - first" "c - first < 8 * int (length data)" using Cons.prems(1) [of c] by auto
  note b = bit_set_bit_at [OF this Cons.prems(2)]
  show ?case using Cons.IH [of "set_bit_at (c - first) data"] Cons.prems b by auto
qed

lemma bitmap_sector_bits:
  defines "first k \<equiv> 2 + k * 4096"
  shows "length (bitmap_sector l k) = 512"
    and "j < 4096 \<Longrightarrow> bit (bitmap_sector l k ! (j div 8)) (j mod 8) \<longleftrightarrow>
      allocated (allocated_ranges l) (first k + int j)"
proof -
  define step where "step = (\<lambda>(start, count) data.
      fold (\<lambda>c. set_bit_at (c - first k))
        [max start (first k)..min (start + count) (first k + 4096) - 1] data)"
  have step: "length (step r data) = 512 \<and>
      (bit (step r data ! (j div 8)) (j mod 8) \<longleftrightarrow> bit (data ! (j div 8)) (j mod 8) \<or>
        (case r of (s, n) \<Rightarrow> s \<le> first k + int j \<and> first k + int j < s + n))"
    if "length data = 512" "j < 4096" for r data j
    using fold_set_bits [of "case r of (start, count) \<Rightarrow>
        [max start (first k)..min (start + count) (first k + 4096) - 1]" "first k" data j] that
    by (auto simp: step_def split: prod.splits)
  have run: "length (fold step rs data) = 512 \<and>
      (bit (fold step rs data ! (j div 8)) (j mod 8) \<longleftrightarrow> bit (data ! (j div 8)) (j mod 8) \<or>
        allocated rs (first k + int j))"
    if "length data = 512" "j < 4096" for rs data j
    using that
  proof (induction rs arbitrary: data)
    case Nil
    then show ?case by (simp add: allocated_def)
  next
    case (Cons r rs)
    then show ?case using step [OF Cons.prems, of r] by (auto simp: allocated_def)
  qed
  have bs: "bitmap_sector l k = fold step (allocated_ranges l) (replicate 512 0)"
    by (simp add: bitmap_sector_def step_def first_def Let_def mult.commute)
  show "length (bitmap_sector l k) = 512"
    using run [of "replicate 512 0" 0] by (simp add: bs)
  show "bit (bitmap_sector l k ! (j div 8)) (j mod 8) \<longleftrightarrow>
      allocated (allocated_ranges l) (first k + int j)" if "j < 4096"
    using run [of "replicate 512 0" j] that by (simp add: bs less_mult_imp_div_less)
qed

end
