(* ===== verification/BuilderAlloc.thy ===== *)
theory BuilderAlloc
  imports Builder MapperMetadata
begin

text \<open>
  Cluster allocation. The bitmap, the upcase table, the directories and the files get
  consecutive runs, in this order: together the runs tile the clusters from 2 to the first
  free one, and sorting them changes nothing. The mappings are the runs of the files.
\<close>

section \<open>Tilings\<close>

fun contiguous :: "int \<Rightarrow> cluster_range list \<Rightarrow> int \<Rightarrow> bool" where
  "contiguous a [] b \<longleftrightarrow> a = b"
| "contiguous a ((s, n) # rs) b \<longleftrightarrow> s = a \<and> 0 < n \<and> contiguous (a + n) rs b"

lemma contiguous_append:
  "contiguous a (xs @ ys) c \<longleftrightarrow> (\<exists>b. contiguous a xs b \<and> contiguous b ys c)"
  by (induction a xs c rule: contiguous.induct) auto

lemma contiguous_le: "contiguous a rs b \<Longrightarrow> a \<le> b"
  by (induction a rs b rule: contiguous.induct) auto

lemma contiguous_bounds: "contiguous a rs b \<Longrightarrow> (s, n) \<in> set rs \<Longrightarrow> a \<le> s \<and> 0 < n \<and> s + n \<le> b"
proof (induction a rs b rule: contiguous.induct)
  case (2 a s' n' rs b)
  then show ?case using contiguous_le [of "a + n'" rs b] by auto
qed simp

lemma contiguous_runs:
  assumes "contiguous a rs b" "2 \<le> a"
  shows "disjoint_runs rs"
  using assms
proof (induction a rs b rule: contiguous.induct)
  case (2 a s n rs b)
  then have "disjoint_runs rs" by simp
  moreover have "a + n \<le> s'" if "(s', n') \<in> set rs" for s' n'
    using contiguous_bounds [OF _ that, of "a + n" b] 2(2) by simp
  ultimately show ?case using 2(2,3) by (auto simp: disjoint_runs_def)
qed (simp add: disjoint_runs_def)

lemma contiguous_sorted: "contiguous a rs b \<Longrightarrow> sorted rs"
proof (induction a rs b rule: contiguous.induct)
  case (2 a s n rs b)
  moreover have "(s, n) \<le> r" if "r \<in> set rs" for r
  proof -
    obtain s' n' where r: "r = (s', n')" by fastforce
    have "a + n \<le> s'" using contiguous_bounds [of "a + n" rs b s' n'] 2(2) that r by simp
    then show ?thesis using 2(2) r by (auto simp: less_eq_prod_def)
  qed
  ultimately show ?case by simp
qed simp

lemma contiguous_covers:
  "contiguous a rs b \<Longrightarrow> allocated rs c \<longleftrightarrow> a \<le> c \<and> c < b"
proof (induction a rs b rule: contiguous.induct)
  case (1 a b)
  then show ?case by (simp add: allocated_def)
next
  case (2 a s n rs b)
  then have "allocated rs c \<longleftrightarrow> a + n \<le> c \<and> c < b" "a + n \<le> b" "s = a" "0 < n"
    using contiguous_le [of "a + n" rs b] by auto
  then show ?case by (auto simp: allocated_def)
qed

section \<open>The two loops\<close>

definition run_of :: "node_info \<Rightarrow> cluster_range" where
  "run_of i = (n_first_cluster i, n_cluster_count i)"

lemma place_directory_places: "only_places place_directory"
  by (auto simp: only_places_def place_directory_def result_simps unplaced_def split: if_splits)

lemma place_file_places: "only_places place_file"
  by (auto simp: only_places_def place_file_def result_simps unplaced_def Let_def split: if_splits)

lemma directory_cluster_count_pos: "directory_cluster_count n = Inr k \<Longrightarrow> 1 \<le> k"
  by (auto simp: directory_cluster_count_def result_simps)

lemma place_directories:
  "state_map place_directory ns a = Inr (ys, b) \<Longrightarrow>
     contiguous a (map run_of (filter n_is_directory ys)) b \<and>
     list_all2 (\<lambda>n y. n_is_directory y = n_is_directory (info n) \<and>
       (n_is_directory y \<longrightarrow> directory_cluster_count n = Inr (n_cluster_count y))) ns ys"
proof (induction ns arbitrary: a ys)
  case (Cons n ns)
  obtain i m where i: "place_directory n a = Inr (i, m)"
    using Cons.prems by (auto simp: result_simps)
  then obtain zs where zs: "state_map place_directory ns m = Inr (zs, b)" "ys = i # zs"
    using Cons.prems by (auto simp: result_simps)
  have "if n_is_directory (info n)
      then n_is_directory i \<and> run_of i = (a, n_cluster_count i) \<and> m = a + n_cluster_count i \<and>
        directory_cluster_count n = Inr (n_cluster_count i)
      else \<not> n_is_directory i \<and> m = a"
    using i by (auto simp: place_directory_def result_simps run_of_def split: if_splits)
  then show ?case
    using Cons.IH [OF zs(1)] zs(2) directory_cluster_count_pos [of n "n_cluster_count i"]
    by (auto split: if_splits)
qed auto

lemma place_files:
  "state_map place_file ns (a, ms) = Inr (ys, b, ms') \<Longrightarrow>
     contiguous a (map run_of (filter (\<lambda>i. \<not> n_is_directory i) ys)) b \<and>
     ms' = ms @ map mapping_of (filter (\<lambda>i. \<not> n_is_directory i) ys) \<and>
     list_all2 (\<lambda>n y. n_is_directory y = n_is_directory (info n) \<and> (n_is_directory y \<longrightarrow> y = info n)) ns ys \<and>
     filter n_is_directory ys = filter n_is_directory (map info ns) \<and>
     list_all (\<lambda>i. n_is_directory i \<or> n_cluster_count i = clusters_of (n_size_bytes i)) ys"
proof (induction ns arbitrary: a ms ys)
  case (Cons n ns)
  obtain i m ms1 where i: "place_file n (a, ms) = Inr (i, m, ms1)"
    using Cons.prems by (auto simp: result_simps)
  then obtain zs where zs: "state_map place_file ns (m, ms1) = Inr (zs, b, ms')" "ys = i # zs"
    using Cons.prems by (auto simp: result_simps)
  have "if n_is_directory (info n) then i = info n \<and> m = a \<and> ms1 = ms
      else \<not> n_is_directory i \<and> run_of i = (a, n_cluster_count i) \<and> m = a + n_cluster_count i \<and>
        n_cluster_count i = clusters_of (n_size_bytes i) \<and> ms1 = ms @ [mapping_of i]"
    using i by (auto simp: place_file_def Let_def run_of_def clusters_of_def split: if_splits)
  moreover have "0 < clusters_of (n_size_bytes i)" by (simp add: clusters_of_def)
  ultimately show ?case using Cons.IH [OF zs(1)] zs(2) by (auto split: if_splits)
qed auto

section \<open>The placed tree\<close>

definition dir_infos :: "node \<Rightarrow> node_info list" where
  "dir_infos root = filter n_is_directory (map info (walk [root]))"

definition file_infos :: "node \<Rightarrow> node_info list" where
  "file_infos root = filter (\<lambda>i. \<not> n_is_directory i) (map info (walk [root]))"

lemma directory_cluster_count_erase:
  "erase n = erase n' \<Longrightarrow> directory_cluster_count n = directory_cluster_count n'"
proof -
  assume e: "erase n = erase n'"
  have i: "n_virtual_path (info n) = n_virtual_path (info n')"
    using arg_cong [OF e, of info] by (auto dest: unplaced_eqD)
  have c: "map erase (children n) = map erase (children n')" using arg_cong [OF e, of children] by simp
  have "mapr (\<lambda>c. rbind (utf16_le (n_name (info c))) f) cs =
      mapr (\<lambda>c. rbind (utf16_le (n_name (info c))) f) cs'"
    if "map erase cs = map erase cs'" for f :: "bytes \<Rightarrow> int result" and cs cs'
  proof -
    have "mapr (\<lambda>c. rbind (utf16_le (n_name (info c))) f) cs =
        mapr (\<lambda>c. rbind (utf16_le (n_name (info c))) f) (map erase cs)" for cs
      by (simp add: mapr_map)
    then show ?thesis using that by metis
  qed
  from this [OF c] show ?thesis by (simp add: directory_cluster_count_def entry_count_def i)
qed

text \<open>
  What the two loops achieve: the tree is only placed, its directories and then its files
  tile the clusters from the first free one, and every node has the clusters its kind asks for.
\<close>

lemma place_all_spec:
  assumes "place_all root a = Inr (root', b, ms)"
  shows "erase root' = erase root"
    "\<exists>m. contiguous a (map run_of (dir_infos root')) m \<and> contiguous m (map run_of (file_infos root')) b"
    "ms = map mapping_of (file_infos root')"
    "list_all (\<lambda>i. n_cluster_count i = clusters_of (n_size_bytes i)) (file_infos root')"
    "list_all (\<lambda>n. n_is_directory (info n) \<longrightarrow>
       directory_cluster_count n = Inr (n_cluster_count (info n))) (walk [root'])"
proof -
  obtain roots1 m where one: "walk_update place_directory [root] a = Inr (roots1, m)"
    and two: "rbind (walk_update place_file roots1 (m, [])) (\<lambda>(roots, next_cluster, mappings).
      Inr (hd roots, next_cluster, mappings)) = Inr (root', b, ms)"
    using assms by (auto simp: place_all_def result_simps)
  then obtain roots2 where two: "walk_update place_file roots1 (m, []) = Inr (roots2, b, ms)"
    and hd: "root' = hd roots2" by (auto simp: result_simps)
  note e1 = walk_update_erase [OF place_directory_places one]
    and e2 = walk_update_erase [OF place_file_places two]
  obtain r2 where r2: "roots2 = [r2]" using e1 e2 by (cases roots2) auto
  then have roots2: "roots2 = [root']" using hd by simp
  then show "erase root' = erase root" using e1 e2 by simp
  note s1 = walk_update_state_map [OF only_places_keeps_kind [OF place_directory_places], of "[root]" a]
  note s2 = walk_update_state_map [OF only_places_keeps_kind [OF place_file_places], of roots1 "(m, [])"]
  have "state_map place_directory (walk [root]) a = Inr (map info (walk roots1), m)"
    using s1 by (simp only: one rbind_Inr prod.case)
  note d = place_directories [OF this]
  have "state_map place_file (walk roots1) (m, []) = Inr (map info (walk [root']), b, ms)"
    using s2 by (simp only: two roots2 rbind_Inr prod.case)
  note f = place_files [OF this]
  have dirs: "dir_infos root' = filter n_is_directory (map info (walk roots1))"
    using f by (simp only: dir_infos_def)
  show "\<exists>m. contiguous a (map run_of (dir_infos root')) m \<and> contiguous m (map run_of (file_infos root')) b"
    using d f by (auto simp: dirs file_infos_def)
  show "ms = map mapping_of (file_infos root')" using f by (simp add: file_infos_def)
  show "list_all (\<lambda>i. n_cluster_count i = clusters_of (n_size_bytes i)) (file_infos root')"
    using f by (auto simp: file_infos_def list_all_iff)
  have "map erase (walk [root']) = map erase (walk roots1)"
    using e2 by (simp add: roots2 flip: walk_erase)
  moreover have "map erase (walk roots1) = map erase (walk [root])"
    using e1 by (simp flip: walk_erase)
  ultimately have er: "map erase (walk [root']) = map erase (walk [root])" by simp
  show "list_all (\<lambda>n. n_is_directory (info n) \<longrightarrow>
       directory_cluster_count n = Inr (n_cluster_count (info n))) (walk [root'])"
    unfolding list_all_length
  proof (intro allI impI)
    fix k assume k: "k < length (walk [root'])" and dir: "n_is_directory (info (walk [root'] ! k))"
    note la1 = conjunct2 [OF d]
    have la2: "list_all2 (\<lambda>n y. n_is_directory y = n_is_directory (info n) \<and>
        (n_is_directory y \<longrightarrow> y = info n)) (walk roots1) (map info (walk [root']))"
      using f by blast
    have len: "length (walk roots1) = length (walk [root'])" "length (walk [root]) = length (walk [root'])"
      using list_all2_lengthD [OF la1] list_all2_lengthD [OF la2] by (simp_all only: length_map)
    note k1 = k [folded len(1)] and k2 = k [folded len(2)]
    have same: "info (walk [root'] ! k) = info (walk roots1 ! k)"
      using list_all2_nthD [OF la2 k1] dir by (simp only: nth_map [OF k])
    have "directory_cluster_count (walk [root] ! k) = Inr (n_cluster_count (info (walk roots1 ! k)))"
      using list_all2_nthD [OF la1 k2] dir by (simp only: nth_map [OF k1] same)
    moreover have "erase (walk [root'] ! k) = erase (walk [root] ! k)"
      using arg_cong [OF er, of "\<lambda>xs. xs ! k"] by (simp only: nth_map [OF k] nth_map [OF k2])
    then have "directory_cluster_count (walk [root'] ! k) = directory_cluster_count (walk [root] ! k)"
      by (rule directory_cluster_count_erase)
    ultimately show "directory_cluster_count (walk [root'] ! k) =
        Inr (n_cluster_count (info (walk [root'] ! k)))"
      by (simp only: same)
  qed
qed

lemma clusters_of_upcase [simp]: "clusters_of 131072 = 1"
  by (simp add: clusters_of_def)

lemma clusters_of_pos: "1 \<le> clusters_of n"
  by (simp add: clusters_of_def)

lemma clusters_of_ge: "n \<le> clusters_of n * 131072"
proof -
  have "n \<le> ceil_div n 131072 * 131072" by (rule ceil_div_ge) simp
  then show ?thesis by (simp add: clusters_of_def ceil_div_def)
qed

lemma tree_ok_erase_eq: "erase r = erase r' \<Longrightarrow> tree_ok [r] = tree_ok [r']"
  using tree_ok_erase [of "[r]"] tree_ok_erase [of "[r']"] by simp

lemma allocated_ranges_eq:
  assumes "place_all root (uc + 1) = Inr (root', b, ms)" "tree_ok [root]" "1 \<le> bm" "uc = 2 + bm"
  shows "make_allocated_ranges ms [root'] 2 bm uc 1 =
      [(2, bm), (uc, 1)] @ map run_of (dir_infos root') @ map run_of (file_infos root')"
    "contiguous 2 (make_allocated_ranges ms [root'] 2 bm uc 1) b"
proof -
  note p = place_all_spec [OF assms(1)]
  let ?rs = "[(2, bm), (uc, 1)] @ map run_of (dir_infos root') @ map run_of (file_infos root')"
  have "walk_static [root'] = walk [root']"
    using assms(2) tree_ok_erase_eq [OF p(1)] by (intro walk_static_eq) simp
  then have "map (\<lambda>n. (n_first_cluster (info n), n_cluster_count (info n)))
      (filter (\<lambda>n. n_is_directory (info n)) (walk_static [root'])) = map run_of (dir_infos root')"
    by (simp add: dir_infos_def run_of_def filter_map comp_def del: walk.simps)
  moreover have "map (\<lambda>m. (fm_start_cluster m, fm_cluster_count m)) ms = map run_of (file_infos root')"
    by (simp add: p(3) mapping_of_def run_of_def)
  ultimately have m: "make_allocated_ranges ms [root'] 2 bm uc 1 = sort ?rs"
    by (simp add: make_allocated_ranges_def)
  have c: "contiguous 2 ?rs b"
    using p(2) assms(3,4) by (auto simp: contiguous_append add.commute)
  show eq: "make_allocated_ranges ms [root'] 2 bm uc 1 = ?rs"
    unfolding m by (rule sorted_sort_id [OF contiguous_sorted [OF c]])
  show "contiguous 2 (make_allocated_ranges ms [root'] 2 bm uc 1) b"
    unfolding eq by (rule c)
qed

section \<open>The parts of a build\<close>

definition built :: "(int \<Rightarrow> pystr) \<Rightarrow> builder \<Rightarrow> node \<Rightarrow> node \<Rightarrow> int \<Rightarrow> exfat_layout \<Rightarrow> bool" where
  \<comment> \<open>the layout of a scanned tree \<open>root0\<close>, placed as \<open>root\<close>, with \<open>next\<close> the first free cluster\<close>
  "built up b root0 root next l \<longleftrightarrow>
     geometry b = (fat_offset l, fat_length l, cluster_heap_offset l, cluster_count l) \<and>
     total_bytes l = bd_total_bytes b \<and> total_sectors l = bd_total_sectors b \<and>
     partition_start_lba l = 0 \<and>
     bitmap_cluster l = 2 \<and> bitmap_length l = (cluster_count l + 7) div 8 \<and>
     upcase_cluster l = 2 + clusters_of (bitmap_length l) \<and>
     place_all root0 (upcase_cluster l + 1) = Inr (root, next, file_mappings l) \<and>
     next - 2 \<le> cluster_count l \<and>
     allocated_ranges l = make_allocated_ranges (file_mappings l) [root] 2
       (clusters_of (bitmap_length l)) (upcase_cluster l) 1 \<and>
     root_dir_cluster l = n_first_cluster (info root) \<and>
     build_metadata up b (fat_offset l, fat_length l, cluster_heap_offset l, cluster_count l) root 2
       (bitmap_length l) (upcase_cluster l) = Inr (metadata l, upcase_length l) \<and>
     mapr (\<lambda>n. entry_record (info n) []) (walk (children root)) = Inr (entries l) \<and>
     hot_ranges l = metadata_ranges (metadata l)"

lemma builtD:
  assumes "built up b root0 root n l"
  shows "geometry b = (fat_offset l, fat_length l, cluster_heap_offset l, cluster_count l)"
    "total_bytes l = bd_total_bytes b" "total_sectors l = bd_total_sectors b"
    "partition_start_lba l = 0" "bitmap_cluster l = 2"
    "bitmap_length l = (cluster_count l + 7) div 8"
    "upcase_cluster l = 2 + clusters_of (bitmap_length l)"
    "place_all root0 (upcase_cluster l + 1) = Inr (root, n, file_mappings l)"
    "n - 2 \<le> cluster_count l"
    "allocated_ranges l = make_allocated_ranges (file_mappings l) [root] 2
       (clusters_of (bitmap_length l)) (upcase_cluster l) 1"
    "root_dir_cluster l = n_first_cluster (info root)"
    "build_metadata up b (fat_offset l, fat_length l, cluster_heap_offset l, cluster_count l) root 2
       (bitmap_length l) (upcase_cluster l) = Inr (metadata l, upcase_length l)"
    "mapr (\<lambda>n. entry_record (info n) []) (walk (children root)) = Inr (entries l)"
    "hot_ranges l = metadata_ranges (metadata l)"
  using assms unfolding built_def by - (elim conjE, assumption)+

lemma built_unique:
  assumes "built up b root0 root n l" "built up b root0 root' n' l"
  shows "root' = root" "n' = n"
  using builtD(8) [OF assms(1)] builtD(8) [OF assms(2)] by simp_all

lemma build_parts:
  assumes "build fs limit up b = Inr l"
  shows "\<exists>root0 root next. build_tree fs limit (cf_entries (bd_config b)) = Inr root0 \<and>
    built up b root0 root next l"
proof -
  obtain root0 where root0: "build_tree fs limit (cf_entries (bd_config b)) = Inr root0"
    using assms by (auto simp: build_def result_simps)
  obtain fo fl ho cc where g: "geometry b = (fo, fl, ho, cc)" by (cases rule: prod_cases4)
  show ?thesis
    using assms unfolding build_def root0 rbind_Inr g Let_def prod.case
    by (auto simp: result_simps built_def g split: if_splits)
qed

lemma built_allocation:
  assumes "built up b root0 root next l" "tree_ok [root0]"
  shows "allocated_ranges l = [(2, clusters_of (bitmap_length l)), (upcase_cluster l, 1)] @
      map run_of (dir_infos root) @ map run_of (file_infos root)"
    "contiguous 2 (allocated_ranges l) next"
    "disjoint_runs (allocated_ranges l)"
    "file_mappings l = map mapping_of (file_infos root)"
    "list_all (\<lambda>fm. fm_cluster_count fm = clusters_of (fm_size_bytes fm)) (file_mappings l)"
proof -
  have p: "place_all root0 (upcase_cluster l + 1) = Inr (root, next, file_mappings l)"
    and r: "allocated_ranges l = make_allocated_ranges (file_mappings l) [root] 2
       (clusters_of (bitmap_length l)) (upcase_cluster l) 1"
    and u: "upcase_cluster l = 2 + clusters_of (bitmap_length l)"
    by (rule builtD [OF assms(1)])+
  show "allocated_ranges l = [(2, clusters_of (bitmap_length l)), (upcase_cluster l, 1)] @
      map run_of (dir_infos root) @ map run_of (file_infos root)"
    "contiguous 2 (allocated_ranges l) next"
    using allocated_ranges_eq [OF p assms(2) clusters_of_pos u] by (simp_all add: r)
  from contiguous_runs [OF this(2)] show "disjoint_runs (allocated_ranges l)" by simp
  note s = place_all_spec [OF p]
  show "file_mappings l = map mapping_of (file_infos root)" by (rule s(3))
  then show "list_all (\<lambda>fm. fm_cluster_count fm = clusters_of (fm_size_bytes fm)) (file_mappings l)"
    using s(4) by (simp add: list_all_iff mapping_of_def)
qed

lemma built_room:
  assumes "built up b root0 root next l"
  shows "fat_offset l = 2048" "fat_offset l + fat_length l \<le> cluster_heap_offset l"
    "cluster_heap_offset l mod 2048 = 0" "256 \<le> fat_length l"
    "next - 2 \<le> cluster_count l"
    "cluster_heap_offset l + 256 * cluster_count l \<le> total_sectors l"
proof -
  have g: "geometry b = (fat_offset l, fat_length l, cluster_heap_offset l, cluster_count l)"
    and t: "total_sectors l = bd_total_sectors b" and "next - 2 \<le> cluster_count l"
    by (rule builtD [OF assms])+
  note gs = geometry_spec [OF g]
  show "fat_offset l = 2048" "fat_offset l + fat_length l \<le> cluster_heap_offset l"
    "cluster_heap_offset l mod 2048 = 0" "256 \<le> fat_length l" using gs by simp_all
  show "next - 2 \<le> cluster_count l" by fact
  have "(bd_total_sectors b - cluster_heap_offset l) div 256 * 256 \<le> bd_total_sectors b - cluster_heap_offset l"
    using div_mult_mod_eq [of "bd_total_sectors b - cluster_heap_offset l" 256]
      pos_mod_sign [of 256 "bd_total_sectors b - cluster_heap_offset l"] by linarith
  then show "cluster_heap_offset l + 256 * cluster_count l \<le> total_sectors l"
    using gs(6) t by (simp add: mult.commute)
qed

end
