(* ===== verification/MapperRead.thy ===== *)
theory MapperRead
  imports MapperMetadata
begin

text \<open>
  What a read returns. The abstract image of a layout over a set of source files is a
  function from sectors to 512-byte strings; \<open>mapper_read\<close> is shown to return exactly
  the requested window of it, for any alignment and length, whatever descriptors the
  mapper has opened before. The interface between the loop and the mapper is the locale
  \<open>sector_source\<close>.
\<close>

section \<open>Any source of sectors\<close>

definition image_byte :: "(int \<Rightarrow> bytes) \<Rightarrow> int \<Rightarrow> byte" where
  "image_byte img a = img (a div 512) ! nat (a mod 512)"

definition image_window :: "(int \<Rightarrow> bytes) \<Rightarrow> int \<Rightarrow> int \<Rightarrow> bytes" where
  "image_window img off n = map (\<lambda>i. image_byte img (off + i)) [0..n - 1]"

lemma length_image_window [simp]: "length (image_window img off n) = nat n"
  by (simp add: image_window_def)

lemma upto_append: "a \<le> b \<Longrightarrow> b \<le> c + 1 \<Longrightarrow> [a..b - 1] @ [b..c] = [a..c]"
  for a b c :: int
  by (cases "b = c + 1") (simp_all add: upto_split1 [symmetric])

lemma image_window_append:
  assumes "0 \<le> n" "0 \<le> m"
  shows "image_window img off n @ image_window img (off + n) m = image_window img off (n + m)"
proof -
  have "[n..n + m - 1] = map (\<lambda>i. n + i) [0..m - 1]"
    using upto_shift [of n "m - 1"] by (simp add: add_diff_eq)
  moreover have "[0..n + m - 1] = [0..n - 1] @ [n..n + m - 1]"
    using assms by (intro upto_append [symmetric]) auto
  ultimately show ?thesis by (simp add: image_window_def comp_def add.assoc)
qed

lemma slice_image:
  assumes "length (img k) = 512" "0 \<le> w" "0 \<le> n" "w + n \<le> 512"
  shows "slice (nat w) (nat n) (img k) = image_window img (512 * k + w) n"
proof (rule nth_equalityI)
  show "length (slice (nat w) (nat n) (img k)) = length (image_window img (512 * k + w) n)"
    using assms by simp
  fix i assume "i < length (slice (nat w) (nat n) (img k))"
  then have i: "int i < n" "i < nat n" using assms by auto
  then have m: "(512 * k + w + int i) div 512 = k" "(512 * k + w + int i) mod 512 = w + int i"
    using assms by (simp_all add: add.assoc)
  have "slice (nat w) (nat n) (img k) ! i = img k ! (nat w + i)"
    using assms i by (intro nth_slice) auto
  also have "nat w + i = nat (w + int i)" using assms by simp
  finally show "slice (nat w) (nat n) (img k) ! i = image_window img (512 * k + w) n ! i"
    using i m by (simp add: image_window_def image_byte_def)
qed

locale sector_source =
  fixes fill :: "int \<Rightarrow> int \<Rightarrow> int \<Rightarrow> int \<Rightarrow> bytes \<Rightarrow> ('s, bytes) prog"
    and inv :: "'s \<Rightarrow> bool"
    and sectors :: int
    and img :: "int \<Rightarrow> bytes"
  assumes image_length: "inv s \<Longrightarrow> 0 \<le> k \<Longrightarrow> k < sectors \<Longrightarrow> length (img k) = 512"
    and fill_image: "inv s \<Longrightarrow> 0 \<le> k \<Longrightarrow> k < sectors \<Longrightarrow> 0 \<le> w \<Longrightarrow> 1 \<le> n \<Longrightarrow> w + n \<le> 512 \<Longrightarrow>
      0 \<le> c \<Longrightarrow> c + n \<le> int (length out) \<Longrightarrow>
      \<exists>s'. fill k w n c out s = (Inr (splice (nat c) (slice (nat w) (nat n) (img k)) out), s') \<and>
        inv s'"
begin

lemma read_loop_image:
  assumes "inv s" "0 \<le> off" "0 \<le> cursor" "cursor \<le> len" "off + len \<le> 512 * sectors"
    and "int (length out) = len"
  shows "\<exists>s'. read_loop fill off len cursor out s =
    (Inr (take (nat cursor) out @ image_window img (off + cursor) (len - cursor)), s') \<and> inv s'"
  using assms
proof (induction "nat (len - cursor)" arbitrary: cursor out s rule: less_induct)
  case less
  show ?case
  proof (cases "cursor < len")
    case False
    with less.prems show ?thesis by (simp add: read_loop.simps image_window_def)
  next
    case True
    define k where "k = (off + cursor) div 512"
    define w where "w = (off + cursor) mod 512"
    define n where "n = min (len - cursor) (512 - w)"
    have kw: "off + cursor = 512 * k + w" by (simp add: k_def w_def)
    have w: "0 \<le> w" "w < 512" by (simp_all add: w_def)
    have k: "0 \<le> k" "k < sectors"
      using less.prems True by (simp_all add: k_def pos_imp_zdiv_nonneg_iff int_div_less_iff)
    have n: "1 \<le> n" "w + n \<le> 512" "cursor + n \<le> len" using True w by (auto simp: n_def)
    obtain s1 where s1: "fill k w n cursor out s =
        (Inr (splice (nat cursor) (slice (nat w) (nat n) (img k)) out), s1)" "inv s1"
      using fill_image [of s k w n cursor out] less.prems k w n by auto
    let ?d = "slice (nat w) (nat n) (img k)"
    let ?out = "splice (nat cursor) ?d out"
    have len: "length (img k) = 512" using image_length less.prems(1) k by blast
    have d: "?d = image_window img (off + cursor) n"
      using slice_image [of img k w n] len w n kw by simp
    have ld: "length ?d = nat n" using len w n by simp
    have lo: "int (length ?out) = len" using less.prems n ld by simp
    obtain s2 where s2: "read_loop fill off len (cursor + n) ?out s1 =
        (Inr (take (nat (cursor + n)) ?out @ image_window img (off + (cursor + n)) (len - (cursor + n))), s2)"
      "inv s2"
      using less.hyps [of "cursor + n" s1 ?out] less.prems n s1(2) lo True by auto
    have "take (nat (cursor + n)) ?out = take (nat cursor) out @ ?d"
      using less.prems n ld by (simp add: splice_def nat_add_distrib)
    then have "take (nat (cursor + n)) ?out @ image_window img (off + (cursor + n)) (len - (cursor + n)) =
        take (nat cursor) out @ image_window img (off + cursor) (len - cursor)"
      using image_window_append [of n "len - (cursor + n)" img "off + cursor"] n d
      by (simp add: add.assoc)
    moreover have "read_loop fill off len cursor out s = read_loop fill off len (cursor + n) ?out s1"
      using True s1(1) by (simp add: read_loop.simps [of fill off len cursor] Let_def
          bindp_Inr flip: k_def w_def n_def)
    ultimately show ?thesis using s2 by simp
  qed
qed

lemma read_window:
  assumes "inv s" "0 \<le> off" "off + int (length out) \<le> 512 * sectors"
  shows "\<exists>s'. read_loop fill off (int (length out)) 0 out s =
    (Inr (image_window img off (int (length out))), s') \<and> inv s'"
  using read_loop_image [of s off 0 "int (length out)" out] assms by simp

end

section \<open>The image of a layout\<close>

definition file_sector :: "bytes \<Rightarrow> int \<Rightarrow> bytes" where
  \<comment> \<open>512 bytes of a file from an offset, padded with zeros at its end\<close>
  "file_sector content off = ljust 512 (slice (nat off) 512 content)"

definition image_sector :: "exfat_layout \<Rightarrow> (pystr \<rightharpoonup> bytes) \<Rightarrow> int \<Rightarrow> bytes" where
  "image_sector l files sector =
     (case metadata_sector l sector of
        Inr (Some d) \<Rightarrow> d
      | _ \<Rightarrow>
          (case find (covers_sector l sector) (file_mappings l) of
             None \<Rightarrow> replicate 512 0
           | Some fm \<Rightarrow>
               file_sector (case files (fm_source_path fm) of None \<Rightarrow> [] | Some content \<Rightarrow> content)
                 ((sector - file_start_sector l fm) * 512)))"

definition layout_ok :: "exfat_layout \<Rightarrow> bool" where
  "layout_ok l \<longleftrightarrow>
     list_all (\<lambda>(_, d). length d = 512) (metadata l) \<and>
     clusters_below 4294967295 (allocated_ranges l) \<and>
     total_bytes l \<le> 512 * total_sectors l"

definition fds_agree :: "mapper \<Rightarrow> bool" where
  \<comment> \<open>every cached descriptor is open on its path\<close>
  "fds_agree m \<longleftrightarrow>
     distinct (map fst (mp_fds m)) \<and>
     list_all (\<lambda>(p, fd). map_of (w_fds (mp_world m)) fd = Some p) (mp_fds m)"

definition mapper_inv :: "exfat_layout \<Rightarrow> (pystr \<rightharpoonup> bytes) \<Rightarrow> mapper \<Rightarrow> bool" where
  "mapper_inv l files m \<longleftrightarrow>
     mp_layout m = l \<and> layout_ok l \<and> list_all (\<lambda>fm. files (fm_source_path fm) \<noteq> None) (file_mappings l) \<and>
     serves (mp_world m) files \<and> fds_ok (mp_world m) \<and> fds_agree m"

lemma metadata_sector_ok:
  assumes "layout_ok l"
  shows "metadata_sector l k = Inr None \<or> (\<exists>d. metadata_sector l k = Inr (Some d) \<and> length d = 512)"
proof (cases "map_of (metadata l) k")
  case (Some d)
  then have "length d = 512"
    using assms by (auto simp: layout_ok_def list_all_iff dest: map_of_SomeD)
  with Some show ?thesis by (simp add: metadata_sector_def)
next
  case None
  obtain d where d: "fat_sector l (k - (partition_start_lba l + fat_offset l)) = Inr d"
    using fat_sector_total assms by (auto simp: layout_ok_def)
  from None d show ?thesis
    using fat_sector_slots(1) [OF d] bitmap_sector_bits(1)
    by (simp add: metadata_sector_def Let_def)
qed

lemma image_sector_length: "layout_ok l \<Longrightarrow> length (image_sector l files k) = 512"
  using metadata_sector_ok [of l k]
  by (auto simp: image_sector_def file_sector_def split: option.splits)

lemma mapper_open_answered:
  assumes inv: "mapper_inv l files m" and answer: "w_open (mp_world m) path = None"
  shows "\<exists>fd m'. mapper_open path m = (Inr fd, m') \<and> mapper_inv l files m' \<and>
    map_of (w_fds (mp_world m')) fd = Some path"
proof (cases "map_of (mp_fds m) path")
  case (Some fd)
  then have "map_of (w_fds (mp_world m)) fd = Some path"
    using inv by (auto simp: mapper_inv_def fds_agree_def list_all_iff dest: map_of_SomeD)
  with Some inv show ?thesis by (simp add: mapper_open_def)
next
  case None
  let ?w = "mp_world m" and ?fd = "w_next_fd (mp_world m)"
  define w' where "w' = ?w\<lparr>w_fds := (?fd, path) # w_fds ?w, w_next_fd := ?fd + 1\<rparr>"
  have op: "os_open path ?w = (Inr ?fd, w')" using answer by (simp add: os_open_def w'_def)
  have fresh: "?fd \<notin> fst ` set (w_fds ?w)" using inv by (auto simp: mapper_inv_def fds_ok_def)
  have old: "fd \<noteq> ?fd" if "(p, fd) \<in> set (mp_fds m)" for p fd
  proof -
    have "map_of (w_fds ?w) fd = Some p"
      using that inv by (auto simp: mapper_inv_def fds_agree_def list_all_iff)
    then show ?thesis using fresh by (force dest: map_of_SomeD)
  qed
  have "AList.update path ?fd (mp_fds m) = mp_fds m @ [(path, ?fd)]"
    using None by (simp add: update_append_new map_of_eq_None_iff)
  then have "mapper_inv l files (m\<lparr>mp_fds := AList.update path ?fd (mp_fds m), mp_world := w'\<rparr>)"
    using inv None old os_open_fds_ok [OF _ op] os_open_frame [OF op]
    by (auto simp: mapper_inv_def fds_agree_def list_all_iff w'_def serves_def map_of_eq_None_iff)
  with op None show ?thesis by (auto simp: mapper_open_def w'_def)
qed

lemma mapper_open_ok:
  assumes "mapper_inv l files m" "files path \<noteq> None"
  shows "\<exists>fd m'. mapper_open path m = (Inr fd, m') \<and> mapper_inv l files m' \<and>
    map_of (w_fds (mp_world m')) fd = Some path"
  using assms by (intro mapper_open_answered) (auto simp: mapper_inv_def dest: servesD(1))

lemma mapper_open_inv: "mapper_inv l files m \<Longrightarrow> mapper_inv l files (snd (mapper_open path m))"
proof (cases "map_of (mp_fds m) path = None \<and> w_open (mp_world m) path \<noteq> None")
  case True
  then show "mapper_inv l files m \<Longrightarrow> ?thesis" by (auto simp: mapper_open_def os_open_def)
next
  case False
  assume inv: "mapper_inv l files m"
  from False consider "w_open (mp_world m) path = None" | fd where "map_of (mp_fds m) path = Some fd" by auto
  then show ?thesis
  proof cases
    case 1
    from mapper_open_answered [OF inv this] show ?thesis by auto
  next
    case 2
    with inv show ?thesis by (simp add: mapper_open_def)
  qed
qed

section \<open>Resolution agrees with the image\<close>

definition metadata_mapping :: "bytes \<Rightarrow> sector_mapping" where
  "metadata_mapping d =
     \<lparr>sm_kind = KMetadata, sm_source_fd = None, sm_offset = None, sm_metadata = Some d\<rparr>"

definition file_mapping_at :: "int \<Rightarrow> int \<Rightarrow> sector_mapping" where
  "file_mapping_at fd off =
     \<lparr>sm_kind = KFile, sm_source_fd = Some fd, sm_offset = Some off, sm_metadata = None\<rparr>"

definition zero_mapping :: sector_mapping where
  "zero_mapping =
     \<lparr>sm_kind = KZero, sm_source_fd = None, sm_offset = None, sm_metadata = None\<rparr>"

text \<open>Under the invariant, the three outcomes of \<open>map\<close> and nothing else.\<close>

lemma mapper_map_cases:
  assumes inv: "mapper_inv l files m" and k: "0 \<le> k" "k < total_sectors l"
  obtains (md_case) d where "metadata_sector l k = Inr (Some d)" "length d = 512"
      "mapper_map k m = (Inr (metadata_mapping d), m)"
  | (file_case) fm content fd m' where "metadata_sector l k = Inr None"
      "find (covers_sector l k) (file_mappings l) = Some fm"
      "files (fm_source_path fm) = Some content"
      "mapper_map k m = (Inr (file_mapping_at fd ((k - file_start_sector l fm) * 512)), m')"
      "mapper_inv l files m'" "map_of (w_fds (mp_world m')) fd = Some (fm_source_path fm)"
  | (zero_case) "metadata_sector l k = Inr None" "find (covers_sector l k) (file_mappings l) = None"
      "mapper_map k m = (Inr zero_mapping, m)"
proof -
  have l: "mp_layout m = l" "layout_ok l" using inv by (auto simp: mapper_inv_def)
  have "\<not> k < 0" "\<not> total_sectors l \<le> k" using k by simp_all
  note defs = mapper_map_def bindp_def l this
  from metadata_sector_ok [OF l(2), of k] consider
    (md) d where "metadata_sector l k = Inr (Some d)" "length d = 512"
    | (none) "metadata_sector l k = Inr None" by blast
  then show thesis
  proof cases
    case md
    with k show thesis by (intro md_case) (simp_all add: defs metadata_mapping_def)
  next
    case none
    show thesis
    proof (cases "find (covers_sector l k) (file_mappings l)")
      case None
      with none k show thesis by (intro zero_case) (simp_all add: defs zero_mapping_def)
    next
      case (Some fm)
      then have "fm \<in> set (file_mappings l)" by (auto simp: find_Some_iff)
      then obtain content where c: "files (fm_source_path fm) = Some content"
        using inv by (auto simp: mapper_inv_def list_all_iff)
      then obtain fd m' where o: "mapper_open (fm_source_path fm) m = (Inr fd, m')"
          "mapper_inv l files m'" "map_of (w_fds (mp_world m')) fd = Some (fm_source_path fm)"
        using mapper_open_ok [OF inv, of "fm_source_path fm"] by auto
      show thesis
        by (rule file_case [OF none Some c _ o(2,3)])
          (use none Some o(1) k in \<open>simp add: defs file_mapping_at_def\<close>)
    qed
  qed
qed

lemma covers_offset:
  "find (covers_sector l k) fms = Some fm \<Longrightarrow> 0 \<le> (k - file_start_sector l fm) * 512"
  by (auto simp: find_Some_iff covers_sector_def)

section \<open>Filling the destination\<close>

lemma mv_store_ok:
  "0 \<le> c \<Longrightarrow> c + int (length d) \<le> int (length out) \<Longrightarrow>
     mv_store c (c + int (length d)) d out = Inr (splice (nat c) d out)"
  by (simp add: mv_store_def)

lemma splice_splice:
  "off + length d + length e \<le> length out \<Longrightarrow>
     splice (off + length d) e (splice off d out) = splice off (d @ e) out"
  by (simp add: splice_def ac_simps)

lemma slice_file_sector:
  fixes content :: bytes
  assumes "0 \<le> off" "0 \<le> w" "0 \<le> n" "w + n \<le> 512"
  defines "data \<equiv> take (nat n) (drop (nat (off + w)) content)"
  shows "slice (nat w) (nat n) (file_sector content off) =
    data @ replicate (nat n - length data) 0"
proof (rule nth_equalityI)
  show "length (slice (nat w) (nat n) (file_sector content off)) =
      length (data @ replicate (nat n - length data) 0)"
    using assms by (auto simp: file_sector_def)
  fix i assume "i < length (slice (nat w) (nat n) (file_sector content off))"
  then have "i < nat n" "nat w + i < 512" using assms by (auto simp: file_sector_def)
  then show "slice (nat w) (nat n) (file_sector content off) ! i =
      (data @ replicate (nat n - length data) 0) ! i"
    using assms
    by (auto simp: file_sector_def nth_slice nth_ljust nth_append data_def slice_def
        nat_add_distrib add.assoc less_diff_conv)
qed

lemma fill_piece_image:
  assumes inv: "mapper_inv l files m" and k: "0 \<le> k" "k < total_sectors l"
    and w: "0 \<le> w" "1 \<le> n" "w + n \<le> 512" and c: "0 \<le> c" "c + n \<le> int (length out)"
  shows "\<exists>m'. fill_piece k w n c out m =
    (Inr (splice (nat c) (slice (nat w) (nat n) (image_sector l files k)) out), m') \<and>
    mapper_inv l files m'"
  using inv k
proof (cases rule: mapper_map_cases)
  case (md_case d)
  then have "int (length (slice (nat w) (nat n) d)) = n" using w by simp
  then have "mv_store c (c + n) (slice (nat w) (nat n) d) out =
      Inr (splice (nat c) (slice (nat w) (nat n) d) out)"
    using mv_store_ok [of c "slice (nat w) (nat n) d" out] c by simp
  with md_case inv show ?thesis
    by (simp add: fill_piece_def bindp_def metadata_mapping_def image_sector_def)
next
  case zero_case
  have "mv_store c (c + n) (replicate (nat n) 0) out = Inr (splice (nat c) (replicate (nat n) 0) out)"
    using mv_store_ok [of c "replicate (nat n) 0" out] c w by simp
  moreover have "slice (nat w) (nat n) (replicate 512 0) = replicate (nat n) (0 :: byte)"
    using w by (simp add: slice_def)
  ultimately show ?thesis
    using zero_case inv by (simp add: fill_piece_def bindp_def zero_mapping_def image_sector_def)
next
  case (file_case fm content fd m')
  define off where "off = (k - file_start_sector l fm) * 512"
  have off: "0 \<le> off" using covers_offset file_case(2) by (simp add: off_def)
  define data where "data = take (nat n) (drop (nat (off + w)) content)"
  let ?z = "replicate (nat n - length data) (0 :: byte)"
  have "serves (mp_world m') files" using file_case(5) by (simp add: mapper_inv_def)
  then have pr: "os_pread fd n (off + w) (mp_world m') = Inr data"
    using servesD(2) file_case(3,6) w off by (simp add: os_pread_def data_def)
  have ld: "length data \<le> nat n" by (simp add: data_def)
  then have "int (length data) \<le> n" using w by linarith
  then have st1: "mv_store c (c + int (length data)) data out = Inr (splice (nat c) data out)"
    using c by (intro mv_store_ok) linarith+
  have eq: "slice (nat w) (nat n) (image_sector l files k) = data @ ?z"
    using slice_file_sector [of off w n content] off w file_case
    by (simp add: image_sector_def off_def data_def)
  have map: "mapper_map k m = (Inr (file_mapping_at fd off), m')" using file_case by (simp add: off_def)
  show ?thesis
  proof (cases "int (length data) < n")
    case True
    have "mv_store (c + int (length data)) (c + n) ?z (splice (nat c) data out) =
        Inr (splice (nat c + length data) ?z (splice (nat c) data out))"
      using mv_store_ok [of "c + int (length data)" ?z "splice (nat c) data out"] c True
      by (simp add: nat_add_distrib)
    also have "\<dots> = Inr (splice (nat c) (data @ ?z) out)"
      using c True by (subst splice_splice) auto
    finally show ?thesis
      using True map file_case(5) pr st1 eq
      by (simp add: fill_piece_def bindp_def file_mapping_at_def nat_diff_distrib)
  next
    case False
    then have "?z = []" using ld by simp
    then show ?thesis
      using False map file_case(5) pr st1 eq by (simp add: fill_piece_def bindp_def file_mapping_at_def)
  qed
qed

interpretation mapper_image: sector_source fill_piece "mapper_inv l files" "total_sectors l"
  "image_sector l files" for l files
proof
  fix m k
  assume "mapper_inv l files m"
  then show "length (image_sector l files k) = 512"
    by (intro image_sector_length) (simp add: mapper_inv_def)
qed (rule fill_piece_image)

section \<open>Reads return the image\<close>

lemma mapper_read_window:
  assumes inv: "mapper_inv l files m" and off: "0 \<le> off" "off + int (length out) \<le> total_bytes l"
  shows "\<exists>m'. mapper_read off (Some out) m =
    (Inr (image_window (image_sector l files) off (int (length out))), m') \<and> mapper_inv l files m'"
proof -
  have l: "mp_layout m = l" "total_bytes l \<le> 512 * total_sectors l"
    using inv by (auto simp: mapper_inv_def layout_ok_def)
  then have "mapper_read off (Some out) m = read_loop fill_piece off (int (length out)) 0 out m"
    using off by (simp add: mapper_read_def bindp_def)
  then show ?thesis using mapper_image.read_window [OF inv, of off out] off l by simp
qed

lemma new_mapper_inv:
  assumes "layout_ok l" "list_all (\<lambda>fm. files (fm_source_path fm) \<noteq> None) (file_mappings l)"
    and "serves w files" "fds_ok w"
  shows "mapper_inv l files (new_mapper l w)"
  using assms by (simp add: mapper_inv_def new_mapper_def fds_agree_def)

end
