(* ===== verification/BuilderMetadata.thy ===== *)
theory BuilderMetadata
  imports BuilderAlloc MapperRead
begin

text \<open>
  The metadata dictionary of a build, as a function from sectors to bytes: the boot regions
  at sectors 0 to 23, and for every directory and for the upcase table the bytes stored from
  its first cluster on. As long as what is stored stays inside the runs allocated for it, no
  store overwrites another, and every byte string is found where it was put.
\<close>

section \<open>Stores\<close>

lemma map_of_fold_update:
  "map_of (fold (\<lambda>i md. AList.update (a + i) (f i) md) is md) s =
     (if s - a \<in> set is then Some (f (s - a)) else map_of md s)"
  for a :: int
  by (induction "is" arbitrary: md) (auto simp: update_conv')

lemma map_of_put_sectors:
  "map_of (put_sectors md start data n) s =
     (if start \<le> s \<and> s < start + n then Some (file_sector data ((s - start) * 512)) else map_of md s)"
  unfolding put_sectors_def
  by (subst map_of_fold_update [where f = "\<lambda>index. ljust 512 (slice (nat (index * SECTOR_SIZE)) 512 data)"])
    (auto simp: file_sector_def)

lemma ljust_slice_ljust: "ljust w (slice off w (ljust n d)) = ljust w (slice off w d)"
  by (rule nth_equalityI) (auto simp: nth_ljust nth_slice min_def)

lemma file_sector_ljust [simp]: "file_sector (ljust n d) off = file_sector d off"
  by (simp add: file_sector_def ljust_slice_ljust)

definition region_start :: "int \<Rightarrow> int \<Rightarrow> int" where
  "region_start heap_off cluster = heap_off + (cluster - 2) * 256"

definition region_sectors :: "bytes \<Rightarrow> int" where
  "region_sectors data = max 1 (ceil_div (int (length data)) 512)"

definition covers :: "int \<Rightarrow> int \<times> bytes \<Rightarrow> int \<Rightarrow> bool" where
  "covers heap_off = (\<lambda>(cluster, data) s.
     region_start heap_off cluster \<le> s \<and> s < region_start heap_off cluster + region_sectors data)"

definition region_sector :: "int \<Rightarrow> int \<times> bytes \<Rightarrow> int \<Rightarrow> bytes" where
  "region_sector heap_off = (\<lambda>(cluster, data) s.
     file_sector data ((s - region_start heap_off cluster) * 512))"

lemma map_of_put_cluster_bytes:
  "map_of (put_cluster_bytes md heap_off cluster data) s =
     (if covers heap_off (cluster, data) s then Some (region_sector heap_off (cluster, data) s)
      else map_of md s)"
proof -
  let ?n = "ceil_div (int (length data)) 512"
  have ge: "int (length data) \<le> ?n * 512" by (rule ceil_div_ge) simp
  define padded where "padded = ljust (nat (max 512 (?n * 512))) data"
  have len: "int (length padded) = max 512 (?n * 512)"
    using ge by (simp add: padded_def)
  have "max 512 (?n * 512) = max 1 ?n * 512" by (simp add: max_def)
  then have n: "ceil_div (int (length padded)) 512 = max 1 ?n"
    by (simp add: len ceil_div_def [of "max 1 ?n * 512"])
  have "put_cluster_bytes md heap_off cluster data =
      put_sectors md (region_start heap_off cluster) padded (max 1 ?n)"
    unfolding put_cluster_bytes_def Let_def const_values region_start_def
      ceil_div_def [symmetric] padded_def [symmetric] n by simp
  then show ?thesis
    by (simp add: map_of_put_sectors covers_def region_sector_def region_sectors_def padded_def)
qed

definition put_regions :: "int \<Rightarrow> (int \<times> bytes) list \<Rightarrow> metadata \<Rightarrow> metadata" where
  "put_regions heap_off rs md = fold (\<lambda>(cluster, data) md. put_cluster_bytes md heap_off cluster data) rs md"

lemma put_regions_simps [simp]:
  "put_regions h [] md = md"
  "put_regions h ((c, d) # rs) md = put_regions h rs (put_cluster_bytes md h c d)"
  by (simp_all add: put_regions_def)

lemma put_regions_none:
  "list_all (\<lambda>r. \<not> covers h r s) rs \<Longrightarrow> map_of (put_regions h rs md) s = map_of md s"
proof (induction rs arbitrary: md)
  case (Cons r rs)
  then show ?case by (cases r) (simp add: map_of_put_cluster_bytes)
qed simp

lemma put_regions_one:
  assumes "r \<in> set rs" "covers h r s" "\<And>r'. r' \<in> set rs \<Longrightarrow> covers h r' s \<Longrightarrow> r' = r"
  shows "map_of (put_regions h rs md) s = Some (region_sector h r s)"
  using assms
proof (induction rs arbitrary: md)
  case (Cons q rs)
  obtain c d where q: "q = (c, d)" by fastforce
  show ?case
  proof (cases "r \<in> set rs")
    case True
    then show ?thesis using Cons.IH [OF True Cons.prems(2)] Cons.prems(3) by (simp add: q)
  next
    case False
    then have "list_all (\<lambda>r. \<not> covers h r s) rs" using Cons.prems(3) by (auto simp: list_all_iff)
    then have "map_of (put_regions h (q # rs) md) s = map_of (put_cluster_bytes md h c d) s"
      by (simp add: q put_regions_none)
    moreover have "r = q" using False Cons.prems(1) by simp
    ultimately show ?thesis using Cons.prems(2) by (simp add: q map_of_put_cluster_bytes)
  qed
qed simp

section \<open>The regions of a build\<close>

fun dir_regions :: "(int \<Rightarrow> pystr) \<Rightarrow> pystr \<Rightarrow> int \<Rightarrow> int \<Rightarrow> int \<Rightarrow> int \<Rightarrow> node list \<Rightarrow> (int \<times> bytes) list result" where
  "dir_regions up label bc bl uc ul [] = Inr []"
| "dir_regions up label bc bl uc ul (n # ns) =
     (if n_is_directory (info n)
      then rbind (directory_bytes up label n False bc bl uc ul) (\<lambda>d.
           rbind (dir_regions up label bc bl uc ul ns) (\<lambda>rs. Inr ((n_first_cluster (info n), d) # rs)))
      else dir_regions up label bc bl uc ul ns)"

lemma put_directories_regions:
  "foldr_r (put_directory up b h bc bl uc ul) ns md =
     rbind (dir_regions up (cf_label (bd_config b)) bc bl uc ul ns) (\<lambda>rs. Inr (put_regions h rs md))"
  by (induction ns arbitrary: md) (auto simp: put_directory_def rbind_assoc)

definition regions :: "(int \<Rightarrow> pystr) \<Rightarrow> pystr \<Rightarrow> int \<Rightarrow> int \<Rightarrow> node \<Rightarrow> (int \<times> bytes) list result" where
  \<comment> \<open>root directory, upcase table, other directories\<close>
  "regions up label bl uc root =
     rbind (upcase_table up) (\<lambda>upcase.
     rbind (directory_bytes up label root True 2 bl uc (int (length upcase))) (\<lambda>root_bytes.
     rbind (dir_regions up label 2 bl uc (int (length upcase)) (walk (children root))) (\<lambda>rs.
     Inr ((n_first_cluster (info root), root_bytes) # (uc, upcase) # rs))))"

lemma build_metadata_regions:
  assumes "build_metadata up b (fo, fl, ho, cc) root 2 bl uc = Inr (md, ul)"
  shows "\<exists>boot rs. put_boot_regions b [] fo fl ho cc (n_first_cluster (info root)) = Inr boot \<and>
    regions up (cf_label (bd_config b)) bl uc root = Inr rs \<and> md = put_regions ho rs boot \<and>
    (\<exists>upcase. upcase_table up = Inr upcase \<and> ul = int (length upcase))"
  using assms
  by (auto simp: build_metadata_def regions_def result_simps put_directories_regions Let_def)

lemma dir_regions_spec:
  assumes "dir_regions up label bc bl uc ul ns = Inr rs"
  shows "map fst rs = map n_first_cluster (filter n_is_directory (map info ns))"
    "\<And>n. n \<in> set ns \<Longrightarrow> n_is_directory (info n) \<Longrightarrow>
      \<exists>d. (n_first_cluster (info n), d) \<in> set rs \<and> directory_bytes up label n False bc bl uc ul = Inr d"
    "\<And>r. r \<in> set rs \<Longrightarrow> \<exists>n\<in>set ns. n_is_directory (info n) \<and> fst r = n_first_cluster (info n) \<and>
      directory_bytes up label n False bc bl uc ul = Inr (snd r)"
proof -
  have "map fst rs = map n_first_cluster (filter n_is_directory (map info ns)) \<and>
    (\<forall>n\<in>set ns. n_is_directory (info n) \<longrightarrow>
      (\<exists>d. (n_first_cluster (info n), d) \<in> set rs \<and> directory_bytes up label n False bc bl uc ul = Inr d)) \<and>
    (\<forall>r\<in>set rs. \<exists>n\<in>set ns. n_is_directory (info n) \<and> fst r = n_first_cluster (info n) \<and>
      directory_bytes up label n False bc bl uc ul = Inr (snd r))"
    using assms
  proof (induction ns arbitrary: rs)
    case (Cons n ns)
    then show ?case by (fastforce simp: result_simps split: if_splits)
  qed simp
  then show "map fst rs = map n_first_cluster (filter n_is_directory (map info ns))"
    "\<And>n. n \<in> set ns \<Longrightarrow> n_is_directory (info n) \<Longrightarrow>
      \<exists>d. (n_first_cluster (info n), d) \<in> set rs \<and> directory_bytes up label n False bc bl uc ul = Inr d"
    "\<And>r. r \<in> set rs \<Longrightarrow> \<exists>n\<in>set ns. n_is_directory (info n) \<and> fst r = n_first_cluster (info n) \<and>
      directory_bytes up label n False bc bl uc ul = Inr (snd r)"
    by blast+
qed

section \<open>Boot regions\<close>

lemma boot_sectors_length:
  "boot_sectors b fo fl ho cc root = Inr boot \<Longrightarrow> length boot = 5632"
  by (auto simp: boot_sectors_def Let_def result_simps EXFAT_BOOT_SIGNATURE_def)

lemma boot_region_spec:
  assumes "boot_region boot = Inr region" "length boot = 5632"
  shows "length region = 6144" "take 5632 region = boot"
    "drop 5632 region = concat (replicate 128 (le_bytes 4 (boot_checksum boot)))"
  using assms boot_checksum_range [of boot]
  by (auto simp: boot_region_def result_simps length_concat sum_list_replicate)

lemma map_of_boot_fold:
  "map_of (fold (\<lambda>index md. let d = f index in
       AList.update (12 + index) d (AList.update (0 + index) d md)) is md) s =
     (if s \<in> set is \<and> \<not> s - 12 \<in> set is then Some (f s)
      else if s - 12 \<in> set is then Some (f (s - 12)) else map_of md s)"
  if "\<forall>i\<in>set is. 0 \<le> i \<and> i < (12 :: int)"
  using that by (induction "is" arbitrary: md) (auto simp: update_conv' Let_def)

lemma put_boot_regions_spec:
  assumes "put_boot_regions b [] fo fl ho cc root = Inr md"
  shows "\<exists>boot region. boot_sectors b fo fl ho cc root = Inr boot \<and> boot_region boot = Inr region \<and>
    (\<forall>s. map_of md s = (if 0 \<le> s \<and> s < 24 then Some (slice (nat (s mod 12 * 512)) 512 region) else None))"
proof -
  obtain boot region where br: "boot_sectors b fo fl ho cc root = Inr boot" "boot_region boot = Inr region"
    and md: "md = fold (\<lambda>index md. let d = slice (nat (index * 512)) 512 region in
       AList.update (12 + index) d (AList.update (0 + index) d md)) [0..11] []"
    using assms by (auto simp: put_boot_regions_def result_simps)
  have "map_of md s = (if 0 \<le> s \<and> s < 24 then Some (slice (nat (s mod 12 * 512)) 512 region) else None)" for s
  proof -
    have "s mod 12 = s" if "0 \<le> s" "s < 12" using that by simp
    moreover have "s mod 12 = s - 12" if "12 \<le> s" "s < 24"
      using that by presburger
    ultimately show ?thesis
      unfolding md by (subst map_of_boot_fold) auto
  qed
  with br show ?thesis by blast
qed

end
