(* ===== verification/DirectoryRead.thy ===== *)
theory DirectoryRead
  imports Directory
begin

text \<open>
  What a reader of the volume finds in a directory. The reader follows the exFAT
  specification: it takes the secondary count of a file entry, checks the set checksum and
  the name hash, and collects the name from the file name entries. On the bytes the code
  writes it returns exactly the children, and it stops at the end marker.
\<close>

section \<open>The reader\<close>

record dir_record =
  dr_units :: "int list" \<comment> \<open>the UTF-16 code units of the name\<close>
  dr_is_directory :: bool
  dr_first_cluster :: int
  dr_data_length :: int
  dr_created :: int \<comment> \<open>in units of 10 ms\<close>
  dr_modified :: int
  dr_accessed :: int

definition field :: "nat \<Rightarrow> nat \<Rightarrow> bytes \<Rightarrow> int" where
  "field off n e = le_val (slice off n e)"

definition read_set :: "(int \<Rightarrow> int) \<Rightarrow> bytes \<Rightarrow> bytes list \<Rightarrow> dir_record option" where
  "read_set upcase e rest =
     (let stream = hd rest;
          len = nat (2 * uint (stream ! 3));
          encoded = take len (concat (map (slice 2 30) (tl rest)))
      in if 2 \<le> length rest \<and> stream ! 0 = ENTRY_STREAM \<and>
            list_all (\<lambda>d. d ! 0 = ENTRY_FILENAME) (tl rest) \<and>
            field 2 2 e = entry_checksum (concat (e # rest)) \<and>
            length encoded = len \<and> name_hash upcase encoded = Inr (field 4 2 stream)
         then Some \<lparr>dr_units = units_of encoded,
                dr_is_directory = (field 4 2 e = 0x10),
                dr_first_cluster = field 20 4 stream,
                dr_data_length = field 24 8 stream,
                dr_created = exfat_time_units (field 10 2 e, field 8 2 e, uint (e ! 20)),
                dr_modified = exfat_time_units (field 14 2 e, field 12 2 e, uint (e ! 21)),
                dr_accessed = exfat_time_units (field 18 2 e, field 16 2 e, 0)\<rparr>
         else None)"

function read_entries :: "(int \<Rightarrow> int) \<Rightarrow> bytes list \<Rightarrow> dir_record list option" where
  "read_entries upcase [] = None"
| "read_entries upcase (e # es) =
     (if e ! 0 = ENTRY_END then Some []
      else if e ! 0 = ENTRY_FILE then
        (let n = nat (uint (e ! 1))
         in case read_set upcase e (take n es) of
              None \<Rightarrow> None
            | Some r \<Rightarrow> map_option ((#) r) (read_entries upcase (drop n es)))
      else if e ! 0 \<in> {ENTRY_BITMAP, ENTRY_UPCASE, ENTRY_VOLUME_LABEL} then read_entries upcase es
      else None)"
  by pat_completeness auto
termination
  by (relation "measure (\<lambda>(_, es). length es)") auto

declare read_entries.simps [simp del]

definition read_directory :: "(int \<Rightarrow> int) \<Rightarrow> bytes \<Rightarrow> dir_record list option" where
  "read_directory upcase bs = read_entries upcase (chunks 32 (length bs div 32) bs)"

definition accessed_units :: "int \<Rightarrow> int" where
  \<comment> \<open>an access time has no 10 ms increment: it is even seconds\<close>
  "accessed_units ns = (case exfat_timestamp ns of (date, time, _) \<Rightarrow> exfat_time_units (date, time, 0))"

definition record_of :: "node_info \<Rightarrow> dir_record" where
  "record_of i =
     \<lparr>dr_units = take 255 (name_units (n_name i)),
      dr_is_directory = n_is_directory i,
      dr_first_cluster = n_first_cluster i,
      dr_data_length = data_length_of i,
      dr_created = clamp_units (n_created_ns i),
      dr_modified = clamp_units (n_modified_ns i),
      dr_accessed = accessed_units (n_accessed_ns i)\<rparr>"

section \<open>Fields of the entries\<close>

lemma uint_byte: "0 \<le> v \<Longrightarrow> v < 256 \<Longrightarrow> uint (word_of_int v :: byte) = v"
  by (simp add: uint_word_of_int)

lemma primary_entry_fields:
  assumes "primary_entry i k = Inr p"
  shows "length p = 32" "p ! 0 = ENTRY_FILE" "uint (p ! 1) = k + 1"
    "field 4 2 p = (if n_is_directory i then 0x10 else 0x20)"
    "exfat_time_units (field 10 2 p, field 8 2 p, uint (p ! 20)) = clamp_units (n_created_ns i)"
    "exfat_time_units (field 14 2 p, field 12 2 p, uint (p ! 21)) = clamp_units (n_modified_ns i)"
    "exfat_time_units (field 18 2 p, field 16 2 p, 0) = accessed_units (n_accessed_ns i)"
proof -
  obtain cd ct ci where c: "exfat_timestamp (n_created_ns i) = (cd, ct, ci)" by (cases rule: prod_cases3)
  obtain md mt mi where m: "exfat_timestamp (n_modified_ns i) = (md, mt, mi)" by (cases rule: prod_cases3)
  obtain ad at ai where a: "exfat_timestamp (n_accessed_ns i) = (ad, at, ai)" by (cases rule: prod_cases3)
  note cf = exfat_timestamp_fields [OF c] and mf = exfat_timestamp_fields [OF m]
    and af = exfat_timestamp_fields [OF a]
  have k: "0 \<le> k + 1" "k + 1 < 256"
    and p: "p = splice 22 [0x80, 0x80, 0x80] (splice 21 [word_of_int mi] (splice 20 [word_of_int ci]
      (splice 18 (le_bytes 2 ad) (splice 16 (le_bytes 2 at) (splice 14 (le_bytes 2 md)
      (splice 12 (le_bytes 2 mt) (splice 10 (le_bytes 2 cd) (splice 8 (le_bytes 2 ct)
      (splice 4 (le_bytes 2 (if n_is_directory i then 0x10 else 0x20)) (splice 1 [word_of_int (k + 1)]
      (splice 0 [ENTRY_FILE] (replicate 32 0))))))))))))"
    using assms by (auto simp: primary_entry_def put_timestamps_def c m a Let_def result_simps)
  show "length p = 32" by (simp add: p)
  show "p ! 0 = ENTRY_FILE" by (simp add: p nth_splice)
  show "uint (p ! 1) = k + 1" using uint_byte [OF k] by (simp add: p nth_splice)
  show "field 4 2 p = (if n_is_directory i then 0x10 else 0x20)"
    by (simp add: p field_def buffer_simps u16.dec_enc)
  have "uint (p ! 20) = ci" "uint (p ! 21) = mi"
    using cf(6,7) mf(6,7) by (simp_all add: p nth_splice uint_byte)
  moreover have "field 8 2 p = ct" "field 10 2 p = cd" "field 12 2 p = mt" "field 14 2 p = md"
      "field 16 2 p = at" "field 18 2 p = ad"
    using cf(2-5) mf(2-5) af(2-5) by (simp_all add: p field_def buffer_simps u16.dec_enc)
  ultimately show
    "exfat_time_units (field 10 2 p, field 8 2 p, uint (p ! 20)) = clamp_units (n_created_ns i)"
    "exfat_time_units (field 14 2 p, field 12 2 p, uint (p ! 21)) = clamp_units (n_modified_ns i)"
    "exfat_time_units (field 18 2 p, field 16 2 p, 0) = accessed_units (n_accessed_ns i)"
    using cf(1) mf(1) by (simp_all add: accessed_units_def a)
qed

lemma stream_entry_fields:
  assumes "stream_entry up i encoded units = Inr s"
  shows "length s = 32" "s ! 0 = ENTRY_STREAM" "uint (s ! 3) = units"
    "name_hash (simple_upper up) encoded = Inr (field 4 2 s)"
    "field 20 4 s = n_first_cluster i" "field 24 8 s = data_length_of i"
proof -
  obtain h where h: "name_hash (simple_upper up) encoded = Inr h" "0 \<le> units" "units < 256"
      "0 \<le> h" "h < 65536" "0 \<le> data_length_of i" "data_length_of i < 18446744073709551616"
      "0 \<le> n_first_cluster i" "n_first_cluster i < 4294967296"
    and s: "s = splice 24 (le_bytes 8 (data_length_of i)) (splice 20 (le_bytes 4 (n_first_cluster i))
      (splice 8 (le_bytes 8 (data_length_of i)) (splice 1 [1] (splice 4 (le_bytes 2 h)
      (splice 3 [word_of_int units] (splice 0 [ENTRY_STREAM] (replicate 32 0)))))))"
    using assms by (auto simp: stream_entry_def Let_def result_simps)
  show "length s = 32" by (simp add: s)
  show "s ! 0 = ENTRY_STREAM" by (simp add: s nth_splice)
  show "uint (s ! 3) = units" using h(2,3) by (simp add: s nth_splice uint_byte)
  show "name_hash (simple_upper up) encoded = Inr (field 4 2 s)"
    using h(1,4,5) by (simp add: s field_def buffer_simps u16.dec_enc)
  show "field 20 4 s = n_first_cluster i"
    using h(8,9) by (simp add: s field_def buffer_simps u32.dec_enc)
  show "field 24 8 s = data_length_of i"
    using h(6,7) by (simp add: s field_def buffer_simps u64.dec_enc)
qed

section \<open>Names\<close>

lemma concat_slices: "concat (map (\<lambda>k. slice (w * k) w xs) [0..<n]) = take (w * n) xs"
  by (induction n) (simp_all add: slice_def take_add add.commute [of w])

lemma ljust_slice:
  assumes "k < n" "length xs \<le> w * n"
  shows "ljust w (slice (w * k) w xs) = slice (w * k) w (ljust (w * n) xs)"
proof (rule nth_equalityI)
  have wk: "w * k + w \<le> w * n" using mult_le_mono2 [of "Suc k" n w] assms(1) by simp
  then show "length (ljust w (slice (w * k) w xs)) = length (slice (w * k) w (ljust (w * n) xs))"
    by simp
  fix i assume "i < length (ljust w (slice (w * k) w xs))"
  then have "i < w" using assms by simp
  then show "ljust w (slice (w * k) w xs) ! i = slice (w * k) w (ljust (w * n) xs) ! i"
    using wk by (auto simp: nth_ljust nth_slice)
qed

lemma name_entries_spec:
  assumes "length encoded = 2 * units"
  shows "list_all (\<lambda>d. length d = 32 \<and> d ! 0 = ENTRY_FILENAME) (name_entries encoded)"
    "take (2 * units) (concat (map (slice 2 30) (name_entries encoded))) = encoded"
    "length (name_entries encoded) = max 1 ((units + 14) div 15)"
proof -
  define n where "n = (length encoded + 29) div 30"
  have n: "n = (units + 14) div 15" "length encoded \<le> 30 * n"
    using assms by (simp_all add: n_def)
  have "list_all (\<lambda>d. length d = 32 \<and> d ! 0 = ENTRY_FILENAME) (name_entries encoded) \<and>
    take (2 * units) (concat (map (slice 2 30) (name_entries encoded))) = encoded \<and>
    length (name_entries encoded) = max 1 ((units + 14) div 15)"
  proof (cases "n = 0")
    case True
    then have "encoded = []" "units = 0" using n(2) assms by simp_all
    then show ?thesis by (simp add: name_entries_def)
  next
    case False
    let ?pieces = "map (\<lambda>k. ljust 30 (slice (30 * k) 30 encoded)) [0..<n]"
    have names: "name_entries encoded = map (\<lambda>d. [ENTRY_FILENAME, 0] @ d) ?pieces"
      using False by (simp add: name_entries_def n_def Let_def)
    have "map (slice 2 30) (name_entries encoded) = ?pieces"
      unfolding names by (simp add: slice_def)
    moreover have "?pieces = map (\<lambda>k. slice (30 * k) 30 (ljust (30 * n) encoded)) [0..<n]"
      using n(2) by (auto intro: ljust_slice)
    ultimately have "concat (map (slice 2 30) (name_entries encoded)) = ljust (30 * n) encoded"
      using n(2) by (simp add: concat_slices)
    then have "take (2 * units) (concat (map (slice 2 30) (name_entries encoded))) = encoded"
      using assms by (simp add: ljust_def)
    then show ?thesis using False n(1) names by (simp add: list_all_iff)
  qed
  then show "list_all (\<lambda>d. length d = 32 \<and> d ! 0 = ENTRY_FILENAME) (name_entries encoded)"
    "take (2 * units) (concat (map (slice 2 30) (name_entries encoded))) = encoded"
    "length (name_entries encoded) = max 1 ((units + 14) div 15)" by simp_all
qed

section \<open>Entry sets\<close>

definition set_size :: "node_info \<Rightarrow> nat" where
  \<comment> \<open>entries of a set: primary, stream and names\<close>
  "set_size i = 2 + max 1 ((min 255 (length (name_units (n_name i))) + 14) div 15)"

lemma take_units:
  "take (2 * k) (concat (map (le_bytes 2) us)) = concat (map (le_bytes 2) (take k us))"
proof (induction us arbitrary: k)
  case (Cons u us)
  then show ?case by (cases k) simp_all
qed simp

lemma encoded_name:
  assumes "utf16_le name = Inr full"
  shows "length (take 510 full) = 2 * min 255 (length (name_units name))"
    "units_of (take 510 full) = take 255 (name_units name)"
proof -
  have full: "full = concat (map (le_bytes 2) (name_units name))" and sc: "list_all scalar name"
    using assms by (simp_all add: utf16_le_Inr_iff)
  note r = name_units_range [OF sc]
  have t: "take 510 full = concat (map (le_bytes 2) (take 255 (name_units name)))"
    using take_units [of 255] by (simp add: full)
  then show "length (take 510 full) = 2 * min 255 (length (name_units name))"
    by (simp add: length_concat_le2 min.commute)
  have "list_all (\<lambda>u. 0 \<le> u \<and> u < 65536) (take 255 (name_units name))"
    using r by (auto simp: list_all_iff dest: in_set_takeD)
  from units_of_concat [OF this, of "[]"] show "units_of (take 510 full) = take 255 (name_units name)"
    by (simp add: t)
qed

lemma file_entry_set_read:
  assumes "file_entry_set up i = Inr es"
  shows "list_all (\<lambda>d. length d = 32) es" "length es = set_size i"
    "\<exists>p rest. es = p # rest \<and> p ! 0 = ENTRY_FILE \<and> nat (uint (p ! 1)) = length rest \<and>
      read_set (simple_upper up) p rest = Some (record_of i)"
proof -
  obtain full where full: "utf16_le (n_name i) = Inr full"
    using assms by (auto simp: file_entry_set_def result_simps)
  define encoded where "encoded = take 510 full"
  define n where "n = min 255 (length (name_units (n_name i)))"
  have enc: "length encoded = 2 * n" "units_of encoded = take 255 (name_units (n_name i))"
    using encoded_name [OF full] by (simp_all add: encoded_def n_def)
  define k where "k = max 1 ((n + 14) div 15)"
  have count: "max 1 ((int n + 14) div 15) = int k"
    by (simp add: k_def of_nat_max zdiv_int)
  obtain p s c where p: "primary_entry i (int k) = Inr p"
    and s: "stream_entry up i encoded (int n) = Inr s"
    and c: "pack 2 (entry_checksum (concat (p # s # name_entries encoded))) = Inr c"
    and es: "es = splice 2 c p # s # name_entries encoded"
    using assms enc(1) unfolding file_entry_set_def full rbind_Inr Let_def
    by (auto simp: result_simps count simp flip: encoded_def)
  note pf = primary_entry_fields [OF p] and sf = stream_entry_fields [OF s]
    and nf = name_entries_spec [OF enc(1)]
  let ?raw = "concat (p # s # name_entries encoded)"
  have c': "c = le_bytes 2 (entry_checksum ?raw)" "length c = 2" using c by (simp_all add: result_simps)
  have lp: "length (splice 2 c p) = 32" using c'(2) pf(1) by simp
  then show "list_all (\<lambda>d. length d = 32) es" using es sf(1) nf(1) by (simp add: list_all_iff)
  show "length es = set_size i" using nf(3) by (simp add: es set_size_def n_def)
  have raw: "concat (splice 2 c p # s # name_entries encoded) = splice 2 c ?raw"
    using c'(2) pf(1) by (simp add: splice_def)
  have sum: "field 2 2 (splice 2 c p) = entry_checksum (concat (splice 2 c p # s # name_entries encoded))"
  proof -
    have "entry_checksum (splice 2 c ?raw) = entry_checksum ?raw"
      using c'(2) pf(1) by (intro entry_checksum_stored) simp_all
    moreover have "field 2 2 (splice 2 c p) = entry_checksum ?raw"
      using c' pf(1) entry_checksum_range [of ?raw]
      by (simp add: field_def buffer_simps u16.dec_enc)
    ultimately show ?thesis by (simp only: raw)
  qed
  have keep: "field off w (splice 2 c p) = field off w p" if "4 \<le> off" for off w
    using that c'(2) pf(1) by (simp add: field_def buffer_simps)
  have keep_nth: "splice 2 c p ! j = p ! j" if "j < 2 \<or> 4 \<le> j" "j < 32" for j
    using that c'(2) pf(1) by (auto simp: nth_splice)
  have len: "nat (2 * int n) = 2 * n"
    and room: "min (length (concat (map (slice 2 30) (name_entries encoded)))) (2 * n) = 2 * n"
    using arg_cong [OF nf(2), of length] enc(1) by simp_all
  have "read_set (simple_upper up) (splice 2 c p) (s # name_entries encoded) = Some (record_of i)"
    using sum sf nf enc pf(4-7)
    by (simp add: read_set_def Let_def len room keep keep_nth record_of_def list_all_iff)
  moreover have "nat (uint (splice 2 c p ! 1)) = length (s # name_entries encoded)"
    using pf(3) nf(3) by (simp add: keep_nth k_def)
  ultimately show "\<exists>p rest. es = p # rest \<and> p ! 0 = ENTRY_FILE \<and> nat (uint (p ! 1)) = length rest \<and>
      read_set (simple_upper up) p rest = Some (record_of i)"
    using es pf(2) by (simp add: keep_nth)
qed

section \<open>Directories\<close>

definition total_entries :: "node \<Rightarrow> bool \<Rightarrow> nat" where
  \<comment> \<open>the entries \<open>directory_bytes\<close> writes, the end marker included\<close>
  "total_entries n is_root =
     (if is_root then 3 else 0) + sum_list (map (\<lambda>c. set_size (info c)) (children n)) + 1"

lemma entry_types [simp]:
  "ENTRY_FILE \<noteq> 0" "ENTRY_BITMAP \<noteq> 0" "ENTRY_UPCASE \<noteq> 0" "ENTRY_VOLUME_LABEL \<noteq> 0"
  "ENTRY_BITMAP \<noteq> ENTRY_FILE" "ENTRY_UPCASE \<noteq> ENTRY_FILE" "ENTRY_VOLUME_LABEL \<noteq> ENTRY_FILE"
  "ENTRY_FILE \<noteq> ENTRY_BITMAP" "ENTRY_FILE \<noteq> ENTRY_UPCASE" "ENTRY_FILE \<noteq> ENTRY_VOLUME_LABEL"
  "ENTRY_END = 0"
  by (simp_all add: const_defs)

lemma read_entries_end: "read_entries upcase (replicate 32 0 # es) = Some []"
  by (simp add: read_entries.simps)

lemma read_entries_set:
  assumes "p ! 0 = ENTRY_FILE" "nat (uint (p ! 1)) = length rest" "read_set upcase p rest = Some r"
  shows "read_entries upcase (p # rest @ es) = map_option ((#) r) (read_entries upcase es)"
  using assms by (simp add: read_entries.simps(2) [of upcase p])

lemma read_entries_system:
  assumes "list_all (\<lambda>e. e ! 0 \<in> {ENTRY_BITMAP, ENTRY_UPCASE, ENTRY_VOLUME_LABEL}) system"
  shows "read_entries upcase (system @ es) = read_entries upcase es"
  using assms by (induction system) (auto simp: read_entries.simps)

lemma read_entries_sets:
  assumes "mapr (\<lambda>c. file_entry_set up (info c)) cs = Inr sets"
  shows "read_entries (simple_upper up) (concat sets @ replicate 32 0 # es) =
    Some (map (\<lambda>c. record_of (info c)) cs)"
  using assms
proof (induction cs arbitrary: sets)
  case Nil
  then show ?case by (simp add: read_entries_end)
next
  case (Cons c cs)
  then obtain set sets' where set: "file_entry_set up (info c) = Inr set"
      "mapr (\<lambda>c. file_entry_set up (info c)) cs = Inr sets'" "sets = set # sets'"
    by (auto simp: result_simps)
  obtain p rest where "set = p # rest" "p ! 0 = ENTRY_FILE" "nat (uint (p ! 1)) = length rest"
      "read_set (simple_upper up) p rest = Some (record_of (info c))"
    using file_entry_set_read(3) [OF set(1)] by blast
  then show ?case using Cons.IH [OF set(2)] by (simp add: set(3) read_entries_set)
qed

lemma sets_shape:
  assumes "mapr (\<lambda>c. file_entry_set up (info c)) cs = Inr sets"
  shows "list_all (\<lambda>d. length d = 32) (concat sets)"
    "length (concat sets) = sum_list (map (\<lambda>c. set_size (info c)) cs)"
  using assms
  by (induction cs arbitrary: sets) (auto simp: result_simps file_entry_set_read)

lemma root_entries_shape:
  assumes "root_entries up label bc bl uc ul = Inr system"
  shows "length system = 3" "list_all (\<lambda>d. length d = 32) system"
    "list_all (\<lambda>e. e ! 0 \<in> {ENTRY_BITMAP, ENTRY_UPCASE, ENTRY_VOLUME_LABEL}) system"
    "field 20 4 (system ! 1) = bc" "field 24 8 (system ! 1) = bl"
    "field 20 4 (system ! 2) = uc" "field 24 8 (system ! 2) = ul"
    "\<exists>table. upcase_table up = Inr table \<and> field 4 4 (system ! 2) = rotate_checksum table"
proof -
  obtain a b c where system: "system = [a, b, c]"
    and a: "label_entry label = Inr a" and b: "bitmap_entry bc bl = Inr b"
    and c: "upcase_entry up uc ul = Inr c"
    using assms by (auto simp: root_entries_def result_simps)
  obtain lb where lb: "a = splice 2 (take 22 lb) (splice 1 [word_of_int (min (int (length lb) div 2) 11)]
      (splice 0 [ENTRY_VOLUME_LABEL] (replicate 32 0)))"
    using a by (auto simp: label_entry_def Let_def result_simps)
  have a': "length a = 32" "a ! 0 = ENTRY_VOLUME_LABEL" by (simp_all add: lb nth_splice)
  have b': "length b = 32" "b ! 0 = ENTRY_BITMAP" "field 20 4 b = bc" "field 24 8 b = bl"
    using b by (auto simp: bitmap_entry_def Let_def result_simps nth_splice field_def buffer_simps
        u32.dec_enc u64.dec_enc)
  obtain table where table: "upcase_table up = Inr table"
    using c by (auto simp: upcase_entry_def result_simps)
  have c': "length c = 32" "c ! 0 = ENTRY_UPCASE" "field 20 4 c = uc" "field 24 8 c = ul"
      "field 4 4 c = rotate_checksum table"
    using c rotate_checksum_range [of table]
    by (auto simp: upcase_entry_def Let_def table result_simps nth_splice field_def buffer_simps
        u32.dec_enc u64.dec_enc)
  show "length system = 3" "list_all (\<lambda>d. length d = 32) system"
    "list_all (\<lambda>e. e ! 0 \<in> {ENTRY_BITMAP, ENTRY_UPCASE, ENTRY_VOLUME_LABEL}) system"
    "field 20 4 (system ! 1) = bc" "field 24 8 (system ! 1) = bl"
    "field 20 4 (system ! 2) = uc" "field 24 8 (system ! 2) = ul"
    "\<exists>table. upcase_table up = Inr table \<and> field 4 4 (system ! 2) = rotate_checksum table"
    using a' b' c' table by (simp_all add: system)
qed

lemma sum_list_sort_key: "sum_list (map f (sort_key g xs)) = sum_list (map f xs)"
  for f :: "'a \<Rightarrow> nat"
proof -
  have "sum_list (map f (insort_key g x xs)) = f x + sum_list (map f xs)" for x xs
    by (induction xs) simp_all
  then show ?thesis by (induction xs) simp_all
qed

lemma directory_bytes_spec:
  assumes "directory_bytes up label n is_root bc bl uc ul = Inr bs"
  shows "read_directory (simple_upper up) bs = Some (map (\<lambda>c. record_of (info c)) (sorted_children n))"
    "length bs = nat (ceil_div (int (total_entries n is_root) * 32) 131072 * 131072)"
proof -
  obtain system sets where
    sys: "(if is_root then root_entries up label bc bl uc ul else Inr []) = Inr system"
    and sets: "mapr (\<lambda>child. file_entry_set up (info child)) (sorted_children n) = Inr sets"
    and bs: "bs = (let result = concat (system @ concat sets @ [replicate 32 0])
      in ljust (nat (max 32 ((int (length result) + 131072 - 1) div 131072 * 131072))) result)"
    using assms by (auto simp: directory_bytes_def Let_def result_simps)
  define es where "es = system @ concat sets @ [replicate 32 0]"
  have system: "list_all (\<lambda>d. length d = 32) system" "length system = (if is_root then 3 else 0)"
    "list_all (\<lambda>e. e ! 0 \<in> {ENTRY_BITMAP, ENTRY_UPCASE, ENTRY_VOLUME_LABEL}) system"
    using sys root_entries_shape by (auto split: if_splits)
  have es: "list_all (\<lambda>d. length d = 32) es" "length es = total_entries n is_root"
    using system sets_shape [OF sets]
    by (simp_all add: es_def total_entries_def sorted_children_def sum_list_sort_key)
  have len: "length (concat es) = 32 * length es"
    using es(1) by (induction es) simp_all
  have "1 \<le> length es" by (simp add: es_def)
  then have "0 < ceil_div (int (length es) * 32) 131072" by (intro ceil_div_pos) auto
  then have max: "max 32 (ceil_div (int (length es) * 32) 131072 * 131072) =
      ceil_div (int (length es) * 32) 131072 * 131072" by simp
  have bs': "bs = ljust (nat (ceil_div (int (length es) * 32) 131072 * 131072)) (concat es)"
    using bs max by (simp add: es_def [symmetric] Let_def len ceil_div_def mult.commute)
  moreover have "int (length es) * 32 \<le> ceil_div (int (length es) * 32) 131072 * 131072"
    by (rule ceil_div_ge) simp
  ultimately show lbs: "length bs = nat (ceil_div (int (total_entries n is_root) * 32) 131072 * 131072)"
    by (simp add: len es(2))
  obtain pad where pad: "bs = concat es @ pad" by (simp add: bs' ljust_def)
  then have "length bs div 32 = length es + length pad div 32" by (simp add: len)
  moreover have "chunks 32 (length es) bs = es" using chunks_concat [OF es(1)] by (simp add: pad)
  ultimately obtain more where "chunks 32 (length bs div 32) bs = es @ more"
    using chunks_append [of 32 "length es" "length pad div 32" bs] by auto
  then show "read_directory (simple_upper up) bs = Some (map (\<lambda>c. record_of (info c)) (sorted_children n))"
    using read_entries_sets [OF sets, of more]
    by (simp add: read_directory_def es_def read_entries_system [OF system(3)])
qed

end
