(* ===== verification/DirectorySize.thy ===== *)
theory DirectorySize
  imports DirectoryRead
begin

text \<open>
  Encoding succeeds whenever names are valid Unicode and the numbers fit their fields, and
  how many clusters a directory takes, compared with what \<open>_directory_cluster_count\<close>
  reserves for it: the count forgets one entry per child.
\<close>

section \<open>Encoding is total on valid input\<close>

definition upper_ok :: "(int \<Rightarrow> pystr) \<Rightarrow> bool" where
  \<comment> \<open>\<open>str.upper\<close> returns code points\<close>
  "upper_ok up \<longleftrightarrow> (\<forall>c. 0 \<le> c \<longrightarrow> list_all (\<lambda>u. 0 \<le> u) (up c))"

lemma simple_upper_range:
  assumes "upper_ok up" "0 \<le> c" "c < 65536"
  shows "0 \<le> simple_upper up c \<and> simple_upper up c < 65536"
proof -
  have "list_all (\<lambda>u. 0 \<le> u) (up c)" using assms(1,2) by (simp add: upper_ok_def)
  then show ?thesis using assms(2,3) by (cases "up c") (auto simp: simple_upper_def Let_def)
qed

lemma upcase_table_total:
  assumes "upper_ok up"
  shows "\<exists>table. upcase_table up = Inr table \<and> length table = 131072"
proof -
  have "mapr (\<lambda>c. pack 2 (simple_upper up c)) [0..65535] =
      Inr (map (\<lambda>c. le_bytes 2 (simple_upper up c)) [0..65535])"
    by (rule mapr_pure) (use simple_upper_range [OF assms] in \<open>simp add: pack_def\<close>)
  moreover have "length (concat (map (\<lambda>c. le_bytes 2 (simple_upper up c)) cs)) = 2 * length cs" for cs
    by (induction cs) simp_all
  ultimately show ?thesis by (simp add: upcase_table_def)
qed

lemma name_hash_from_total:
  assumes "upper_ok up" "even (length enc)"
  shows "\<exists>h. name_hash_from (simple_upper up) enc v = Inr h"
  using assms(2)
proof (induction "simple_upper up" enc v rule: name_hash_from.induct)
  case (3 b0 b1 rest v)
  have "le_val [b0, b1] \<ge> 0" "le_val [b0, b1] < 65536"
    using le_val_bounds [of "[b0, b1]"] by simp_all
  from simple_upper_range [OF assms(1) this]
  have "pack 2 (simple_upper up (le_val [b0, b1])) = Inr (le_bytes 2 (simple_upper up (le_val [b0, b1])))"
    by (simp add: pack_def)
  then show ?case using 3 by simp
qed auto

lemma name_hash_range: "name_hash upc enc = Inr h \<Longrightarrow> 0 \<le> h \<and> h < 65536"
  unfolding name_hash_def by (rule name_hash_from_range) auto

definition encodable :: "node_info \<Rightarrow> bool" where
  "encodable i \<longleftrightarrow>
     list_all scalar (n_name i) \<and>
     0 \<le> data_length_of i \<and> data_length_of i < 2 ^ 64 \<and>
     0 \<le> n_first_cluster i \<and> n_first_cluster i < 2 ^ 32"

lemma primary_entry_total: "0 \<le> k \<Longrightarrow> k < 255 \<Longrightarrow> \<exists>p. primary_entry i k = Inr p"
proof -
  assume k: "0 \<le> k" "k < 255"
  obtain cd ct ci where c: "exfat_timestamp (n_created_ns i) = (cd, ct, ci)" by (cases rule: prod_cases3)
  obtain md mt mi where m: "exfat_timestamp (n_modified_ns i) = (md, mt, mi)" by (cases rule: prod_cases3)
  obtain ad at ai where a: "exfat_timestamp (n_accessed_ns i) = (ad, at, ai)" by (cases rule: prod_cases3)
  show ?thesis
    using k exfat_timestamp_fields(2-) [OF c] exfat_timestamp_fields(2-) [OF m]
      exfat_timestamp_fields(2-) [OF a]
    by (simp add: primary_entry_def put_timestamps_def c m a Let_def set_byte_Inr pack_into_Inr)
qed

lemma file_entry_set_total:
  assumes "upper_ok up" "encodable i"
  shows "\<exists>es. file_entry_set up i = Inr es"
proof -
  obtain full where full: "utf16_le (n_name i) = Inr full"
    using assms(2) by (simp add: encodable_def utf16_le_Inr_iff)
  define encoded where "encoded = take 510 full"
  define n where "n = min 255 (length (name_units (n_name i)))"
  have enc: "length encoded = 2 * n" using encoded_name(1) [OF full] by (simp add: encoded_def n_def)
  have n: "n \<le> 255" by (simp add: n_def)
  have count: "max 1 ((int n + 14) div 15) < 255" using n by auto
  obtain p where p: "primary_entry i (max 1 ((int n + 14) div 15)) = Inr p"
    using primary_entry_total [OF _ count, of i] by fastforce
  obtain h where h: "name_hash (simple_upper up) encoded = Inr h"
    using name_hash_from_total [OF assms(1), of encoded] enc by (auto simp: name_hash_def)
  obtain s where s: "stream_entry up i encoded (int n) = Inr s"
    using h name_hash_range [OF h] n assms(2)
    by (auto simp: stream_entry_def Let_def set_byte_Inr pack_into_Inr encodable_def)
  have "pack 2 (entry_checksum raw) = Inr (le_bytes 2 (entry_checksum raw))" for raw
    using entry_checksum_range [of raw] by (simp add: pack_def)
  moreover have "min (length full) 510 = 2 * n" using enc by (simp add: encoded_def)
  ultimately show ?thesis
    using full p s by (simp add: file_entry_set_def Let_def flip: encoded_def)
qed

lemma root_entries_total:
  assumes "upper_ok up" "list_all scalar label" "0 \<le> bc" "bc < 2 ^ 32" "0 \<le> bl" "bl < 2 ^ 64"
    "0 \<le> uc" "uc < 2 ^ 32" "0 \<le> ul" "ul < 2 ^ 64"
  shows "\<exists>system. root_entries up label bc bl uc ul = Inr system"
proof -
  obtain table where "upcase_table up = Inr table" using upcase_table_total [OF assms(1)] by blast
  moreover obtain lb where "utf16_le label = Inr lb" using assms(2) by (simp add: utf16_le_Inr_iff)
  ultimately show ?thesis
    using assms(3-) rotate_checksum_range [of table]
    by (simp add: root_entries_def label_entry_def bitmap_entry_def upcase_entry_def Let_def
        set_byte_Inr pack_into_Inr)
qed

lemma directory_bytes_total:
  assumes "upper_ok up" "list_all (\<lambda>c. encodable (info c)) (children n)"
    and "is_root \<Longrightarrow> \<exists>system. root_entries up label bc bl uc ul = Inr system"
  shows "\<exists>bs. directory_bytes up label n is_root bc bl uc ul = Inr bs"
proof -
  have "\<exists>sets. mapr (\<lambda>c. file_entry_set up (info c)) (sorted_children n) = Inr sets"
    using assms(2) by (intro mapr_total file_entry_set_total assms(1))
      (auto simp: sorted_children_def list_all_iff)
  then show ?thesis using assms(3) by (cases is_root) (auto simp: directory_bytes_def Let_def)
qed

section \<open>Clusters reserved and clusters written\<close>

definition name_ok :: "pystr \<Rightarrow> bool" where
  "name_ok name \<longleftrightarrow> list_all scalar name \<and> name \<noteq> [] \<and> length (name_units name) \<le> 255"

lemma entry_count_total:
  assumes "list_all (\<lambda>c. name_ok (n_name (info c))) (children n)"
  shows "entry_count n = Inr (int (total_entries n (n_virtual_path (info n) = [])) - int (length (children n)))"
proof -
  let ?f = "\<lambda>c. 1 + (int (length (name_units (n_name (info c)))) + 14) div 15"
  have "mapr (\<lambda>child. rbind (utf16_le (n_name (info child))) (\<lambda>e.
      Inr (1 + (int (length e) div 2 + 14) div 15))) (children n) = Inr (map ?f (children n))"
  proof (rule mapr_pure)
    fix c assume "c \<in> set (children n)"
    then have "list_all scalar (n_name (info c))" using assms by (auto simp: list_all_iff name_ok_def)
    then obtain e where e: "utf16_le (n_name (info c)) = Inr e" by (simp add: utf16_le_Inr_iff)
    then show "rbind (utf16_le (n_name (info c))) (\<lambda>e. Inr (1 + (int (length e) div 2 + 14) div 15)) =
        Inr (?f c)"
      by (simp add: utf16_le_length [OF e])
  qed
  moreover have "sum_list (map ?f cs) + int (length cs) =
      int (sum_list (map (\<lambda>c. set_size (info c)) cs))"
    if "list_all (\<lambda>c. name_ok (n_name (info c))) cs" for cs
    using that
  proof (induction cs)
    case (Cons c cs)
    define u where "u = length (name_units (n_name (info c)))"
    have "u \<le> 255" "u \<noteq> 0" using Cons.prems by (auto simp: u_def name_ok_def)
    then have "set_size (info c) = 2 + (u + 14) div 15" by (auto simp: set_size_def u_def [symmetric])
    then have "?f c + 1 = int (set_size (info c))"
      by (simp add: zdiv_int flip: u_def)
    then show ?case using Cons by simp
  qed simp
  ultimately show ?thesis
    using assms by (simp add: entry_count_def total_entries_def algebra_simps)
qed

lemma directory_cluster_count_eq:
  assumes "list_all (\<lambda>c. name_ok (n_name (info c))) (children n)"
  shows "directory_cluster_count n =
    Inr (ceil_div (32 * (int (total_entries n (n_virtual_path (info n) = [])) - int (length (children n)))) 131072)"
proof -
  let ?c = "int (total_entries n (n_virtual_path (info n) = [])) - int (length (children n))"
  have "2 * length cs \<le> sum_list (map (\<lambda>c. set_size (info c)) cs)" for cs
    by (induction cs) (simp_all add: set_size_def)
  from this [of "children n"] have "0 < ?c" by (simp add: total_entries_def)
  then have "0 < ceil_div (32 * ?c) 131072" by (intro ceil_div_pos) auto
  then show ?thesis
    using entry_count_total [OF assms]
    by (simp add: directory_cluster_count_def ceil_div_def mult.commute)
qed

definition fits :: "node \<Rightarrow> bool" where
  \<comment> \<open>what is written does not exceed what is reserved\<close>
  "fits n \<longleftrightarrow>
     (\<exists>k. directory_cluster_count n = Inr k \<and>
          ceil_div (32 * int (total_entries n (n_virtual_path (info n) = []))) 131072 \<le> k)"

text \<open>One cluster has 4096 entries. Small directories fit; above 1365 short names they may not.\<close>

lemma small_directory_fits:
  assumes "list_all (\<lambda>c. name_ok (n_name (info c))) (children n)"
    and "total_entries n (n_virtual_path (info n) = []) \<le> 4096"
  shows "fits n"
proof -
  let ?t = "int (total_entries n (n_virtual_path (info n) = []))"
  have "2 * length cs \<le> sum_list (map (\<lambda>c. set_size (info c)) cs)" for cs
    by (induction cs) (simp_all add: set_size_def)
  from this [of "children n"] have "0 < ?t - int (length (children n))"
    by (simp add: total_entries_def)
  then have "1 \<le> ceil_div (32 * (?t - int (length (children n)))) 131072"
    using ceil_div_pos [of 131072 "32 * (?t - int (length (children n)))"] by simp
  moreover have "ceil_div (32 * ?t) 131072 \<le> 1" using assms(2) by (subst ceil_div_le_iff) auto
  ultimately show ?thesis
    unfolding fits_def directory_cluster_count_eq [OF assms(1)] by simp
qed

lemma short_names_overflow:
  assumes "list_all (\<lambda>c. name_ok (n_name (info c)) \<and> length (name_units (n_name (info c))) \<le> 15) (children n)"
    and "1366 \<le> length (children n)" "length (children n) \<le> 2047" "n_virtual_path (info n) \<noteq> []"
  shows "directory_cluster_count n = Inr 1"
    "ceil_div (32 * int (total_entries n False)) 131072 = 2"
proof -
  let ?k = "length (children n)"
  have "sum_list (map (\<lambda>c. set_size (info c)) cs) = 3 * length cs"
    if "list_all (\<lambda>c. name_ok (n_name (info c)) \<and> length (name_units (n_name (info c))) \<le> 15) cs" for cs
    using that
  proof (induction cs)
    case (Cons c cs)
    define u where "u = length (name_units (n_name (info c)))"
    have "u \<le> 15" "u \<noteq> 0" using Cons.prems by (auto simp: u_def name_ok_def)
    then have "set_size (info c) = 3" by (auto simp: set_size_def u_def [symmetric])
    then show ?case using Cons by simp
  qed simp
  then have t: "total_entries n False = 3 * ?k + 1" using assms(1) by (simp add: total_entries_def)
  have "list_all (\<lambda>c. name_ok (n_name (info c))) (children n)" using assms(1) by (auto simp: list_all_iff)
  from directory_cluster_count_eq [OF this]
  have "directory_cluster_count n = Inr (ceil_div (32 * (2 * int ?k + 1)) 131072)"
    using assms(4) t by simp
  moreover have "ceil_div (32 * (2 * int ?k + 1)) 131072 = 1"
    using assms(2,3) by (simp add: ceil_div_def)
  ultimately show "directory_cluster_count n = Inr 1" by simp
  show "ceil_div (32 * int (total_entries n False)) 131072 = 2"
    using assms(2,3) by (simp add: t ceil_div_def)
qed

lemma ceil_entries: "ceil_div (32 * n) 131072 = (n + 4095) div 4096"
proof -
  have "(32 * n + 131071) div 131072 = (32 * n + 131071) div 32 div 4096" using zdiv_zmult2_eq [of 4096 "32 * n + 131071" 32] by simp
  also have "(32 * n + 131071) div 32 = n + 4095" by simp
  finally show ?thesis by (simp add: ceil_div_def)
qed

lemma directory_room:
  assumes "list_all (\<lambda>c. name_ok (n_name (info c))) (children n)"
  shows "int (length (children n)) < int (total_entries n (n_virtual_path (info n) = []))"
    "directory_cluster_count n = Inr
      ((int (total_entries n (n_virtual_path (info n) = [])) - int (length (children n)) + 4095) div 4096)"
proof -
  have "2 * length cs \<le> sum_list (map (\<lambda>c. set_size (info c)) cs)" for cs
    by (induction cs) (simp_all add: set_size_def)
  from this [of "children n"] show "int (length (children n)) < int (total_entries n (n_virtual_path (info n) = []))"
    by (simp add: total_entries_def)
  show "directory_cluster_count n = Inr
      ((int (total_entries n (n_virtual_path (info n) = [])) - int (length (children n)) + 4095) div 4096)"
    by (simp only: directory_cluster_count_eq [OF assms] ceil_entries)
qed

end
