(* ===== verification/BuilderImage.thy ===== *)
theory BuilderImage
  imports BuilderMetadata DirectorySize
begin

text \<open>
  The image of a build. Every sector of the volume belongs to one thing: the boot regions,
  the FAT, the bitmap, the upcase table, a directory or a file. For a build whose
  directories fit their clusters, the sectors of a directory hold the bytes encoded for it
  and the sectors of a file its contents.
\<close>

section \<open>Valid builders\<close>

definition builder_ok :: "builder \<Rightarrow> bool" where
  "builder_ok b \<longleftrightarrow>
     bd_total_bytes b = 512 * bd_total_sectors b \<and>
     24 < bd_total_sectors b \<and> bd_total_sectors b \<le> 2047 * 2 ^ 21"

lemma new_builder_ok:
  assumes "new_builder c = Inr b" "image_size_bytes c \<le> 2047 * 2 ^ 30"
  shows "builder_ok b" "bd_config b = c"
proof -
  have b: "bd_total_bytes b = image_size_bytes c" "bd_total_sectors b = image_size_bytes c div 512"
      "image_size_bytes c mod 512 = 0" "24 < image_size_bytes c div 512" and c: "bd_config b = c"
    using assms(1) by (auto simp: new_builder_def Let_def split: if_splits)
  have "image_size_bytes c div 512 \<le> 2047 * 2 ^ 30 div 512" using assms(2) by (rule zdiv_mono1) simp
  then show "builder_ok b" using b by (auto simp: builder_ok_def)
  show "bd_config b = c" by (rule c)
qed

section \<open>Clusters and sectors\<close>

definition cluster_of :: "exfat_layout \<Rightarrow> int \<Rightarrow> int" where
  "cluster_of l s = 2 + (s - cluster_heap_offset l) div 256"

lemma cluster_of_iff:
  "a \<le> cluster_of l s \<and> cluster_of l s < b \<longleftrightarrow>
     cluster_heap_offset l + (a - 2) * 256 \<le> s \<and> s < cluster_heap_offset l + (b - 2) * 256"
proof -
  have "a \<le> cluster_of l s \<longleftrightarrow> a - 2 \<le> (s - cluster_heap_offset l) div 256"
    by (auto simp: cluster_of_def)
  also have "\<dots> \<longleftrightarrow> \<not> (s - cluster_heap_offset l) div 256 < a - 2" by auto
  also have "\<dots> \<longleftrightarrow> \<not> s - cluster_heap_offset l < (a - 2) * 256" by (simp add: int_div_less_iff)
  finally have "a \<le> cluster_of l s \<longleftrightarrow> cluster_heap_offset l + (a - 2) * 256 \<le> s" by auto
  moreover have "cluster_of l s < b \<longleftrightarrow> (s - cluster_heap_offset l) div 256 < b - 2"
    by (auto simp: cluster_of_def)
  then have "cluster_of l s < b \<longleftrightarrow> s < cluster_heap_offset l + (b - 2) * 256"
    by (simp add: int_div_less_iff) linarith
  ultimately show ?thesis by blast
qed

lemma disjoint_runs_unique:
  assumes "disjoint_runs rs" "(s, n) \<in> set rs" "(s', n') \<in> set rs"
    and "s \<le> c" "c < s + n" "s' \<le> c" "c < s' + n'"
  shows "s = s' \<and> n = n'"
  using find_run [OF assms(1,2,4,5)] find_run [OF assms(1,3,6,7)] by simp

lemma disjoint_runs_distinct: "disjoint_runs rs \<Longrightarrow> distinct (map fst rs)"
proof (induction rs)
  case (Cons r rs)
  obtain s n where r: "r = (s, n)" by fastforce
  have "disjoint_runs rs" "0 < n" using Cons.prems r by (auto simp: disjoint_runs_def)
  moreover have "s < t" if "(t, m) \<in> set rs" for t m
    using Cons.prems that r \<open>0 < n\<close> by (fastforce simp: disjoint_runs_def)
  ultimately show ?case using Cons.IH r by fastforce
qed simp

section \<open>Regions stay inside their runs\<close>

definition all_fit :: "node \<Rightarrow> bool" where
  \<comment> \<open>every directory's bytes fit the clusters reserved for it\<close>
  "all_fit root \<longleftrightarrow> list_all (\<lambda>n. n_is_directory (info n) \<longrightarrow> fits n) (walk [root])"

lemma directory_bytes_fit:
  assumes "directory_bytes up label n is_root bc bl uc ul = Inr d"
    and "is_root \<longrightarrow> n_virtual_path (info n) = []"
    and "fits n" "directory_cluster_count n = Inr k"
  shows "int (length d) \<le> k * 131072" "0 < length d"
proof -
  let ?t = "total_entries n (n_virtual_path (info n) = [])"
  have len: "length d = nat (ceil_div (int (total_entries n is_root) * 32) 131072 * 131072)"
    by (rule directory_bytes_spec [OF assms(1)])
  have "0 < ceil_div (int (total_entries n is_root) * 32) 131072"
    by (intro ceil_div_pos) (auto simp: total_entries_def)
  with len show "0 < length d" by simp
  have "total_entries n is_root \<le> ?t" using assms(2) by (auto simp: total_entries_def)
  then have "ceil_div (int (total_entries n is_root) * 32) 131072 \<le> ceil_div (32 * int ?t) 131072"
    by (intro ceil_div_mono) auto
  also have "\<dots> \<le> k" using assms(3,4) by (auto simp: fits_def)
  finally have "ceil_div (int (total_entries n is_root) * 32) 131072 \<le> k" .
  with len \<open>0 < length d\<close> show "int (length d) \<le> k * 131072" by simp
qed

text \<open>A build of a well-formed scanned tree whose directories fit.\<close>

definition volume :: "(int \<Rightarrow> pystr) \<Rightarrow> builder \<Rightarrow> node \<Rightarrow> node \<Rightarrow> int \<Rightarrow> exfat_layout \<Rightarrow> bool" where
  "volume up b root0 root next l \<longleftrightarrow>
     built up b root0 root next l \<and>
     tree_ok [root0] \<and> n_is_directory (info root0) \<and> n_virtual_path (info root0) = [] \<and>
     builder_ok b \<and> all_fit root"

lemma volumeD:
  assumes "volume up b root0 root next l"
  shows "built up b root0 root next l" "tree_ok [root0]" "n_is_directory (info root0)"
    "n_virtual_path (info root0) = []" "builder_ok b" "all_fit root"
  using assms by (simp_all add: volume_def)

lemmas volume_room = built_room [OF volumeD(1)]

lemma layout_fields:
  assumes v: "volume up b root0 root next l"
  shows "total_bytes l = 512 * total_sectors l" "total_sectors l = bd_total_sectors b"
  "partition_start_lba l = 0" "bitmap_cluster l = 2" "bitmap_length l = (cluster_count l + 7) div 8"
  "upcase_cluster l = 2 + clusters_of (bitmap_length l)"
  using volumeD(5) [OF v] builtD(2-7) [OF volumeD(1) [OF v]] by (simp_all add: builder_ok_def)

lemma placed_root:
  assumes v: "volume up b root0 root next l"
  shows "place_all root0 (upcase_cluster l + 1) = Inr (root, next, file_mappings l)"
  using volumeD(1) [OF v] unfolding built_def by blast

lemma root_fields:
  assumes v: "volume up b root0 root next l"
  shows "n_is_directory (info root)" "n_virtual_path (info root) = []" "tree_ok [root]"
proof -
  have e: "erase root = erase root0" by (rule place_all_spec(1) [OF placed_root [OF v]])
  have "unplaced (info root) = unplaced (info root0)" using arg_cong [OF e, of info] by simp
  then show "n_is_directory (info root)" "n_virtual_path (info root) = []"
    using volumeD(3,4) [OF v] by (auto dest: unplaced_eqD)
  show "tree_ok [root]" using volumeD(2) [OF v] tree_ok_erase_eq [OF e] by simp
qed

lemma walk_root:
  assumes v: "volume up b root0 root next l"
  shows "walk [root] = root # walk (children root)"
  using root_fields(1) [OF v] by (simp add: walk_Cons)

lemma dir_counts:
  assumes v: "volume up b root0 root next l"
    and "n \<in> set (walk [root])" "n_is_directory (info n)"
  shows "directory_cluster_count n = Inr (n_cluster_count (info n))"
  using place_all_spec(5) [OF placed_root [OF v]] assms(2,3) by (auto simp: list_all_iff)

lemma dir_run:
  assumes v: "volume up b root0 root next l"
    and "n \<in> set (walk [root])" "n_is_directory (info n)"
  shows "(n_first_cluster (info n), n_cluster_count (info n)) \<in> set (allocated_ranges l)"
proof -
  have "info n \<in> set (dir_infos root)" using assms(2,3) by (simp add: dir_infos_def)
  then have "run_of (info n) \<in> set (map run_of (dir_infos root))" by simp
  then show ?thesis by (simp add: built_allocation(1) [OF volumeD(1,2) [OF v]] run_of_def [of "info n"])
qed

lemma metadata_regions:
  assumes v: "volume up b root0 root next l"
  shows "\<exists>boot rs. put_boot_regions b [] (fat_offset l) (fat_length l) (cluster_heap_offset l)
       (cluster_count l) (n_first_cluster (info root)) = Inr boot \<and>
     regions up (cf_label (bd_config b)) (bitmap_length l) (upcase_cluster l) root = Inr rs \<and>
     metadata l = put_regions (cluster_heap_offset l) rs boot \<and>
     (\<exists>upcase. upcase_table up = Inr upcase \<and> upcase_length l = int (length upcase))"
  using volumeD(1) [OF v] unfolding built_def by (intro build_metadata_regions) blast

lemma upcase_table_length: "upcase_table up = Inr table \<Longrightarrow> length table = 131072"
proof -
  assume "upcase_table up = Inr table"
  then obtain ds where ds: "mapr (\<lambda>c. pack 2 (simple_upper up c)) [0..65535] = Inr ds" "table = concat ds"
    by (auto simp: upcase_table_def result_simps)
  have "list_all (\<lambda>d. length d = 2) ds" by (rule mapr_list_all [OF ds(1)]) (auto simp: result_simps)
  moreover have "length (concat ds) = 2 * length ds" if "list_all (\<lambda>d. length d = 2) ds" for ds :: "bytes list"
    using that by (induction ds) auto
  ultimately show ?thesis using mapr_Inr_length [OF ds(1)] ds(2) by simp
qed

text \<open>Every region lies in the run of its cluster, and no two regions share a first cluster.\<close>

lemma regions_in_runs:
  assumes v: "volume up b root0 root next l"
    and "regions up (cf_label (bd_config b)) (bitmap_length l) (upcase_cluster l) root = Inr rs"
  shows "(c, d) \<in> set rs \<Longrightarrow>
      \<exists>n. (c, n) \<in> set (allocated_ranges l) \<and> region_sectors d \<le> n * 256 \<and> 2 < c"
    "distinct (map fst rs)"
proof -
  obtain table root_bytes ds where table: "upcase_table up = Inr table"
    and rb: "directory_bytes up (cf_label (bd_config b)) root True 2 (bitmap_length l) (upcase_cluster l)
        (int (length table)) = Inr root_bytes"
    and ds: "dir_regions up (cf_label (bd_config b)) 2 (bitmap_length l) (upcase_cluster l)
        (int (length table)) (walk (children root)) = Inr ds"
    and rs: "rs = (n_first_cluster (info root), root_bytes) # (upcase_cluster l, table) # ds"
    using assms(2) by (auto simp: regions_def result_simps)
  note dspec = dir_regions_spec [OF ds] and alloc = built_allocation [OF volumeD(1,2) [OF v]] and root_fields = root_fields [OF v]
    and walk_root = walk_root [OF v] and counts = dir_counts [OF v] and dir_run = dir_run [OF v]
    and fit = volumeD(6) [OF v]
  have sectors: "region_sectors d \<le> k * 256" if "int (length d) \<le> k * 131072" "0 < length d" for d k
  proof -
    have "ceil_div (int (length d)) 512 \<le> k * 256" using that(1) by (subst ceil_div_le_iff) auto
    moreover have "0 < ceil_div (int (length d)) 512" using that(2) by (intro ceil_div_pos) auto
    ultimately show ?thesis by (simp add: region_sectors_def)
  qed
  have ge: "2 < c" if "(c, n) \<in> set (allocated_ranges l)" "c \<noteq> 2" for c n
    using contiguous_bounds [OF alloc(2) that(1)] that(2) by simp
  have first: "(2, clusters_of (bitmap_length l)) \<in> set (allocated_ranges l)" by (simp add: alloc(1))
  have dis: "distinct (map fst (allocated_ranges l))" by (rule disjoint_runs_distinct [OF alloc(3)])
  have infos: "dir_infos root = info root # filter n_is_directory (map info (walk (children root)))"
    using root_fields(1) by (simp add: dir_infos_def walk_root del: walk.simps)
  have fsts: "map fst rs = n_first_cluster (info root) # upcase_cluster l #
      map n_first_cluster (filter n_is_directory (map info (walk (children root))))"
    by (simp add: rs dspec(1))
  have all: "map fst (allocated_ranges l) = [2, upcase_cluster l, n_first_cluster (info root)] @
      map n_first_cluster (filter n_is_directory (map info (walk (children root)))) @
      map n_first_cluster (file_infos root)"
    by (simp add: alloc(1) infos run_of_def comp_def)
  show "distinct (map fst rs)" using dis unfolding fsts all by auto
  have not2: "c \<noteq> 2" if "c \<in> set (map fst rs)" for c
    using dis that unfolding fsts all by auto
  show "\<exists>n. (c, n) \<in> set (allocated_ranges l) \<and> region_sectors d \<le> n * 256 \<and> 2 < c"
    if cd: "(c, d) \<in> set rs"
  proof -
    have c2: "c \<noteq> 2" by (rule not2) (use cd in force)
    from cd consider (root) "c = n_first_cluster (info root)" "d = root_bytes"
      | (upcase) "c = upcase_cluster l" "d = table" | (dir) "(c, d) \<in> set ds"
      by (auto simp: rs)
    then show ?thesis
    proof cases
      case root
      have "root \<in> set (walk [root])" by (simp add: walk_root del: walk.simps)
      with root_fields fit counts have "fits root"
          "directory_cluster_count root = Inr (n_cluster_count (info root))"
        by (auto simp: all_fit_def list_all_iff)
      with directory_bytes_fit [OF rb] root_fields sectors root dir_run [OF \<open>root \<in> _\<close>] c2 ge
      show ?thesis by blast
    next
      case upcase
      have "(upcase_cluster l, 1) \<in> set (allocated_ranges l)" by (simp add: alloc(1))
      moreover have "region_sectors table \<le> 1 * 256"
        using upcase_table_length [OF table] by (intro sectors) auto
      ultimately show ?thesis using upcase c2 ge by blast
    next
      case dir
      from dspec(3) [OF dir] obtain n where n: "n \<in> set (walk (children root))" "n_is_directory (info n)"
          "c = n_first_cluster (info n)"
          "directory_bytes up (cf_label (bd_config b)) n False 2 (bitmap_length l) (upcase_cluster l)
            (int (length table)) = Inr d"
        by auto
      then have w: "n \<in> set (walk [root])" by (simp add: walk_root del: walk.simps)
      with n fit counts have "fits n" "directory_cluster_count n = Inr (n_cluster_count (info n))"
        by (auto simp: all_fit_def list_all_iff)
      with directory_bytes_fit [OF n(4)] n sectors dir_run [OF w] c2 ge show ?thesis by blast
    qed
  qed
qed

end
