(* ===== verification/BuilderTotal.thy ===== *)
theory BuilderTotal
  imports BuilderImage
begin

text \<open>
  When a build succeeds: for a scanned tree with valid names and sizes, \<open>build\<close> returns a
  layout exactly when the clusters it needs are there, and otherwise raises the
  \<open>ValueError\<close> the code raises. In particular no \<open>struct.error\<close>, no encoding error
  and no other exception is possible.
\<close>

section \<open>Valid trees\<close>

definition fine :: "node_info \<Rightarrow> bool" where
  "fine i \<longleftrightarrow> name_ok (n_name i) \<and> list_all scalar (n_virtual_path i) \<and> 0 \<le> n_size_bytes i"

definition tree_fine :: "node \<Rightarrow> bool" where
  "tree_fine root \<longleftrightarrow> list_all (\<lambda>n. fine (info n)) (walk (children root))"

definition small_tree :: "node \<Rightarrow> bool" where
  \<comment> \<open>every directory has at most one cluster of entries\<close>
  "small_tree root \<longleftrightarrow> list_all (\<lambda>n. n_is_directory (info n) \<longrightarrow>
     total_entries n (n_virtual_path (info n) = []) \<le> 4096) (walk [root])"

lemma fine_unplaced [simp]: "fine (unplaced i) = fine i"
  by (simp add: fine_def)

lemma erase_kind: "erase r = erase r' \<Longrightarrow> n_is_directory (info r) = n_is_directory (info r')"
  by (metis info_erase unplaced_fields(4))

lemma tree_fine_erase: "erase r = erase r' \<Longrightarrow> tree_fine r = tree_fine r'"
proof -
  assume e: "erase r = erase r'"
  have "map erase (walk (children r)) = map erase (walk (children r'))"
    using arg_cong [OF e, of children] by (simp flip: walk_erase)
  then have "list_all (\<lambda>n. fine (info (erase n))) (walk (children r)) =
      list_all (\<lambda>n. fine (info (erase n))) (walk (children r'))"
    by (metis (no_types, lifting) list.pred_map comp_apply list_all_cong)
  then show ?thesis by (simp add: tree_fine_def)
qed

lemma fine_children:
  assumes "tree_fine root" "n_is_directory (info root)" "n \<in> set (walk [root])" "n_is_directory (info n)"
  shows "list_all (\<lambda>c. fine (info c)) (children n)"
proof -
  have "set (children n) \<subseteq> set (walk (children root))"
  proof (cases "n = root")
    case True
    then show ?thesis using set_walk_self by auto
  next
    case False
    then have "n \<in> set (walk (children root))" using assms(2,3) by (simp add: walk_Cons)
    then show ?thesis using children_walk [OF _ assms(4)] set_walk_self by blast
  qed
  then show ?thesis using assms(1) by (auto simp: tree_fine_def list_all_iff)
qed

section \<open>Allocation is total\<close>

lemma state_map_directories_total:
  assumes "list_all (\<lambda>n. n_is_directory (info n) \<longrightarrow> (\<exists>k. directory_cluster_count n = Inr k)) ns"
  shows "\<exists>ys b. state_map place_directory ns a = Inr (ys, b)"
  using assms
proof (induction ns arbitrary: a)
  case (Cons n ns)
  have "\<exists>i m. place_directory n a = Inr (i, m)"
    using Cons.prems by (cases "n_is_directory (info n)") (auto simp: place_directory_def)
  then obtain i m where i: "place_directory n a = Inr (i, m)" by blast
  obtain ys b where "state_map place_directory ns m = Inr (ys, b)" using Cons by fastforce
  with i show ?case by simp
qed simp

lemma state_map_files_total: "\<exists>ys st. state_map place_file ns s = Inr (ys, st)"
proof (induction ns arbitrary: s)
  case (Cons n ns)
  have "\<exists>i m. place_file n s = Inr (i, m)"
    by (cases s; cases "n_is_directory (info n)") (simp_all add: place_file_def Let_def)
  then obtain i m where i: "place_file n s = Inr (i, m)" by blast
  obtain ys st where "state_map place_file ns m = Inr (ys, st)" using Cons by blast
  with i show ?case by simp
qed simp

lemma walk_update_total:
  assumes "keeps_kind f" "state_map f (walk ns) s = Inr (ys, s')"
  shows "\<exists>ns'. walk_update f ns s = Inr (ns', s')"
proof (cases "walk_update f ns s")
  case (Inl e)
  with walk_update_state_map [OF assms(1), of ns s] assms(2) show ?thesis by simp
next
  case (Inr r)
  with walk_update_state_map [OF assms(1), of ns s] assms(2) show ?thesis by (cases r) simp
qed

lemma place_all_total:
  assumes "tree_fine root" "n_is_directory (info root)"
  shows "\<exists>root' nxt ms. place_all root a = Inr (root', nxt, ms)"
proof -
  have "\<exists>k. directory_cluster_count n = Inr k" if "n \<in> set (walk [root])" "n_is_directory (info n)" for n
  proof -
    have "list_all (\<lambda>c. name_ok (n_name (info c))) (children n)"
      using fine_children [OF assms that] by (auto simp: list_all_iff fine_def)
    from directory_cluster_count_eq [OF this] show ?thesis by simp
  qed
  then obtain ys b where "state_map place_directory (walk [root]) a = Inr (ys, b)"
    using state_map_directories_total [of "walk [root]" a] by (auto simp: list_all_iff)
  from walk_update_total [OF only_places_keeps_kind [OF place_directory_places] this]
  obtain roots where one: "walk_update place_directory [root] a = Inr (roots, b)" by blast
  obtain ys st where "state_map place_file (walk roots) (b, []) = Inr (ys, st)"
    using state_map_files_total by blast
  from walk_update_total [OF only_places_keeps_kind [OF place_file_places] this]
  obtain roots' where "walk_update place_file roots (b, []) = Inr (roots', st)" by blast
  with one show ?thesis by (cases st) (simp add: place_all_def)
qed

section \<open>Metadata is total\<close>

lemma boot_sectors_total:
  assumes "builder_ok b" "list_all (\<lambda>c. 0 \<le> c \<and> c < 128) (cf_label (bd_config b))"
    and "0 \<le> fo" "fo < 2 ^ 32" "0 \<le> fl" "fl < 2 ^ 32" "0 \<le> ho" "ho < 2 ^ 32"
    and "0 \<le> cc" "cc < 2 ^ 32" "0 \<le> root" "root < 2 ^ 32"
  shows "\<exists>boot. boot_sectors b fo fl ho cc root = Inr boot"
proof -
  obtain label where label: "ascii (cf_label (bd_config b)) = Inr label"
    using assms(2) by (auto simp: ascii_def list_all_iff)
  have serial: "0 \<le> le_val (take 4 (sha256 label))" "le_val (take 4 (sha256 label)) < 4294967296"
    using le_val_bounds [of "take 4 (sha256 label)"] by simp_all
  show ?thesis
    using assms label serial
    by (simp add: boot_sectors_def Let_def builder_ok_def pack_into_Inr)
qed

lemma put_boot_regions_total:
  "boot_sectors b fo fl ho cc root = Inr boot \<Longrightarrow> \<exists>md. put_boot_regions b md0 fo fl ho cc root = Inr md"
  using boot_checksum_range [of boot]
  by (simp add: put_boot_regions_def boot_region_def pack_Inr Let_def)

lemma dir_regions_total:
  assumes "\<And>n. n \<in> set ns \<Longrightarrow> n_is_directory (info n) \<Longrightarrow>
      \<exists>d. directory_bytes up label n False bc bl uc ul = Inr d"
  shows "\<exists>rs. dir_regions up label bc bl uc ul ns = Inr rs"
  using assms
proof (induction ns)
  case (Cons n ns)
  then obtain rs where "dir_regions up label bc bl uc ul ns = Inr rs" by auto
  with Cons.prems [of n] show ?case by auto
qed simp

lemma stable_file_id_total:
  assumes "list_all scalar p"
  shows "\<exists>i. stable_file_id p = Inr i \<and> 0 \<le> i \<and> i < 2 ^ 31"
proof -
  have "x AND 0x7FFFFFFF = x mod 2 ^ 31" for x :: int
    using take_bit_eq_mask [of 31 x] by (simp add: take_bit_eq_mod mask_eq_exp_minus_1)
  then show ?thesis using assms by (simp add: stable_file_id_def utf8_def)
qed

text \<open>The numbers of a placed tree fit their fields.\<close>

lemma placed_encodable:
  assumes "place_all root0 a = Inr (root, nxt, ms)" "2 \<le> a" "nxt \<le> 2 ^ 24"
    and "n \<in> set (walk [root])" "fine (info n)"
  shows "encodable (info n)"
proof -
  note p = place_all_spec [OF assms(1)]
  let ?i = "info n"
  obtain m where m: "contiguous a (map run_of (dir_infos root)) m" "contiguous m (map run_of (file_infos root)) nxt"
    using p(2) by blast
  have "run_of ?i \<in> set (map run_of (dir_infos root)) \<or> run_of ?i \<in> set (map run_of (file_infos root))"
    using assms(4) by (auto simp: dir_infos_def file_infos_def)
  then have run: "2 \<le> n_first_cluster ?i" "0 < n_cluster_count ?i"
      "n_first_cluster ?i + n_cluster_count ?i \<le> 2 ^ 24"
    using contiguous_bounds [OF m(1), of "n_first_cluster ?i" "n_cluster_count ?i"]
      contiguous_bounds [OF m(2), of "n_first_cluster ?i" "n_cluster_count ?i"]
      contiguous_le [OF m(1)] contiguous_le [OF m(2)] assms(2,3)
    by (auto simp: run_of_def)
  have "data_length_of ?i \<le> n_cluster_count ?i * 131072"
  proof (cases "n_is_directory ?i")
    case False
    then have "?i \<in> set (file_infos root)" using assms(4) by (simp add: file_infos_def)
    then have "n_cluster_count ?i = clusters_of (n_size_bytes ?i)" using p(4) by (simp add: list_all_iff)
    with False clusters_of_ge [of "n_size_bytes ?i"] show ?thesis by (simp add: data_length_of_def)
  qed (simp add: data_length_of_def)
  moreover have "0 \<le> data_length_of ?i" using run(2) assms(5) by (simp add: data_length_of_def fine_def)
  moreover have "list_all scalar (n_name ?i)" using assms(5) by (simp add: fine_def name_ok_def)
  ultimately show ?thesis using run by (simp add: encodable_def)
qed

section \<open>Builds are total\<close>

lemma build_metadata_total:
  assumes g: "geometry b = (fo, fl, ho, cc)" and valid: "builder_ok b" "upper_ok up"
    and label: "list_all (\<lambda>c. 0 \<le> c \<and> c < 128) (cf_label (bd_config b))"
    and tree: "tree_fine root0" "n_is_directory (info root0)"
    and placed: "place_all root0 (uc + 1) = Inr (root, nxt, ms)" "2 \<le> uc" "nxt - 2 \<le> cc"
    and bl: "bl = (cc + 7) div 8"
  shows "\<exists>md ul. build_metadata up b (fo, fl, ho, cc) root 2 bl uc = Inr (md, ul)"
proof -
  note gs = geometry_spec [OF g]
  note p = place_all_spec [OF placed(1)]
  have root: "n_is_directory (info root)" "tree_fine root"
    using erase_kind [OF p(1)] tree_fine_erase [OF p(1)] tree by simp_all
  have walk_root: "walk [root] = root # walk (children root)" using root(1) by (simp add: walk_Cons)
  obtain m where m: "contiguous (uc + 1) (map run_of (dir_infos root)) m" "contiguous m (map run_of (file_infos root)) nxt"
    using p(2) by blast
  have "run_of (info root) \<in> set (map run_of (dir_infos root))"
    using root(1) by (simp add: dir_infos_def walk_root)
  then have first: "uc < n_first_cluster (info root)" "n_first_cluster (info root) < nxt"
    using contiguous_bounds [OF m(1), of "n_first_cluster (info root)" "n_cluster_count (info root)"]
      contiguous_le [OF m(2)] by (auto simp: run_of_def)
  have T: "bd_total_sectors b \<le> 4292870144" using valid(1) by (simp add: builder_ok_def)
  have cc: "0 \<le> cc" using first placed(2,3) by simp
  have "cc * 256 \<le> bd_total_sectors b - ho"
    using gs(6) div_mult_mod_eq [of "bd_total_sectors b - ho" 256] pos_mod_sign [of 256 "bd_total_sectors b - ho"]
    by linarith
  then have bounds: "ho \<le> 4292870144" "256 * cc \<le> 4292870144" using cc T gs(1,2,5) by linarith+
  have nxt: "nxt \<le> 2 ^ 24" using bounds(2) placed(3) by simp
  have "0 \<le> bl" "bl \<le> cc + 7" using cc by (auto simp: bl pos_imp_zdiv_nonneg_iff)
  then have blr: "0 \<le> bl" "bl < 2 ^ 64" using bounds(2) by simp_all
  have ucr: "0 \<le> uc" "uc < 2 ^ 32" using placed(2) first nxt by simp_all
  obtain boot where "boot_sectors b fo fl ho cc (n_first_cluster (info root)) = Inr boot"
    using boot_sectors_total [OF valid(1) label, of fo fl ho cc "n_first_cluster (info root)"]
      gs(1,2,5) bounds cc first placed(2) nxt by auto
  then obtain md where md: "put_boot_regions b [] fo fl ho cc (n_first_cluster (info root)) = Inr md"
    using put_boot_regions_total by blast
  obtain table where table: "upcase_table up = Inr table" "length table = 131072"
    using upcase_table_total [OF valid(2)] by blast
  have enc: "list_all (\<lambda>c. encodable (info c)) (children n)"
    if "n \<in> set (walk [root])" "n_is_directory (info n)" for n
  proof -
    have "set (children n) \<subseteq> set (walk [root])"
      using children_walk [OF that] set_walk_self by blast
    then show ?thesis
      using fine_children [OF root(2,1) that] placed_encodable [OF placed(1) _ nxt] placed(2)
      by (auto simp: list_all_iff)
  qed
  have "list_all scalar (cf_label (bd_config b))"
    using label by (auto simp: list_all_iff scalar_def surrogate_def)
  then have sys: "\<exists>system. root_entries up (cf_label (bd_config b)) 2 bl uc (int (length table)) = Inr system"
    using blr ucr table(2) by (intro root_entries_total valid(2)) auto
  have "root \<in> set (walk [root])" by (simp add: walk_root)
  from directory_bytes_total [OF valid(2) enc [OF this root(1)] sys]
  obtain rb where rb: "directory_bytes up (cf_label (bd_config b)) root True 2 bl uc (int (length table)) = Inr rb"
    by blast
  have "\<exists>rs. dir_regions up (cf_label (bd_config b)) 2 bl uc (int (length table)) (walk (children root)) = Inr rs"
  proof (rule dir_regions_total)
    fix n assume "n \<in> set (walk (children root))" "n_is_directory (info n)"
    then show "\<exists>d. directory_bytes up (cf_label (bd_config b)) n False 2 bl uc (int (length table)) = Inr d"
      using enc [of n] by (intro directory_bytes_total valid(2)) (auto simp: walk_root)
  qed
  with md table(1) rb show ?thesis
    by (auto simp: build_metadata_def put_directories_regions Let_def)
qed

lemma build_outcome:
  assumes tree: "build_tree fs limit (cf_entries (bd_config b)) = Inr root0" "tree_fine root0"
    and valid: "builder_ok b" "upper_ok up"
    and label: "list_all (\<lambda>c. 0 \<le> c \<and> c < 128) (cf_label (bd_config b))"
    and g: "geometry b = (fo, fl, ho, cc)"
  shows "\<exists>root nxt ms. place_all root0 (2 + clusters_of ((cc + 7) div 8) + 1) = Inr (root, nxt, ms) \<and>
    (if cc < nxt - 2
     then build fs limit up b = Inl (ValueError (lit ''configured files do not fit virtual image''))
     else \<exists>l. build fs limit up b = Inr l \<and> built up b root0 root nxt l)"
proof -
  have dir: "n_is_directory (info root0)" using build_tree_ok(2) [OF tree(1)] by (simp add: new_info_def)
  let ?bl = "(cc + 7) div 8"
  let ?uc = "2 + clusters_of ?bl"
  obtain root nxt ms where placed: "place_all root0 (?uc + 1) = Inr (root, nxt, ms)"
    using place_all_total [OF tree(2) dir] by blast
  show ?thesis
  proof (cases "cc < nxt - 2")
    case True
    then have "build fs limit up b = Inl (ValueError (lit ''configured files do not fit virtual image''))"
      using placed by (simp add: build_def tree(1) g Let_def del: lit_Cons)
    with True placed show ?thesis by (intro exI [of _ root] exI [of _ nxt] exI [of _ ms]) simp
  next
    case False
    have "2 \<le> ?uc" using clusters_of_pos [of ?bl] by simp
    with False obtain md ul where md: "build_metadata up b (fo, fl, ho, cc) root 2 ?bl ?uc = Inr (md, ul)"
      using build_metadata_total [OF g valid label tree(2) dir placed] by fastforce
    have "tree_fine root"
      using tree_fine_erase [OF place_all_spec(1) [OF placed]] tree(2) by simp
    then have "\<exists>rec. entry_record (info n) [] = Inr rec" if "n \<in> set (walk (children root))" for n
      using that stable_file_id_total by (fastforce simp: entry_record_def tree_fine_def list_all_iff fine_def)
    then obtain recs where recs: "mapr (\<lambda>n. entry_record (info n) []) (walk (children root)) = Inr recs"
      using mapr_total [of "walk (children root)" "\<lambda>n. entry_record (info n) []"] by blast
    have "\<exists>l. build fs limit up b = Inr l"
      using placed False md recs by (simp add: build_def tree(1) g Let_def del: lit_Cons)
    then obtain l where l: "build fs limit up b = Inr l" by blast
    from build_parts [OF l] obtain root' nxt' where b': "built up b root0 root' nxt' l"
      using tree(1) by auto
    then have "root' = root \<and> nxt' = nxt"
      using placed g builtD(1,6,7,8) [OF b'] by simp
    with l b' False placed show ?thesis by auto
  qed
qed

section \<open>Trees whose directories fit\<close>

lemma total_entries_erase: "total_entries (erase n) r = total_entries n r"
  by (simp add: total_entries_def set_size_def comp_def)

lemma erase_erase: "erase (erase n) = erase n"
  by (induction n) (simp add: unplaced_def cong: map_cong)

lemma fits_erase: "fits (erase n) = fits n"
  unfolding fits_def directory_cluster_count_erase [OF erase_erase] total_entries_erase by simp

lemma all_fit_erase: "erase r = erase r' \<Longrightarrow> all_fit r = all_fit r'"
proof -
  assume e: "erase r = erase r'"
  have "map erase (walk [r]) = map erase (walk [r'])"
    using walk_erase [of "[r]"] walk_erase [of "[r']"] e by simp
  moreover have "all_fit r = list_all (\<lambda>n. n_is_directory (info n) \<longrightarrow> fits n) (map erase (walk [r]))" for r
    by (simp add: all_fit_def list.pred_map comp_def fits_erase del: walk.simps)
  ultimately show ?thesis by simp
qed

text \<open>Directories with at most one cluster of entries fit.\<close>

lemma small_tree_fit:
  assumes "tree_fine root" "n_is_directory (info root)" "small_tree root"
  shows "all_fit root"
proof -
  have "fits n" if "n \<in> set (walk [root])" "n_is_directory (info n)" for n
    using small_directory_fits [of n] fine_children [OF assms(1,2) that] assms(3) that
    by (auto simp: list_all_iff fine_def small_tree_def)
  then show ?thesis by (auto simp: all_fit_def list_all_iff)
qed

section \<open>Names that cannot be encoded\<close>

lemma mapr_first_error: "mapr f xs = Inl e \<Longrightarrow> \<exists>x\<in>set xs. f x = Inl e"
  by (induction xs) (auto simp: rbind_def split: sum.splits)

lemma mapr_fails: "x \<in> set xs \<Longrightarrow> f x = Inl e \<Longrightarrow> \<exists>e. mapr f xs = Inl e"
  by (induction xs) (auto simp: rbind_def split: sum.split)

lemma cluster_count_errors: "directory_cluster_count n = Inl e \<Longrightarrow> e = UnicodeEncodeError"
  by (auto simp: directory_cluster_count_def entry_count_def utf16_le_def rbind_def
      split: sum.splits if_splits dest!: mapr_first_error)

lemma cluster_count_fails:
  assumes "c \<in> set (children n)" "\<not> list_all scalar (n_name (info c))"
  shows "directory_cluster_count n = Inl UnicodeEncodeError"
proof -
  let ?f = "\<lambda>child. rbind (utf16_le (n_name (info child))) (\<lambda>e. Inr (1 + (int (length e) div 2 + 14) div 15))"
  have "?f c = Inl UnicodeEncodeError" using assms(2) by (simp add: utf16_le_def)
  from mapr_fails [of c "children n" ?f, OF assms(1) this] obtain e where "directory_cluster_count n = Inl e"
    by (auto simp: directory_cluster_count_def entry_count_def)
  with cluster_count_errors [OF this] show ?thesis by simp
qed

lemma place_fails:
  assumes "n \<in> set ns" "n_is_directory (info n)" "directory_cluster_count n = Inl UnicodeEncodeError"
  shows "state_map place_directory ns a = Inl UnicodeEncodeError"
  using assms(1)
proof (induction ns arbitrary: a)
  case (Cons m ns)
  show ?case
  proof (cases "place_directory m a")
    case (Inl e)
    then have "e = UnicodeEncodeError"
      using cluster_count_errors [of m]
      by (auto simp: place_directory_def rbind_def split: if_splits sum.splits)
    with Inl show ?thesis by simp
  next
    case (Inr r)
    then have "m \<noteq> n" using assms(2,3) by (auto simp: place_directory_def)
    with Cons Inr show ?thesis by (cases r) simp
  qed
qed simp

text \<open>A name that is not valid Unicode: the first pass of \<open>build\<close> encodes every name.\<close>

definition names_encodable :: "node \<Rightarrow> bool" where
  "names_encodable root \<longleftrightarrow> list_all (\<lambda>n. n_is_directory (info n) \<longrightarrow>
     list_all (\<lambda>c. list_all scalar (n_name (info c))) (children n)) (walk [root])"

lemma place_all_fails:
  assumes "\<not> names_encodable root"
  shows "place_all root a = Inl UnicodeEncodeError"
proof -
  obtain n c where n: "n \<in> set (walk [root])" "n_is_directory (info n)"
      "c \<in> set (children n)" "\<not> list_all scalar (n_name (info c))"
    using assms unfolding names_encodable_def list_all_iff [of _ "walk [root]"] list_all_iff [of _ "children _"] by blast
  have "state_map place_directory (walk [root]) a = Inl UnicodeEncodeError"
    by (rule place_fails [OF n(1,2) cluster_count_fails [OF n(3,4)]])
  then have "walk_update place_directory [root] a = Inl UnicodeEncodeError"
    unfolding walk_update_state_map [OF only_places_keeps_kind [OF place_directory_places]]
    by (auto simp: rbind_def split: sum.splits prod.splits)
  then show ?thesis by (simp add: place_all_def)
qed

lemma build_unencodable:
  assumes "build_tree fs limit (cf_entries (bd_config b)) = Inr root0" "\<not> names_encodable root0"
  shows "build fs limit up b = Inl UnicodeEncodeError"
  using assms(1) place_all_fails [OF assms(2)] by (cases "geometry b") (simp add: build_def Let_def del: lit_Cons)

end
