(* ===== verification/VolumeImage.thy ===== *)
theory VolumeImage
  imports BuilderImage
begin

text \<open>
  What every sector of a built volume holds, and from it what a reader of the volume sees:
  the FAT and bitmap of the allocation, the bytes of every directory, and the contents of
  every file.
\<close>

section \<open>Sectors by kind\<close>

definition volume_regions :: "(int \<Rightarrow> pystr) \<Rightarrow> builder \<Rightarrow> node \<Rightarrow> exfat_layout \<Rightarrow> (int \<times> bytes) list result" where
  "volume_regions up b root l =
     regions up (cf_label (bd_config b)) (bitmap_length l) (upcase_cluster l) root"

lemma volume_metadata:
  assumes "volume up b root0 root next l"
  obtains boot region rs where
    "boot_sectors b (fat_offset l) (fat_length l) (cluster_heap_offset l) (cluster_count l)
       (n_first_cluster (info root)) = Inr boot"
    "boot_region boot = Inr region" "volume_regions up b root l = Inr rs"
    "\<And>s. list_all (\<lambda>r. \<not> covers (cluster_heap_offset l) r s) rs \<Longrightarrow>
       map_of (metadata l) s = (if 0 \<le> s \<and> s < 24 then Some (slice (nat (s mod 12 * 512)) 512 region) else None)"
    "\<And>r s. r \<in> set rs \<Longrightarrow> covers (cluster_heap_offset l) r s \<Longrightarrow>
       map_of (metadata l) s = Some (region_sector (cluster_heap_offset l) r s)"
proof -
  let ?h = "cluster_heap_offset l"
  obtain boot_md rs where boot_md: "put_boot_regions b [] (fat_offset l) (fat_length l) ?h
       (cluster_count l) (n_first_cluster (info root)) = Inr boot_md"
    and rs: "regions up (cf_label (bd_config b)) (bitmap_length l) (upcase_cluster l) root = Inr rs"
    and md: "metadata l = put_regions ?h rs boot_md"
    using metadata_regions [OF assms] by blast
  obtain boot region where "boot_sectors b (fat_offset l) (fat_length l) ?h (cluster_count l)
       (n_first_cluster (info root)) = Inr boot" "boot_region boot = Inr region"
    and boot: "\<And>s. map_of boot_md s =
      (if 0 \<le> s \<and> s < 24 then Some (slice (nat (s mod 12 * 512)) 512 region) else None)"
    using put_boot_regions_spec [OF boot_md] by blast
  moreover note in_runs = regions_in_runs [OF assms rs]
  have same: "r = r'" if mem: "r \<in> set rs" "r' \<in> set rs" and cov: "covers ?h r s" "covers ?h r' s" for r r' s
  proof -
    obtain c d c' d' where r: "r = (c, d)" "r' = (c', d')" by (cases r, cases r')
    obtain n n' where n: "(c, n) \<in> set (allocated_ranges l)" "region_sectors d \<le> n * 256"
      "(c', n') \<in> set (allocated_ranges l)" "region_sectors d' \<le> n' * 256"
      using in_runs(1) [of c d] in_runs(1) [of c' d'] mem r by blast
    have "c \<le> cluster_of l s \<and> cluster_of l s < c + n" "c' \<le> cluster_of l s \<and> cluster_of l s < c' + n'"
      using cov n(2,4) by (auto simp: cluster_of_iff covers_def r region_start_def algebra_simps)
    with disjoint_runs_unique [OF _ n(1,3)] built_allocation(3) [OF volumeD(1,2) [OF assms]]
    have "c = c'" by blast
    with mem r in_runs(2) show ?thesis by (auto dest: eq_key_imp_eq_value)
  qed
  ultimately show thesis
    using rs md by (intro that [of boot region rs])
      (auto simp: volume_regions_def put_regions_none boot intro: put_regions_one same)
qed

lemma region_cluster:
  assumes "volume up b root0 root next l" "volume_regions up b root l = Inr rs"
    and "r \<in> set rs" "covers (cluster_heap_offset l) r s"
  shows "\<exists>n. (fst r, n) \<in> set (allocated_ranges l) \<and> 2 < fst r \<and>
    fst r \<le> cluster_of l s \<and> cluster_of l s < fst r + n" "cluster_heap_offset l \<le> s"
proof -
  obtain c d where r: "r = (c, d)" by fastforce
  obtain n where n: "(c, n) \<in> set (allocated_ranges l)" "region_sectors d \<le> n * 256" "2 < c"
    using regions_in_runs(1) [OF assms(1) assms(2) [unfolded volume_regions_def]] assms(3) r by meson
  have "c \<le> cluster_of l s \<and> cluster_of l s < c + n"
    using assms(4) n(2) by (auto simp: cluster_of_iff covers_def r region_start_def algebra_simps)
  with n r show "\<exists>n. (fst r, n) \<in> set (allocated_ranges l) \<and> 2 < fst r \<and>
    fst r \<le> cluster_of l s \<and> cluster_of l s < fst r + n" by auto
  show "cluster_heap_offset l \<le> s" using assms(4) n(3) by (simp add: covers_def r region_start_def)
qed

lemma metadata_none:
  assumes v: "volume up b root0 root next l" and "24 \<le> s"
    and "\<And>c n. (c, n) \<in> set (allocated_ranges l) \<Longrightarrow> 2 < c \<Longrightarrow> c \<le> cluster_of l s \<Longrightarrow> cluster_of l s < c + n \<Longrightarrow>
      cluster_heap_offset l \<le> s \<Longrightarrow> c \<notin> set (map n_first_cluster (dir_infos root)) \<and> c \<noteq> upcase_cluster l"
  shows "map_of (metadata l) s = None"
proof (rule volume_metadata [OF v])
  fix boot region rs
  assume rs: "volume_regions up b root l = Inr rs"
    and none: "\<And>s. list_all (\<lambda>r. \<not> covers (cluster_heap_offset l) r s) rs \<Longrightarrow>
       map_of (metadata l) s = (if 0 \<le> s \<and> s < 24 then Some (slice (nat (s mod 12 * 512)) 512 region) else None)"
  have firsts: "fst r \<in> set (map n_first_cluster (dir_infos root)) \<or> fst r = upcase_cluster l"
    if "r \<in> set rs" for r
  proof -
    obtain upcase root_bytes ds where
      "dir_regions up (cf_label (bd_config b)) 2 (bitmap_length l) (upcase_cluster l)
        (int (length upcase)) (walk (children root)) = Inr ds"
      and r: "rs = (n_first_cluster (info root), root_bytes) # (upcase_cluster l, upcase) # ds"
      using rs by (auto simp: volume_regions_def regions_def result_simps)
    from dir_regions_spec(1) [OF this(1)]
    have "map n_first_cluster (dir_infos root) = n_first_cluster (info root) # map fst ds"
      using root_fields(1) [OF v] by (simp add: dir_infos_def walk_root [OF v])
    then show ?thesis using that by (auto simp: r)
  qed
  have "\<not> covers (cluster_heap_offset l) r s" if mem: "r \<in> set rs" for r
  proof
    assume c: "covers (cluster_heap_offset l) r s"
    obtain n where "(fst r, n) \<in> set (allocated_ranges l)" "2 < fst r" "fst r \<le> cluster_of l s"
        "cluster_of l s < fst r + n"
      using region_cluster(1) [OF v rs mem c] by blast
    then show False using assms(3) region_cluster(2) [OF v rs mem c] firsts [OF mem] by blast
  qed
  then show ?thesis using none [of s] assms(2) by (simp add: list_all_iff)
qed

lemma bitmap_sectors_bound:
  assumes "volume up b root0 root next l"
  shows "ceil_div (bitmap_length l) 512 \<le> clusters_of (bitmap_length l) * 256"
  using clusters_of_ge [of "bitmap_length l"] by (subst ceil_div_le_iff) auto

lemma bitmap_start: "partition_start_lba l = 0 \<Longrightarrow> bitmap_cluster l = 2 \<Longrightarrow>
    file_start_sector l (bitmap_mapping l) = cluster_heap_offset l"
  by (simp add: file_start_sector_def bitmap_mapping_def)

text \<open>The dictionary decides first, then the FAT, then the bitmap.\<close>

lemma metadata_sector_cases:
  assumes v: "volume up b root0 root next l"
  shows "metadata_sector l s = (case map_of (metadata l) s of
      Some d \<Rightarrow> Inr (Some d)
    | None \<Rightarrow>
        if 2048 \<le> s \<and> s < 2048 + fat_length l then rbind (fat_sector l (s - 2048)) (\<lambda>d. Inr (Some d))
        else if cluster_heap_offset l \<le> s \<and> s < cluster_heap_offset l + ceil_div (bitmap_length l) 512
        then Inr (Some (bitmap_sector l (s - cluster_heap_offset l)))
        else Inr None)"
proof -
  have f: "partition_start_lba l = 0" "bitmap_cluster l = 2" using layout_fields [OF v] by simp_all
  show ?thesis
    unfolding metadata_sector_def Let_def bitmap_start [OF f] f(1) volume_room(1) [OF v] const_values
    by (cases "map_of (metadata l) s") (simp_all add: ceil_div_def add.commute)
qed

lemma fat_lookup:
  assumes v: "volume up b root0 root next l" and "0 \<le> k" "k < fat_length l"
  shows "metadata_sector l (2048 + k) = rbind (fat_sector l k) (\<lambda>d. Inr (Some d))"
proof -
  note room = volume_room [OF v]
  have "\<not> cluster_heap_offset l \<le> 2048 + k" using room(1,2) assms(3) by simp
  then have "map_of (metadata l) (2048 + k) = None"
    using assms(2) by (intro metadata_none [OF v]) auto
  then show ?thesis using assms(2,3) by (simp add: metadata_sector_cases [OF v])
qed

lemma bitmap_lookup:
  assumes v: "volume up b root0 root next l" and "0 \<le> k" "k < ceil_div (bitmap_length l) 512"
  shows "metadata_sector l (cluster_heap_offset l + k) = Inr (Some (bitmap_sector l k))"
proof -
  let ?s = "cluster_heap_offset l + k"
  note room = volume_room [OF v] and alloc = built_allocation [OF volumeD(1,2) [OF v]]
  let ?bm = "clusters_of (bitmap_length l)"
  have bm: "2 \<le> cluster_of l ?s \<and> cluster_of l ?s < 2 + ?bm"
    unfolding cluster_of_iff using assms(2,3) bitmap_sectors_bound [OF v] by simp
  have "(2, ?bm) \<in> set (allocated_ranges l)" by (simp add: alloc(1))
  then have "c = 2" if "(c, n) \<in> set (allocated_ranges l)" "c \<le> cluster_of l ?s" "cluster_of l ?s < c + n" for c n
    using disjoint_runs_unique [OF alloc(3) that(1) _ that(2,3), of 2 ?bm] bm by simp
  then have "map_of (metadata l) ?s = None"
    using assms(2) room by (intro metadata_none [OF v]) (auto dest: less_imp_neq)
  moreover have "\<not> ?s < 2048 + fat_length l" using room(1,2) assms(2) by simp
  ultimately show ?thesis using assms(2,3) by (simp add: metadata_sector_cases [OF v])
qed

lemma region_lookup:
  assumes v: "volume up b root0 root next l" and "volume_regions up b root l = Inr rs"
    and "r \<in> set rs" "covers (cluster_heap_offset l) r s"
  shows "metadata_sector l s = Inr (Some (region_sector (cluster_heap_offset l) r s))"
proof (rule volume_metadata [OF v])
  fix rs' assume "volume_regions up b root l = Inr rs'"
    and "\<And>r s. r \<in> set rs' \<Longrightarrow> covers (cluster_heap_offset l) r s \<Longrightarrow>
       map_of (metadata l) s = Some (region_sector (cluster_heap_offset l) r s)"
  then show ?thesis using assms(2-4) by (simp add: metadata_sector_cases [OF v])
qed

lemma covers_sector_cluster:
  assumes "partition_start_lba l = 0"
  shows "covers_sector l s fm \<longleftrightarrow>
    fm_start_cluster fm \<le> cluster_of l s \<and> cluster_of l s < fm_start_cluster fm + fm_cluster_count fm"
proof -
  have "(fm_start_cluster fm + fm_cluster_count fm - 2) * 256 =
      (fm_start_cluster fm - 2) * 256 + fm_cluster_count fm * 256" by simp
  then show ?thesis
    unfolding covers_sector_def file_start_sector_def cluster_of_iff assms const_values
    by (simp only: add_0 add.assoc)
qed

lemma find_unique:
  assumes "x \<in> set xs" "P x" "\<And>y. y \<in> set xs \<Longrightarrow> P y \<Longrightarrow> y = x"
  shows "find P xs = Some x"
proof (cases "find P xs")
  case None
  then show ?thesis using assms(1,2) by (auto simp: find_None_iff)
next
  case (Some y)
  then have "y \<in> set xs" "P y" by (auto simp: find_Some_iff)
  then show ?thesis using Some assms(3) by simp
qed

text \<open>The sectors of a file are no metadata, and resolve to that file and no other.\<close>

lemma file_lookup:
  assumes v: "volume up b root0 root next l" and fm: "fm \<in> set (file_mappings l)" "covers_sector l s fm"
  shows "metadata_sector l s = Inr None" "find (covers_sector l s) (file_mappings l) = Some fm"
proof -
  note room = volume_room [OF v] and alloc = built_allocation [OF volumeD(1,2) [OF v]]
    and fields = layout_fields [OF v]
  let ?c = "fm_start_cluster fm" and ?n = "fm_cluster_count fm"
  have c: "?c \<le> cluster_of l s" "cluster_of l s < ?c + ?n"
    using fm(2) by (simp_all add: covers_sector_cluster fields)
  have runs: "map run_of (file_infos root) = map (\<lambda>m. (fm_start_cluster m, fm_cluster_count m)) (file_mappings l)"
    by (simp add: alloc(4) mapping_of_def run_of_def)
  have run: "(?c, ?n) \<in> set (allocated_ranges l)" using fm(1) by (auto simp: alloc(1) runs)
  have uniq: "c' = ?c" if "(c', n') \<in> set (allocated_ranges l)" "c' \<le> cluster_of l s" "cluster_of l s < c' + n'" for c' n'
    using disjoint_runs_unique [OF alloc(3) that(1) run that(2,3) c] by simp
  have dis: "distinct (map fst (allocated_ranges l))" by (rule disjoint_runs_distinct [OF alloc(3)])
  have firsts: "map fst (allocated_ranges l) = [2, upcase_cluster l] @ map n_first_cluster (dir_infos root) @
      map fm_start_cluster (file_mappings l)"
    by (simp add: alloc(1) runs run_of_def comp_def)
  have "?c \<in> set (map fm_start_cluster (file_mappings l))" using fm(1) by simp
  then have other: "?c \<noteq> 2" "?c \<noteq> upcase_cluster l" "?c \<notin> set (map n_first_cluster (dir_infos root))"
    using dis unfolding firsts distinct_append by (auto simp del: set_map)
  have ho: "cluster_heap_offset l \<le> s"
  proof -
    have "2 \<le> ?c" using contiguous_bounds [OF alloc(2) run] by simp
    then have "2 \<le> cluster_of l s \<and> cluster_of l s < ?c + ?n" using c by simp
    then show ?thesis unfolding cluster_of_iff by simp
  qed
  have none: "map_of (metadata l) s = None"
    using ho room(1,2,4) uniq other by (intro metadata_none [OF v]) auto
  have "\<not> s < 2048 + fat_length l" using ho room(1,2) by simp
  moreover have "\<not> s < cluster_heap_offset l + ceil_div (bitmap_length l) 512"
  proof
    assume "s < cluster_heap_offset l + ceil_div (bitmap_length l) 512"
    then have "2 \<le> cluster_of l s \<and> cluster_of l s < 2 + clusters_of (bitmap_length l)"
      unfolding cluster_of_iff using ho bitmap_sectors_bound [OF v] by simp
    moreover have "(2, clusters_of (bitmap_length l)) \<in> set (allocated_ranges l)" by (simp add: alloc(1))
    ultimately show False using uniq [of 2 "clusters_of (bitmap_length l)"] other(1) by simp
  qed
  ultimately show "metadata_sector l s = Inr None"
    using none by (simp add: metadata_sector_cases [OF v])
  show "find (covers_sector l s) (file_mappings l) = Some fm"
  proof (rule find_unique [OF fm(1), of "covers_sector l s", OF fm(2)])
    fix fm' assume fm': "fm' \<in> set (file_mappings l)" "covers_sector l s fm'"
    then have "(fm_start_cluster fm', fm_cluster_count fm') \<in> set (allocated_ranges l)"
      by (auto simp: alloc(1) runs)
    then have "fm_start_cluster fm' = ?c"
      by (rule uniq) (use fm'(2) in \<open>simp_all add: covers_sector_cluster fields\<close>)
    moreover have "inj_on fm_start_cluster (set (file_mappings l))"
      using dis unfolding firsts by (auto simp: distinct_map)
    ultimately show "fm' = fm" using fm(1) fm'(1) by (auto dest: inj_onD)
  qed
qed

end
