(* ===== verification/VolumeContents.thy ===== *)
theory VolumeContents
  imports VolumeImage
begin

text \<open>
  What a reader of the volume gets: the FAT read from the image is that of the allocation,
  so chains are followed to the clusters of a file or directory; the clusters of a directory
  hold the bytes its entries were encoded to, and the clusters of a file its contents.
\<close>

section \<open>The layout is valid for the mapper\<close>

lemma list_all_update: "list_all P al \<Longrightarrow> P (k, v) \<Longrightarrow> list_all P (AList.update k v al)"
  by (induction al) auto

lemma list_all_fold:
  "list_all P al \<Longrightarrow> (\<And>x al. x \<in> set xs \<Longrightarrow> list_all P al \<Longrightarrow> list_all P (f x al)) \<Longrightarrow>
     list_all P (fold f xs al)"
  by (induction xs arbitrary: al) auto

lemma length_file_sector [simp]: "length (file_sector d off) = 512"
  by (simp add: file_sector_def)

lemma put_regions_lengths:
  "list_all (\<lambda>(_, d). length d = 512) md \<Longrightarrow> list_all (\<lambda>(_, d). length d = 512) (put_regions h rs md)"
  unfolding put_regions_def put_cluster_bytes_def put_sectors_def Let_def
  by (intro list_all_fold) (auto intro!: list_all_fold list_all_update)

lemma put_boot_regions_lengths:
  assumes "put_boot_regions b [] fo fl ho cc root = Inr md"
  shows "list_all (\<lambda>(_, d). length d = 512) md"
proof -
  obtain boot region where br: "boot_sectors b fo fl ho cc root = Inr boot" "boot_region boot = Inr region"
    and md: "md = fold (\<lambda>index md. let d = slice (nat (index * 512)) 512 region in
       AList.update (12 + index) d (AList.update (0 + index) d md)) [0..11] []"
    using assms by (auto simp: put_boot_regions_def result_simps)
  have "length region = 6144" using boot_region_spec(1) [OF br(2) boot_sectors_length [OF br(1)]] .
  moreover have "nat (i * 512) + 512 \<le> 6144" if "i \<in> set [0..11]" for i using that by auto
  ultimately have "length (slice (nat (i * 512)) 512 region) = 512" if "i \<in> set [0..11]" for i
    using that by (simp only: length_slice) fastforce
  then show ?thesis
    unfolding md by (intro list_all_fold) (auto simp: Let_def intro!: list_all_update)
qed

lemma volume_layout_ok:
  assumes v: "volume up b root0 root next l"
  shows "layout_ok l"
proof -
  have "list_all (\<lambda>(_, d). length d = 512) (metadata l)"
  proof -
    obtain boot rs where "put_boot_regions b [] (fat_offset l) (fat_length l) (cluster_heap_offset l)
        (cluster_count l) (n_first_cluster (info root)) = Inr boot"
      "metadata l = put_regions (cluster_heap_offset l) rs boot"
      using metadata_regions [OF v] by blast
    then show ?thesis using put_boot_regions_lengths put_regions_lengths by metis
  qed
  moreover have "clusters_below 4294967295 (allocated_ranges l)"
  proof -
    note alloc = built_allocation [OF volumeD(1,2) [OF v]] and room = volume_room [OF v]
    have "256 * cluster_count l \<le> 4292870144"
      using room(1,2,4,6) volumeD(5) [OF v] layout_fields(2) [OF v] by (simp add: builder_ok_def)
    then have "next \<le> 4294967295" using room(5) by simp
    then have "0 \<le> s \<and> 0 \<le> n \<and> s + n \<le> 4294967295" if "(s, n) \<in> set (allocated_ranges l)" for s n
      using contiguous_bounds [OF alloc(2) that] by simp
    then show ?thesis by (auto simp: clusters_below_def list_all_iff)
  qed
  ultimately show ?thesis using layout_fields(1) [OF v] by (simp add: layout_ok_def)
qed

section \<open>Windows of stored strings\<close>

lemma nth_file_sector:
  assumes "i < 512" "0 \<le> j"
  shows "file_sector d (j * 512) ! i = (if nat j * 512 + i < length d then d ! (nat j * 512 + i) else 0)"
proof -
  have "nat (j * 512) = nat j * 512" using assms(2) by (simp add: nat_mult_distrib)
  then show ?thesis using assms(1) by (auto simp: file_sector_def nth_ljust nth_slice)
qed

lemma stored_window:
  assumes "\<And>k. a \<le> k \<Longrightarrow> k < a + m \<Longrightarrow> img k = file_sector d ((k - a) * 512)"
    and "0 \<le> off" "off + n \<le> 512 * m" "0 \<le> n"
  shows "image_window img (512 * a + off) n = ljust (nat n) (slice (nat off) (nat n) d)"
proof (rule nth_equalityI)
  show "length (image_window img (512 * a + off) n) = length (ljust (nat n) (slice (nat off) (nat n) d))"
    by simp
  fix i assume "i < length (image_window img (512 * a + off) n)"
  then have i: "int i < n" "i < nat n" by auto
  define j r where "j = (off + int i) div 512" and "r = (off + int i) mod 512"
  have jr: "512 * j + r = off + int i" "0 \<le> r" "r < 512" "0 \<le> j"
    using assms(2) by (simp_all add: j_def r_def pos_imp_zdiv_nonneg_iff)
  have "j < m" using assms(3) i by (simp add: j_def int_div_less_iff)
  define q where "q = a + j"
  have pos: "512 * a + off + int i = 512 * q + r" using jr(1) by (simp add: q_def)
  have "(512 * a + off + int i) div 512 = q" "(512 * a + off + int i) mod 512 = r"
    unfolding pos using jr(2,3) by simp_all
  then have "image_window img (512 * a + off) n ! i = img (a + j) ! nat r"
    using i by (simp add: image_window_def image_byte_def q_def)
  also have "img (a + j) = file_sector d (j * 512)" using assms(1) [of "a + j"] jr(4) \<open>j < m\<close> by simp
  also have "file_sector d (j * 512) ! nat r =
      (if nat j * 512 + nat r < length d then d ! (nat j * 512 + nat r) else 0)"
    using jr by (intro nth_file_sector) auto
  also have "nat j * 512 + nat r = nat off + i" using jr assms(2) by linarith
  finally show "image_window img (512 * a + off) n ! i = ljust (nat n) (slice (nat off) (nat n) d) ! i"
    using i by (auto simp: nth_ljust nth_slice)
qed

section \<open>Files\<close>

lemma file_image_sector:
  assumes v: "volume up b root0 root next l" and fm: "fm \<in> set (file_mappings l)"
    and content: "files (fm_source_path fm) = Some content"
    and k: "file_start_sector l fm \<le> k" "k < file_start_sector l fm + fm_cluster_count fm * 256"
  shows "image_sector l files k = file_sector content ((k - file_start_sector l fm) * 512)"
proof -
  have "covers_sector l k fm" using k by (simp add: covers_sector_def)
  with file_lookup [OF v fm] content show ?thesis by (simp add: image_sector_def)
qed

lemma file_contents:
  assumes "volume up b root0 root next l" "fm \<in> set (file_mappings l)"
    and "files (fm_source_path fm) = Some content"
    and "0 \<le> off" "0 \<le> n" "off + n \<le> fm_cluster_count fm * 131072"
  shows "image_window (image_sector l files) (512 * file_start_sector l fm + off) n =
    ljust (nat n) (slice (nat off) (nat n) content)"
proof (rule stored_window [where m = "fm_cluster_count fm * 256"])
  fix k assume "file_start_sector l fm \<le> k" "k < file_start_sector l fm + fm_cluster_count fm * 256"
  with assms(1-3) show "image_sector l files k = file_sector content ((k - file_start_sector l fm) * 512)"
    by (intro file_image_sector)
qed (use assms(4-6) in simp_all)

section \<open>Directories and the upcase table\<close>

lemma region_contents:
  assumes v: "volume up b root0 root next l" and rs: "volume_regions up b root l = Inr rs"
    and r: "(c, d) \<in> set rs"
  shows "image_window (image_sector l files) (512 * region_start (cluster_heap_offset l) c) (int (length d)) = d"
proof -
  let ?a = "region_start (cluster_heap_offset l) c"
  have img: "image_sector l files k = file_sector d ((k - ?a) * 512)"
    if "?a \<le> k" "k < ?a + region_sectors d" for k
  proof -
    have "covers (cluster_heap_offset l) (c, d) k" using that by (simp add: covers_def)
    from region_lookup [OF v rs r this] show ?thesis
      by (simp add: image_sector_def region_sector_def)
  qed
  have "int (length d) \<le> ceil_div (int (length d)) 512 * 512" by (rule ceil_div_ge) simp
  then have "0 + int (length d) \<le> 512 * region_sectors d" by (simp add: region_sectors_def max_def)
  from stored_window [OF img _ this] show ?thesis by (simp add: slice_def)
qed

lemma directory_contents:
  assumes v: "volume up b root0 root next l" and n: "n \<in> set (walk [root])" "n_is_directory (info n)"
  shows "\<exists>d. image_window (image_sector l files)
      (512 * region_start (cluster_heap_offset l) (n_first_cluster (info n))) (int (length d)) = d \<and>
    int (length d) \<le> n_cluster_count (info n) * 131072 \<and>
    read_directory (simple_upper up) d = Some (map (\<lambda>c. record_of (info c)) (sorted_children n))"
proof (rule volume_metadata [OF v])
  fix boot region rs assume rs: "volume_regions up b root l = Inr rs"
  let ?label = "cf_label (bd_config b)" and ?uc = "upcase_cluster l" and ?bl = "bitmap_length l"
  obtain table root_bytes ds where
    rb: "directory_bytes up ?label root True 2 ?bl ?uc (int (length table)) = Inr root_bytes"
    and ds: "dir_regions up ?label 2 ?bl ?uc (int (length table)) (walk (children root)) = Inr ds"
    and r: "rs = (n_first_cluster (info root), root_bytes) # (?uc, table) # ds"
    using rs by (auto simp: volume_regions_def regions_def result_simps)
  have "\<exists>d is_root. (n_first_cluster (info n), d) \<in> set rs \<and>
      directory_bytes up ?label n is_root 2 ?bl ?uc (int (length table)) = Inr d \<and>
      (is_root \<longrightarrow> n_virtual_path (info n) = [])"
  proof (cases "n = root")
    case True
    then show ?thesis using rb r root_fields(2) [OF v] by auto
  next
    case False
    then have "n \<in> set (walk (children root))" using n(1) by (simp add: walk_root [OF v])
    from dir_regions_spec(2) [OF ds this n(2)] show ?thesis using r by auto
  qed
  then obtain d is_root where d: "(n_first_cluster (info n), d) \<in> set rs"
      "directory_bytes up ?label n is_root 2 ?bl ?uc (int (length table)) = Inr d"
      "is_root \<longrightarrow> n_virtual_path (info n) = []" by blast
  have "fits n" using volumeD(6) [OF v] n by (auto simp: all_fit_def list_all_iff)
  from directory_bytes_fit(1) [OF d(2,3) this dir_counts [OF v n]] region_contents [OF v rs d(1)]
    directory_bytes_spec(1) [OF d(2)]
  show ?thesis by blast
qed

section \<open>The FAT as read from the image\<close>

definition fat_slot :: "(int \<Rightarrow> bytes) \<Rightarrow> int \<Rightarrow> int" where
  "fat_slot img c = le_val (image_window img (512 * 2048 + 4 * c) 4)"

lemma fat_slot_entry:
  assumes v: "volume up b root0 root next l" and c: "0 \<le> c" "c < 128 * fat_length l"
  shows "fat_slot (image_sector l files) c = fat_entry (allocated_ranges l) c"
proof -
  define k i where "k = c div 128" and "i = nat (c mod 128)"
  have ki: "c = k * 128 + int i" "i < 128" by (simp_all add: k_def i_def)
  have k: "0 \<le> k" "k < fat_length l" using c by (simp_all add: k_def int_div_less_iff pos_imp_zdiv_nonneg_iff)
  obtain d where d: "fat_sector l k = Inr d"
    using fat_sector_total volume_layout_ok [OF v] by (auto simp: layout_ok_def)
  note slots = fat_sector_slots [OF d]
  have img: "image_sector l files (2048 + k) = d"
    using fat_lookup [OF v k] d by (simp add: image_sector_def)
  have "slice (nat (4 * int i)) (nat 4) (image_sector l files (2048 + k)) =
      image_window (image_sector l files) (512 * (2048 + k) + 4 * int i) 4"
    using slots(1) ki(2) by (intro slice_image) (auto simp: img)
  moreover have "512 * (2048 + k) + 4 * int i = 512 * 2048 + 4 * c" by (simp add: ki(1))
  moreover have "nat (4 * int i) = 4 * i" by simp
  ultimately show ?thesis
    using slots(2) [OF ki(2)] by (simp add: fat_slot_def img ki(1) add.assoc)
qed

lemma fat_chain_cong:
  "(\<And>x. x \<in> set (fat_chain fuel f c) \<Longrightarrow> g x = f x) \<Longrightarrow> fat_chain fuel g c = fat_chain fuel f c"
  by (induction fuel arbitrary: c) (simp_all split: if_splits)

lemma fat_chain_image:
  assumes v: "volume up b root0 root next l" and run: "(s, n) \<in> set (allocated_ranges l)"
    and room: "s + n \<le> 128 * fat_length l" and fuel: "n \<le> int fuel"
  shows "fat_chain fuel (fat_slot (image_sector l files)) s = [s..s + n - 1]"
proof -
  note alloc = built_allocation [OF volumeD(1,2) [OF v]]
  have sn: "2 \<le> s" "0 < n" using contiguous_bounds [OF alloc(2) run] by simp_all
  have "clusters_below 4294967295 (allocated_ranges l)"
    using volume_layout_ok [OF v] by (simp add: layout_ok_def)
  from fat_chain_run [OF alloc(3) this run, of s fuel]
  have chain: "fat_chain fuel (fat_entry (allocated_ranges l)) s = [s..s + n - 1]" using sn fuel by simp
  have "fat_chain fuel (fat_slot (image_sector l files)) s = fat_chain fuel (fat_entry (allocated_ranges l)) s"
    unfolding chain [symmetric]
    by (rule fat_chain_cong, rule fat_slot_entry [OF v]) (use chain sn room in auto)
  with chain show ?thesis by simp
qed

section \<open>Following a chain\<close>

definition cluster_bytes :: "exfat_layout \<Rightarrow> (int \<Rightarrow> bytes) \<Rightarrow> int \<Rightarrow> bytes" where
  "cluster_bytes l img c = image_window img (512 * region_start (cluster_heap_offset l) c) 131072"

definition read_chain :: "exfat_layout \<Rightarrow> (int \<Rightarrow> bytes) \<Rightarrow> nat \<Rightarrow> int \<Rightarrow> bytes" where
  \<comment> \<open>what a reader collects from at most \<open>fuel\<close> clusters\<close>
  "read_chain l img fuel c = concat (map (cluster_bytes l img) (fat_chain fuel (fat_slot img) c))"

lemma concat_clusters:
  "concat (map (cluster_bytes l img) [s..s + int n - 1]) =
     image_window img (512 * region_start (cluster_heap_offset l) s) (int n * 131072)"
proof (induction n)
  case 0
  then show ?case by (simp add: image_window_def)
next
  case (Suc n)
  have "[s..s + int (Suc n) - 1] = [s..s + int n - 1] @ [s + int n]"
    by (subst upto_rec2) auto
  moreover have "512 * region_start (cluster_heap_offset l) (s + int n) =
      512 * region_start (cluster_heap_offset l) s + int n * 131072"
    by (simp add: region_start_def algebra_simps)
  ultimately show ?case
    using Suc image_window_append [of "int n * 131072" 131072 img "512 * region_start (cluster_heap_offset l) s"]
    by (simp add: cluster_bytes_def algebra_simps)
qed

lemma read_file_chain:
  assumes v: "volume up b root0 root next l" and fm: "fm \<in> set (file_mappings l)"
    and content: "files (fm_source_path fm) = Some content"
    and room: "fm_start_cluster fm + fm_cluster_count fm \<le> 128 * fat_length l"
    and size: "0 \<le> fm_size_bytes fm" and fuel: "fm_cluster_count fm \<le> int fuel"
  shows "int (length (read_chain l (image_sector l files) fuel (fm_start_cluster fm))) =
      fm_cluster_count fm * 131072"
    and "take (nat (fm_size_bytes fm)) (read_chain l (image_sector l files) fuel (fm_start_cluster fm)) = ljust (nat (fm_size_bytes fm)) (take (nat (fm_size_bytes fm)) content)"
proof -
  let ?s = "fm_start_cluster fm" and ?n = "fm_cluster_count fm"
  note alloc = built_allocation [OF volumeD(1,2) [OF v]]
  have "(?s, ?n) \<in> set (allocated_ranges l)"
    using fm by (auto simp: alloc(1,4) mapping_of_def run_of_def)
  note chain = fat_chain_image [OF v this room fuel]
  have n: "?n = clusters_of (fm_size_bytes fm)" using alloc(5) fm by (auto simp: list_all_iff)
  then have pos: "0 < ?n" "fm_size_bytes fm \<le> ?n * 131072"
    using clusters_of_pos [of "fm_size_bytes fm"] clusters_of_ge [of "fm_size_bytes fm"] by simp_all
  have window: "read_chain l (image_sector l files) fuel ?s =
      image_window (image_sector l files) (512 * region_start (cluster_heap_offset l) ?s) (?n * 131072)"
    using concat_clusters [of l "image_sector l files" ?s "nat ?n"] pos(1)
    by (simp add: read_chain_def chain)
  with pos(1) show "int (length (read_chain l (image_sector l files) fuel ?s)) = ?n * 131072" by simp
  note window
  also have "region_start (cluster_heap_offset l) ?s = file_start_sector l fm"
    by (simp add: region_start_def file_start_sector_def layout_fields(3) [OF v])
  finally have "read_chain l (image_sector l files) fuel ?s =
      ljust (nat (?n * 131072)) (take (nat (?n * 131072)) content)"
    using file_contents [where files = files and off = 0 and n = "?n * 131072", OF v fm content] pos(1)
    by (simp add: slice_def)
  moreover have "nat (fm_size_bytes fm) \<le> nat (?n * 131072)" using pos by simp
  ultimately show "take (nat (fm_size_bytes fm)) (read_chain l (image_sector l files) fuel ?s) =
      ljust (nat (fm_size_bytes fm)) (take (nat (fm_size_bytes fm)) content)"
    by (auto simp: ljust_def min_def take_append)
qed

end
