(* ===== verification/MapperRanges.thy ===== *)
theory MapperRanges
  imports SectorMapper
begin

text \<open>
  The ranges handed to the prefetcher. \<open>_bounded_ranges\<close> merges what overlaps or
  touches and cuts what is too long: it covers the same bytes as its input, in ascending
  pieces that do not overlap, none longer than the bound.
\<close>

section \<open>Coverage and order\<close>

definition covered :: "cluster_range list \<Rightarrow> int set" where
  "covered rs = (\<Union>(s, n)\<in>set rs. {s..<s + n})"

lemma covered_simps [simp]:
  "covered [] = {}" "covered ((s, n) # rs) = {s..<s + n} \<union> covered rs"
  "covered (xs @ ys) = covered xs \<union> covered ys"
  by (auto simp: covered_def)

lemma covered_rev [simp]: "covered (rev rs) = covered rs"
  by (simp add: covered_def)

lemma covered_sort [simp]: "covered (sort rs) = covered rs"
  by (simp add: covered_def)

lemma covered_concat: "covered (concat (map f rs)) = (\<Union>r\<in>set rs. covered (f r))"
  by (induction rs) auto

lemma covered_positive: "covered (filter (\<lambda>(s, n). 0 < n) rs) = covered rs"
proof (induction rs)
  case (Cons r rs)
  then show ?case by (cases r) simp
qed simp

definition ascending :: "cluster_range list \<Rightarrow> bool" where
  \<comment> \<open>every range ends before or where the later ones start\<close>
  "ascending rs \<longleftrightarrow> sorted_wrt (\<lambda>(s, n) (t, _). s + n \<le> t) rs"

section \<open>Merging\<close>

definition merged_ok :: "cluster_range list \<Rightarrow> bool" where
  \<comment> \<open>newest first: positive lengths, with gaps between the ranges\<close>
  "merged_ok ms \<longleftrightarrow> list_all (\<lambda>(_, n). 0 < n) ms \<and> sorted_wrt (\<lambda>(t, _) (s, n). s + n < t) ms"

lemma merge_step_ok:
  assumes "merged_ok ms" "0 < n" "\<And>t m rest. ms = (t, m) # rest \<Longrightarrow> t \<le> s"
  shows "merged_ok (merge_step ms (s, n)) \<and> covered (merge_step ms (s, n)) = covered ms \<union> {s..<s + n} \<and>
    (\<exists>t m rest. merge_step ms (s, n) = (t, m) # rest \<and> t \<le> s)"
proof (cases ms)
  case Nil
  with assms(2) show ?thesis by (auto simp: merge_step_def merged_ok_def)
next
  case (Cons r rest)
  obtain t m where r: "r = (t, m)" by fastforce
  have t: "t \<le> s" and m: "0 < m" using assms Cons r by (auto simp: merged_ok_def)
  show ?thesis
  proof (cases "s \<le> t + m")
    case True
    have "{t..<t + m} \<union> {s..<s + n} = {t..<max (t + m) (s + n)}"
      using True t assms(2) m by auto
    then have "covered (merge_step ms (s, n)) = covered ms \<union> {s..<s + n}"
      using True Cons r by (simp add: merge_step_def) blast
    moreover have "merged_ok (merge_step ms (s, n))"
      using True Cons r assms(1) m by (auto simp: merge_step_def merged_ok_def)
    ultimately show ?thesis using True Cons r t by (simp add: merge_step_def)
  next
    case False
    have "u + k < s" if "(u, k) \<in> set rest" for u k
      using that assms(1) Cons r t by (fastforce simp: merged_ok_def)
    then have "merged_ok (merge_step ms (s, n))"
      using False Cons r assms(1,2) by (auto simp: merge_step_def merged_ok_def)
    then show ?thesis using False Cons r by (auto simp: merge_step_def)
  qed
qed

lemma merge_all_ok:
  assumes "sorted rs" "list_all (\<lambda>(_, n). 0 < n) rs" "merged_ok ms"
    and "\<And>t m rest r. ms = (t, m) # rest \<Longrightarrow> r \<in> set rs \<Longrightarrow> t \<le> fst r"
  shows "merged_ok (foldl merge_step ms rs) \<and> covered (foldl merge_step ms rs) = covered ms \<union> covered rs"
  using assms
proof (induction rs arbitrary: ms)
  case Nil
  then show ?case by simp
next
  case (Cons r rs)
  obtain s n where r: "r = (s, n)" by fastforce
  have le: "s \<le> fst q" if "q \<in> set rs" for q
    using Cons.prems(1) that by (auto simp: r less_eq_prod_def)
  have "0 < n" using Cons.prems(2) r by simp
  moreover have "t \<le> s" if "ms = (t, m) # rest" for t m rest
    using Cons.prems(4) [OF that, of r] r by simp
  ultimately obtain t m rest where step: "merged_ok (merge_step ms (s, n))"
      "covered (merge_step ms (s, n)) = covered ms \<union> {s..<s + n}"
      "merge_step ms (s, n) = (t, m) # rest" "t \<le> s"
    using merge_step_ok [OF Cons.prems(3), of n s] by blast
  have "merged_ok (foldl merge_step (merge_step ms r) rs) \<and>
      covered (foldl merge_step (merge_step ms r) rs) = covered (merge_step ms r) \<union> covered rs"
  proof (rule Cons.IH)
    show "sorted rs" "list_all (\<lambda>(_, n). 0 < n) rs" using Cons.prems by auto
    show "merged_ok (merge_step ms r)" using step(1) r by simp
  next
    fix t' m' rest' q assume "merge_step ms r = (t', m') # rest'" "q \<in> set rs"
    then show "t' \<le> fst q" using step(3,4) le [of q] r by simp
  qed
  then show ?case using step(2) r by auto
qed

lemma merged_ok_rev: "merged_ok ms \<Longrightarrow> ascending (rev ms) \<and> list_all (\<lambda>(_, n). 0 < n) (rev ms)"
  by (auto simp: merged_ok_def ascending_def sorted_wrt_rev list_all_iff case_prod_beta'
      elim!: sorted_wrt_mono_rel [rotated])

section \<open>Cutting\<close>

lemma split_range_spec:
  assumes "0 < n"
  shows "covered (split_range s n) = {s..<s + n} \<and> ascending (split_range s n) \<and>
    list_all (\<lambda>(t, m). s \<le> t \<and> t + m \<le> s + n \<and> 0 < m \<and> m \<le> 65536) (split_range s n)"
  using assms
proof (induction s n rule: split_range.induct)
  case (1 s n)
  show ?case
  proof (cases "65536 < n")
    case True
    let ?rest = "split_range (s + 65536) (n - 65536)"
    have IH: "covered ?rest = {s + 65536..<s + n}" "ascending ?rest"
        "list_all (\<lambda>(t, m). s + 65536 \<le> t \<and> t + m \<le> s + n \<and> 0 < m \<and> m \<le> 65536) ?rest"
      using 1 True by (auto simp: MAX_METADATA_PREFETCH_BYTES_def)
    moreover have "split_range s n = (s, 65536) # ?rest"
      using True by (simp add: split_range.simps [of s n] MAX_METADATA_PREFETCH_BYTES_def)
    moreover have "{s..<s + 65536} \<union> {s + 65536..<s + n} = {s..<s + n}" using True by auto
    ultimately have "covered (split_range s n) = {s..<s + n}" "ascending (split_range s n)"
        "list_all (\<lambda>(t, m). s \<le> t \<and> t + m \<le> s + n \<and> 0 < m \<and> m \<le> 65536) (split_range s n)"
      using True by (simp, fastforce simp: ascending_def list_all_iff, fastforce simp: list_all_iff)
    then show ?thesis by blast
  next
    case False
    with 1 show ?thesis
      by (simp add: split_range.simps [of s n] MAX_METADATA_PREFETCH_BYTES_def ascending_def)
  qed
qed

lemma cut_all_spec:
  assumes "ascending rs" "list_all (\<lambda>(_, n). 0 < n) rs"
  shows "ascending (concat (map (\<lambda>(s, n). split_range s n) rs)) \<and>
    covered (concat (map (\<lambda>(s, n). split_range s n) rs)) = covered rs \<and>
    list_all (\<lambda>(_, m). 0 < m \<and> m \<le> 65536) (concat (map (\<lambda>(s, n). split_range s n) rs)) \<and>
    list_all (\<lambda>(t, m). \<exists>(s, n)\<in>set rs. s \<le> t \<and> t + m \<le> s + n)
      (concat (map (\<lambda>(s, n). split_range s n) rs))"
  using assms
proof (induction rs)
  case Nil
  then show ?case by (simp add: ascending_def)
next
  case (Cons r rs)
  obtain s n where r: "r = (s, n)" by fastforce
  let ?cut = "concat (map (\<lambda>(s, n). split_range s n) rs)"
  have IH: "ascending ?cut" "covered ?cut = covered rs"
      "list_all (\<lambda>(_, m). 0 < m \<and> m \<le> 65536) ?cut"
      "list_all (\<lambda>(t, m). \<exists>(s, n)\<in>set rs. s \<le> t \<and> t + m \<le> s + n) ?cut"
    using Cons by (auto simp: ascending_def)
  have n: "0 < n" using Cons.prems(2) r by simp
  note first = split_range_spec [OF n, of s]
  have "s + n \<le> t" if mem: "(t, m) \<in> set ?cut" for t m
  proof -
    obtain u k where uk: "(u, k) \<in> set rs" "u \<le> t"
      using bspec [OF IH(4) [unfolded list_all_iff] mem] by auto
    have "\<forall>q\<in>set rs. case q of (u, k) \<Rightarrow> s + n \<le> u"
      using Cons.prems(1) r by (simp add: ascending_def)
    then have "s + n \<le> u" using uk(1) by blast
    moreover note uk(2)
    ultimately show ?thesis by linarith
  qed
  moreover have "t + m \<le> s + n" if "(t, m) \<in> set (split_range s n)" for t m
    using first that by (auto simp: list_all_iff)
  ultimately have asc: "ascending (split_range s n @ ?cut)"
    using first IH(1) unfolding ascending_def sorted_wrt_append by fastforce
  have "list_all (\<lambda>(t, m). s \<le> t \<and> t + m \<le> s + n \<and> 0 < m \<and> m \<le> 65536) (split_range s n)"
    using first by simp
  then have "list_all (\<lambda>(_, m). 0 < m \<and> m \<le> 65536) (split_range s n)"
      "list_all (\<lambda>(t, m). \<exists>(u, k)\<in>set (r # rs). u \<le> t \<and> t + m \<le> u + k) (split_range s n)"
    by (auto simp: list_all_iff r)
  moreover have "list_all (\<lambda>(t, m). \<exists>(u, k)\<in>set (r # rs). u \<le> t \<and> t + m \<le> u + k) ?cut"
    using IH(4) by (auto simp: list_all_iff)
  ultimately show ?case using first IH(2,3) asc r by simp
qed

lemma bounded_ranges_spec:
  "covered (bounded_ranges rs) = covered rs \<and> ascending (bounded_ranges rs) \<and>
   list_all (\<lambda>(_, m). 0 < m \<and> m \<le> 65536) (bounded_ranges rs)"
proof -
  define ps where "ps = sort (filter (\<lambda>(s, n). 0 < n) rs)"
  define ms where "ms = foldl merge_step [] ps"
  have "list_all (\<lambda>(_, n). 0 < n) ps" by (auto simp: ps_def list_all_iff)
  moreover have "sorted ps" by (simp add: ps_def)
  ultimately have ms: "merged_ok ms" "covered ms = covered ps"
    using merge_all_ok [of ps "[]"] by (auto simp: ms_def merged_ok_def)
  moreover have "covered ps = covered rs" by (simp add: ps_def covered_positive)
  moreover have "bounded_ranges rs = concat (map (\<lambda>(s, n). split_range s n) (rev ms))"
    by (simp add: bounded_ranges_def ms_def ps_def Let_def)
  ultimately show ?thesis using cut_all_spec [of "rev ms"] merged_ok_rev [of ms] by simp
qed

end
