(* ===== verification/VolumeFacts.thy ===== *)
theory VolumeFacts
  imports BuilderTotal VolumeContents MapperRanges
begin

text \<open>
  Further facts about a built volume: from a scanned tree to a volume, the boot regions,
  the agreement of FAT and bitmap, and the ranges of the metadata dictionary.
\<close>

section \<open>From a scanned tree to a volume\<close>

lemma build_volume:
  assumes "build fs limit up b = Inr l" "build_tree fs limit (cf_entries (bd_config b)) = Inr root0"
    and "all_fit root0" "builder_ok b"
  shows "\<exists>root nxt. volume up b root0 root nxt l"
proof -
  obtain root nxt where bt: "built up b root0 root nxt l" using build_parts [OF assms(1)] assms(2) by auto
  then have p: "place_all root0 (upcase_cluster l + 1) = Inr (root, nxt, file_mappings l)"
    by (rule builtD)
  have i: "info root0 = new_info [] [] [] True" by (rule build_tree_ok(2) [OF assms(2)])
  have root: "n_is_directory (info root0)" "n_virtual_path (info root0) = []"
    by (simp_all add: i new_info_def)
  have "all_fit root" using all_fit_erase [OF place_all_spec(1) [OF p]] assms(3) by simp
  then have "volume up b root0 root nxt l"
    unfolding volume_def using bt assms(4) build_tree_ok(1) [OF assms(2)] root by (intro conjI)
  then show ?thesis by blast
qed

text \<open>
  A successful build for an image of supported size, from a scanned tree in which every
  directory fits the clusters that \<open>_directory_cluster_count\<close> reserves for it.
\<close>

definition valid_build :: "source_fs \<Rightarrow> nat \<Rightarrow> (int \<Rightarrow> pystr) \<Rightarrow> builder \<Rightarrow> node \<Rightarrow> exfat_layout \<Rightarrow> bool" where
  "valid_build fs limit up b root0 l \<longleftrightarrow>
     build fs limit up b = Inr l \<and> build_tree fs limit (cf_entries (bd_config b)) = Inr root0 \<and>
     all_fit root0 \<and> builder_ok b"

lemma valid_build_volume:
  assumes "valid_build fs limit up b root0 l"
  obtains root nxt where "volume up b root0 root nxt l"
proof -
  have "\<exists>root nxt. volume up b root0 root nxt l"
    using assms unfolding valid_build_def by (elim conjE) (rule build_volume)
  then show thesis using that by blast
qed

lemma file_in_image:
  assumes v: "volume up b root0 root nxt l" and fm: "fm \<in> set (file_mappings l)"
  shows "0 \<le> file_start_sector l fm"
    "file_start_sector l fm + fm_cluster_count fm * 256 \<le> total_sectors l"
    "fm_size_bytes fm \<le> fm_cluster_count fm * 131072"
    "(fm_start_cluster fm, fm_cluster_count fm) \<in> set (allocated_ranges l)"
proof -
  note alloc = built_allocation [OF volumeD(1,2) [OF v]] and room = volume_room [OF v]
  show run: "(fm_start_cluster fm, fm_cluster_count fm) \<in> set (allocated_ranges l)"
    using fm by (auto simp: alloc(1,4) mapping_of_def run_of_def)
  have "2 \<le> fm_start_cluster fm" "fm_start_cluster fm + fm_cluster_count fm \<le> cluster_count l + 2"
    using contiguous_bounds [OF alloc(2) run] room(5) by simp_all
  then show "0 \<le> file_start_sector l fm"
    "file_start_sector l fm + fm_cluster_count fm * 256 \<le> total_sectors l"
    using room(1,2,4,6) by (simp_all add: file_start_sector_def layout_fields(3) [OF v])
  show "fm_size_bytes fm \<le> fm_cluster_count fm * 131072"
    using alloc(5) fm clusters_of_ge [of "fm_size_bytes fm"] by (auto simp: list_all_iff)
qed

section \<open>Boot regions\<close>

lemma boot_fields:
  assumes "boot_sectors b fo fl ho cc root = Inr boot"
  shows "length boot = 5632" "slice 0 11 boot = [0xEB, 0x76, 0x90, 0x45, 0x58, 0x46, 0x41, 0x54, 0x20, 0x20, 0x20]"
    "field 64 8 boot = 0" "field 72 8 boot = bd_total_sectors b"
    "field 80 4 boot = fo" "field 84 4 boot = fl" "field 88 4 boot = ho"
    "field 92 4 boot = cc" "field 96 4 boot = root"
    "slice 510 2 boot = [0x55, 0xAA]"
proof -
  obtain label serial where b: "0 \<le> bd_total_sectors b" "bd_total_sectors b < 18446744073709551616"
      "0 \<le> fo" "fo < 4294967296" "0 \<le> fl" "fl < 4294967296" "0 \<le> ho" "ho < 4294967296"
      "0 \<le> cc" "cc < 4294967296" "0 \<le> root" "root < 4294967296"
    and boot: "boot = writes [(510, [0x55, 0xAA]), (108, [9, 8, 1, 0x80, 0xFF]),
      (106, le_bytes 2 0), (104, le_bytes 2 256), (100, le_bytes 4 serial),
      (96, le_bytes 4 root), (92, le_bytes 4 cc), (88, le_bytes 4 ho),
      (84, le_bytes 4 fl), (80, le_bytes 4 fo), (72, le_bytes 8 (bd_total_sectors b)),
      (64, le_bytes 8 0), (11, replicate 53 0),
      (0, [0xEB, 0x76, 0x90, 0x45, 0x58, 0x46, 0x41, 0x54, 0x20, 0x20, 0x20])]
      (replicate 5632 0)" (is "_ = writes ?ws _")
    using assms by (auto simp: boot_sectors_def Let_def result_simps EXFAT_BOOT_SIGNATURE_def writes_def)
  have inside: "list_all (\<lambda>(a, d). a + length d \<le> length (replicate 5632 (0 :: byte))) ?ws" by simp
  note slot = slice_writes [OF _ inside, folded boot]
  show "length boot = 5632" using length_writes [OF inside] by (simp add: boot)
  show "slice 0 11 boot = [0xEB, 0x76, 0x90, 0x45, 0x58, 0x46, 0x41, 0x54, 0x20, 0x20, 0x20]"
    "slice 510 2 boot = [0x55, 0xAA]"
    by (rule slot; simp)+
  have "slice 64 8 boot = le_bytes 8 0" "slice 72 8 boot = le_bytes 8 (bd_total_sectors b)"
      "slice 80 4 boot = le_bytes 4 fo" "slice 84 4 boot = le_bytes 4 fl" "slice 88 4 boot = le_bytes 4 ho"
      "slice 92 4 boot = le_bytes 4 cc" "slice 96 4 boot = le_bytes 4 root"
    by (rule slot; simp)+
  then show "field 64 8 boot = 0" "field 72 8 boot = bd_total_sectors b" "field 80 4 boot = fo"
    "field 84 4 boot = fl" "field 88 4 boot = ho" "field 92 4 boot = cc" "field 96 4 boot = root"
    using b by (simp_all only: field_def) (simp_all add: u32.dec_enc u64.dec_enc del: le_bytes.simps)
qed

lemma boot_covers_none:
  assumes v: "volume up b root0 root nxt l" and rs: "volume_regions up b root l = Inr rs" and "s < 24"
  shows "list_all (\<lambda>r. \<not> covers (cluster_heap_offset l) r s) rs"
  using region_cluster(2) [OF v rs] volume_room(1,2,4) [OF v] assms(3)
  by (fastforce simp: list_all_iff)

lemma boot_image:
  assumes v: "volume up b root0 root nxt l"
  obtains boot where
    "boot_sectors b (fat_offset l) (fat_length l) (cluster_heap_offset l) (cluster_count l)
       (root_dir_cluster l) = Inr boot"
    "image_window (image_sector l files) 0 5632 = boot"
    "image_window (image_sector l files) 5632 512 = concat (replicate 128 (le_bytes 4 (boot_checksum boot)))"
    "image_window (image_sector l files) 6144 6144 = image_window (image_sector l files) 0 6144"
proof (rule volume_metadata [OF v])
  fix boot region rs
  assume boot: "boot_sectors b (fat_offset l) (fat_length l) (cluster_heap_offset l) (cluster_count l)
       (n_first_cluster (info root)) = Inr boot" "boot_region boot = Inr region"
    and rs: "volume_regions up b root l = Inr rs"
    and lookup: "\<And>s. list_all (\<lambda>r. \<not> covers (cluster_heap_offset l) r s) rs \<Longrightarrow>
       map_of (metadata l) s = (if 0 \<le> s \<and> s < 24 then Some (slice (nat (s mod 12 * 512)) 512 region) else None)"
  note br = boot_region_spec [OF boot(2) boot_sectors_length [OF boot(1)]]
  have img: "image_sector l files s = file_sector region (s mod 12 * 512)" if "0 \<le> s" "s < 24" for s
  proof -
    have "0 \<le> s mod 12" "s mod 12 < 12" by simp_all
    then have "nat (s mod 12 * 512) + 512 \<le> length region" using br(1) by linarith
    then have "slice (nat (s mod 12 * 512)) 512 region = file_sector region (s mod 12 * 512)"
      by (simp add: file_sector_def)
    moreover have "map_of (metadata l) s = Some (slice (nat (s mod 12 * 512)) 512 region)"
      using lookup [OF boot_covers_none [OF v rs that(2)]] that by simp
    ultimately show ?thesis by (simp add: image_sector_def metadata_sector_cases [OF v])
  qed
  have one: "image_sector l files k = file_sector region ((k - 0) * 512)" if "0 \<le> k" "k < 0 + 12" for k
    using img [of k] that by simp
  have two: "image_sector l files k = file_sector region ((k - 12) * 512)" if "12 \<le> k" "k < 12 + 12" for k
  proof -
    have "k mod 12 = k - 12" using that by presburger
    then show ?thesis using img [of k] that by simp
  qed
  note at0 = stored_window [where a = 0 and m = 12 and d = region, OF one]
    and at12 = stored_window [where a = 12 and m = 12 and d = region, OF two]
  have w: "image_window (image_sector l files) 0 6144 = region"
    using at0 [of 0 6144] br(1) by (simp add: slice_def)
  show thesis
  proof (rule that [of boot])
    show "boot_sectors b (fat_offset l) (fat_length l) (cluster_heap_offset l) (cluster_count l)
       (root_dir_cluster l) = Inr boot"
      using boot(1) builtD(11) [OF volumeD(1) [OF v]] by simp
    show "image_window (image_sector l files) 6144 6144 = image_window (image_sector l files) 0 6144"
      using at12 [of 0 6144] br(1) by (simp add: slice_def w)
    show "image_window (image_sector l files) 0 5632 = boot"
      using at0 [of 0 5632] br(1,2) boot_sectors_length [OF boot(1)] by (simp add: slice_def)
    show "image_window (image_sector l files) 5632 512 = concat (replicate 128 (le_bytes 4 (boot_checksum boot)))"
      using at0 [of 5632 512] br(1,3)
      by (simp add: slice_def length_concat sum_list_replicate)
  qed
qed

section \<open>FAT and bitmap\<close>

definition bitmap_bit :: "exfat_layout \<Rightarrow> (int \<Rightarrow> bytes) \<Rightarrow> int \<Rightarrow> bool" where
  \<comment> \<open>the bit of a cluster in the bitmap at cluster 2\<close>
  "bitmap_bit l img c =
     bit (image_byte img (512 * cluster_heap_offset l + (c - 2) div 8)) (nat ((c - 2) mod 8))"

lemma bitmap_bit_allocated:
  assumes v: "volume up b root0 root nxt l" and c: "2 \<le> c" "c < cluster_count l + 2"
  shows "bitmap_bit l (image_sector l files) c \<longleftrightarrow> c < nxt"
proof -
  define j k where "j = nat ((c - 2) mod 4096)" and "k = (c - 2) div 4096"
  have jk: "c - 2 = 4096 * k + int j" "j < 4096" by (simp_all add: j_def k_def)
  have k0: "0 \<le> k" using c by (simp add: k_def pos_imp_zdiv_nonneg_iff)
  have "c - 2 = 8 * (512 * k) + int j" using jk(1) by simp
  then have "(c - 2) div 8 = 512 * k + int (j div 8)" "(c - 2) mod 8 = int (j mod 8)"
    by (simp_all only: div_mult_self4 mod_mult_self4 zdiv_int zmod_int) simp_all
  moreover have "j div 8 < 512" using jk(2) by (simp add: less_mult_imp_div_less)
  moreover have pos: "512 * cluster_heap_offset l + (512 * k + int (j div 8)) =
      512 * (cluster_heap_offset l + k) + int (j div 8)" by simp
  define q where "q = cluster_heap_offset l + k"
  have "(512 * q + int (j div 8)) div 512 = q" "(512 * q + int (j div 8)) mod 512 = int (j div 8)"
    using \<open>j div 8 < 512\<close> by simp_all
  ultimately have byte: "image_byte (image_sector l files) (512 * cluster_heap_offset l + (c - 2) div 8) =
      image_sector l files q ! (j div 8)"
    by (simp add: image_byte_def q_def)
  have "k < ceil_div (bitmap_length l) 512"
  proof -
    have "\<not> ceil_div (bitmap_length l) 512 \<le> k"
    proof
      assume "ceil_div (bitmap_length l) 512 \<le> k"
      then have "bitmap_length l \<le> k * 512" by (simp add: ceil_div_le_iff)
      then have "cluster_count l \<le> k * 512 * 8"
        using layout_fields(5) [OF v] ceil_div_le_iff [of 8 "cluster_count l" "k * 512"] by (simp add: ceil_div_def)
      with jk(1) c show False by simp
    qed
    then show ?thesis by simp
  qed
  from bitmap_lookup [OF v k0 this]
  have "image_sector l files q = bitmap_sector l k" by (simp add: image_sector_def q_def)
  moreover have "bit (bitmap_sector l k ! (j div 8)) (j mod 8) \<longleftrightarrow>
      allocated (allocated_ranges l) (2 + k * 4096 + int j)"
    by (rule bitmap_sector_bits(2) [OF jk(2)])
  moreover have "2 + k * 4096 + int j = c" using jk(1) by simp
  moreover have "allocated (allocated_ranges l) c \<longleftrightarrow> 2 \<le> c \<and> c < nxt"
    using built_allocation(2) [OF volumeD(1,2) [OF v]] by (rule contiguous_covers)
  moreover have "nat ((c - 2) mod 8) = j mod 8"
    using \<open>(c - 2) mod 8 = int (j mod 8)\<close> by simp
  ultimately show ?thesis using byte c by (simp add: bitmap_bit_def)
qed

lemma fat_slot_free:
  assumes v: "volume up b root0 root nxt l" and c: "2 \<le> c" "c < 128 * fat_length l"
  shows "fat_slot (image_sector l files) c = 0 \<longleftrightarrow> nxt \<le> c"
proof -
  note alloc = built_allocation [OF volumeD(1,2) [OF v]]
  have al: "allocated (allocated_ranges l) c \<longleftrightarrow> c < nxt"
    using contiguous_covers [OF alloc(2), of c] c(1) by simp
  have e: "fat_slot (image_sector l files) c = fat_entry (allocated_ranges l) c"
    using fat_slot_entry [OF v _ c(2)] c(1) by simp
  show ?thesis
  proof (cases "c < nxt")
    case True
    then obtain s n where sn: "(s, n) \<in> set (allocated_ranges l)" "s \<le> c" "c < s + n"
      using al by (auto simp: allocated_def list_ex_iff)
    from fat_entry_run [OF alloc(3) this] show ?thesis using True c(1) by (auto simp: e)
  next
    case False
    then show ?thesis using fat_entry_free [OF c(1)] al by (simp add: e)
  qed
qed

section \<open>Ranges of the dictionary\<close>

lemma ranges_fold:
  assumes "sorted ss" "distinct ss" "\<And>s n rest k. rs = (s, n) # rest \<Longrightarrow> k \<in> set ss \<Longrightarrow> s + n \<le> k * 512"
    and "list_all (\<lambda>(_, n). 0 < n) rs" "ascending (rev rs)"
  shows "covered (fold ranges_step ss rs) = covered rs \<union> (\<Union>k\<in>set ss. {k * 512..<k * 512 + 512}) \<and>
    list_all (\<lambda>(_, n). 0 < n) (fold ranges_step ss rs) \<and> ascending (rev (fold ranges_step ss rs))"
  using assms
proof (induction ss arbitrary: rs)
  case Nil
  then show ?case by simp
next
  case (Cons k ss)
  have gt: "k + 1 \<le> k'" if "k' \<in> set ss" for k'
  proof -
    have "k \<le> k'" "k \<noteq> k'" using Cons.prems(1,2) that by auto
    then show ?thesis by simp
  qed
  have step: "covered (ranges_step k rs) = covered rs \<union> {k * 512..<k * 512 + 512} \<and>
      list_all (\<lambda>(_, n). 0 < n) (ranges_step k rs) \<and> ascending (rev (ranges_step k rs)) \<and>
      (\<exists>s n rest. ranges_step k rs = (s, n) # rest \<and> s + n = k * 512 + 512)"
  proof (cases rs)
    case Nil
    then show ?thesis by (simp add: ranges_step_def ascending_def)
  next
    case (Cons r rest)
    obtain s n where r: "r = (s, n)" by fastforce
    have le: "s + n \<le> k * 512" using Cons.prems(3) [of s n rest k] Cons r by simp
    have n: "0 < n" using Cons.prems(4) Cons r by simp
    have prev: "t + m \<le> s" if "(t, m) \<in> set rest" for t m
      using Cons.prems(5) Cons r that by (fastforce simp: ascending_def sorted_wrt_append)
    have asc: "ascending (rev rest)" using Cons.prems(5) Cons by (simp add: ascending_def sorted_wrt_append)
    show ?thesis
    proof (cases "s + n = k * 512")
      case True
      have "{s..<s + n} \<union> {k * 512..<k * 512 + 512} = {s..<s + n + 512}" using True n by auto
      then show ?thesis
        using True Cons r n prev asc Cons.prems(4)
        by (auto simp: ranges_step_def ascending_def sorted_wrt_append add.assoc)
    next
      case False
      then show ?thesis
        using Cons r n prev asc Cons.prems(4) le
        by (fastforce simp: ranges_step_def ascending_def sorted_wrt_append)
    qed
  qed
  then have "\<And>s n rest k'. ranges_step k rs = (s, n) # rest \<Longrightarrow> k' \<in> set ss \<Longrightarrow> s + n \<le> k' * 512"
    using gt by fastforce
  from Cons.IH [OF _ _ this] step Cons.prems(1,2) show ?case by auto
qed

lemma metadata_ranges_spec:
  assumes "distinct (map fst md)"
  shows "covered (metadata_ranges md) = (\<Union>k\<in>fst ` set md. {k * 512..<k * 512 + 512})"
    "ascending (metadata_ranges md)"
  using ranges_fold [of "sort (map fst md)" "[]"] assms
  by (simp_all add: metadata_ranges_def ascending_def)

end
