(* ===== verification/Sample.thy ===== *)
theory Sample
  imports VolumeFacts
begin

text \<open>
  A concrete source tree and configuration, at which the general theorems are applied: one
  file \<open>a\<close> and one directory \<open>d\<close> with a file \<open>b\<close>, in an image of 1 GiB.
\<close>

definition sample_time :: int where "sample_time = 1700000000123456789"

definition sample_stat :: "int \<Rightarrow> stat_result" where
  "sample_stat n = \<lparr>st_size = n, st_atime_ns = sample_time, st_mtime_ns = sample_time,
     st_birthtime_ns = None\<rparr>"

definition path_bytes :: "string \<Rightarrow> bytes" where
  "path_bytes s = map of_char s"

definition sample_fs :: source_fs where
  "sample_fs = \<lparr>fs_statx = None,
     fs_stat = (\<lambda>p. if p = path_bytes ''/m/a'' then Inr (sample_stat 5)
                 else if p = path_bytes ''/m/d'' then Inr (sample_stat 4096)
                 else if p = path_bytes ''/m/d/b'' then Inr (sample_stat 200000)
                 else Inl (OSError 2)),
     fs_scandir = (\<lambda>p. if p = path_bytes ''/m/d''
       then Inr [\<lparr>de_name = lit ''b'', de_is_dir = Inr False, de_is_file = Inr True\<rparr>]
       else Inl (OSError 20))\<rparr>"

definition sample_source :: source_config where
  "sample_source = \<lparr>sc_name = lit ''nas'', sc_protocol = lit ''nfs'', sc_endpoint = lit ''nas:/games'',
     sc_mount_point = lit ''/m'', sc_read_only = True, sc_options = DEFAULT_NFS_OPTIONS,
     sc_credentials_file = None\<rparr>"

definition sample_config :: config where
  "sample_config = \<lparr>cf_image_size_gib = 1, cf_cluster_size_kib = 128, cf_label = lit ''REMOTEPFS'',
     cf_oem_name = lit ''REMOTEPF'', cf_sources = [sample_source],
     cf_entries = [
       \<lparr>ec_virtual_path = lit ''d'', ec_source = lit ''/m/d'', ec_type = EntryDirectory\<rparr>,
       \<lparr>ec_virtual_path = lit ''a'', ec_source = lit ''/m/a'', ec_type = EntryFile\<rparr>],
     cf_usb_port = lit ''auto'', cf_prefetch = default_prefetch, cf_image_size_bytes_override = None\<rparr>"

definition sample_upper :: "int \<Rightarrow> pystr" where
  "sample_upper c = (if 97 \<le> c \<and> c \<le> 122 then [c - 32] else [c])"

definition sample_builder :: builder where
  "sample_builder = \<lparr>bd_config = sample_config, bd_total_bytes = 1073741824, bd_total_sectors = 2097152\<rparr>"

definition sample_info :: "string \<Rightarrow> string \<Rightarrow> string \<Rightarrow> bool \<Rightarrow> int \<Rightarrow> int \<Rightarrow> int \<Rightarrow> node_info" where
  "sample_info name vp sp dir n first count =
     \<lparr>n_name = lit name, n_virtual_path = lit vp, n_source_path = lit sp, n_is_directory = dir,
      n_size_bytes = n, n_first_cluster = first, n_cluster_count = count,
      n_created_ns = sample_time, n_modified_ns = sample_time, n_accessed_ns = sample_time\<rparr>"

definition sample_scanned :: node where
  "sample_scanned = Node (new_info [] [] [] True)
     [Node (sample_info ''a'' ''a'' ''/m/a'' False 5 0 0) [],
      Node (sample_info ''d'' ''d'' ''/m/d'' True 0 0 0)
        [Node (sample_info ''b'' ''d/b'' ''/m/d/b'' False 200000 0 0) []]]"

definition sample_placed :: node where
  "sample_placed = Node ((new_info [] [] [] True)\<lparr>n_first_cluster := 4, n_cluster_count := 1\<rparr>)
     [Node (sample_info ''a'' ''a'' ''/m/a'' False 5 6 1) [],
      Node (sample_info ''d'' ''d'' ''/m/d'' True 0 5 1)
        [Node (sample_info ''b'' ''d/b'' ''/m/d/b'' False 200000 7 2) []]]"

definition sample_mapping_a :: file_mapping where
  "sample_mapping_a = mapping_of (sample_info ''a'' ''a'' ''/m/a'' False 5 6 1)"

definition sample_mapping_b :: file_mapping where
  "sample_mapping_b = mapping_of (sample_info ''b'' ''d/b'' ''/m/d/b'' False 200000 7 2)"

lemma sample_new_builder: "new_builder sample_config = Inr sample_builder"
  by (simp add: new_builder_def sample_config_def sample_builder_def image_size_bytes_def)

lemma sample_build_tree: "build_tree sample_fs 1000 (cf_entries sample_config) = Inr sample_scanned"
  by code_simp

lemma sample_geometry: "geometry sample_builder = (2048, 256, 4096, 8176)"
  by code_simp

lemma sample_place:
  "place_all sample_scanned 4 = Inr (sample_placed, 9, [sample_mapping_a, sample_mapping_b])"
  by code_simp

lemma sample_upper_ok: "upper_ok sample_upper"
  by (auto simp: upper_ok_def sample_upper_def)

lemma sample_fine: "tree_fine sample_scanned"
  by code_simp

lemma sample_small: "small_tree sample_scanned"
  by code_simp

lemma sample_all_fit: "all_fit sample_scanned"
  by (rule small_tree_fit [OF sample_fine _ sample_small]) (simp add: sample_scanned_def new_info_def)

lemma sample_builder_ok: "builder_ok sample_builder"
  by (simp add: builder_ok_def sample_builder_def)

lemma sample_label: "list_all (\<lambda>c. 0 \<le> c \<and> c < 128) (cf_label (bd_config sample_builder))"
  by (simp add: sample_builder_def sample_config_def)

lemma sample_entries: "cf_entries (bd_config sample_builder) = cf_entries sample_config"
  by (simp add: sample_builder_def)

lemma sample_build:
  "\<exists>l. build sample_fs 1000 sample_upper sample_builder = Inr l \<and>
     built sample_upper sample_builder sample_scanned sample_placed 9 l"
proof -
  have tree: "build_tree sample_fs 1000 (cf_entries (bd_config sample_builder)) = Inr sample_scanned"
    by (simp add: sample_entries sample_build_tree)
  have "2 + clusters_of ((8176 + 7) div 8) + 1 = 4" by (simp add: clusters_of_def)
  with build_outcome [OF tree sample_fine sample_builder_ok sample_upper_ok sample_label sample_geometry]
  show ?thesis by (simp add: sample_place)
qed

lemma sample_volume:
  assumes "built sample_upper sample_builder sample_scanned sample_placed 9 l"
  shows "volume sample_upper sample_builder sample_scanned sample_placed 9 l"
    "fat_length l = 256" "file_mappings l = [sample_mapping_a, sample_mapping_b]"
proof -
  have g: "fat_length l = 256" "cluster_count l = 8176"
    using builtD(1) [OF assms] by (simp_all add: sample_geometry)
  then show "fat_length l = 256" by simp
  have uc: "upcase_cluster l + 1 = 4"
    using builtD(6,7) [OF assms] g by (simp add: clusters_of_def)
  have p: "place_all sample_scanned 4 = Inr (sample_placed, 9, file_mappings l)"
    using builtD(8) [OF assms] by (simp only: uc)
  then show "file_mappings l = [sample_mapping_a, sample_mapping_b]" by (simp add: sample_place)
  have "all_fit sample_placed" using all_fit_erase [OF place_all_spec(1) [OF p]] sample_all_fit by simp
  moreover have "tree_ok [sample_scanned]"
    by (rule build_tree_ok(1) [OF sample_build_tree])
  ultimately show "volume sample_upper sample_builder sample_scanned sample_placed 9 l"
    using assms sample_builder_ok by (simp add: volume_def sample_scanned_def new_info_def)
qed

lemma sample_valid:
  "build sample_fs 1000 sample_upper sample_builder = Inr l \<Longrightarrow>
     valid_build sample_fs 1000 sample_upper sample_builder sample_scanned l"
  using sample_build_tree sample_all_fit sample_builder_ok
  by (simp add: valid_build_def sample_entries)

section \<open>Storage behind the sources\<close>

definition sample_files :: "pystr \<rightharpoonup> bytes" where
  "sample_files = [lit ''/m/a'' \<mapsto> [104, 101, 108, 108, 111], lit ''/m/d/b'' \<mapsto> replicate 200000 7]"

definition sample_world :: world where
  "sample_world = \<lparr>w_open = (\<lambda>p. if sample_files p = None then Some 2 else None),
     w_pread = (\<lambda>p n off. case sample_files p of None \<Rightarrow> Inl (OSError 9)
       | Some content \<Rightarrow> Inr (take (nat n) (drop (nat off) content))),
     w_close = (\<lambda>_. None), w_fds = [], w_next_fd = 3\<rparr>"

lemma sample_serves: "serves sample_world sample_files" "fds_ok sample_world"
  by (auto simp: serves_def sample_world_def fds_ok_def)

lemma sample_sources:
  "list_all (\<lambda>fm. sample_files (fm_source_path fm) \<noteq> None) [sample_mapping_a, sample_mapping_b]"
  by (simp add: sample_files_def sample_mapping_a_def sample_mapping_b_def mapping_of_def sample_info_def)

end
