(* ===== verification/MapperExtents.thy ===== *)
theory MapperExtents
  imports MapperRead
begin

text \<open>
  Extents. The extents of a request tile its sector-aligned window with maximal runs, and a
  run reported as zero reads as zeros.
\<close>

section \<open>Any probe of sectors\<close>

fun tiles :: "int \<Rightarrow> int \<Rightarrow> (int \<times> int \<times> bool) list \<Rightarrow> bool" where
  "tiles cursor stop [] \<longleftrightarrow> stop \<le> cursor"
| "tiles cursor stop ((s, n, z) # xs) \<longleftrightarrow>
     s = cursor \<and> cursor < stop \<and> 0 < n \<and> n mod 512 = 0 \<and> tiles (cursor + n) stop xs"

definition runs_of :: "(int \<Rightarrow> bool) \<Rightarrow> (int \<times> int \<times> bool) list \<Rightarrow> bool" where
  \<comment> \<open>each run has one kind, and the next run the other one\<close>
  "runs_of isz xs \<longleftrightarrow>
     list_all (\<lambda>(s, n, z). list_all (\<lambda>k. isz k = z) [s div 512..(s + n) div 512 - 1]) xs \<and>
     successively (\<lambda>(_, _, z) (_, _, z'). z \<noteq> z') xs"

locale sector_probe =
  fixes zero :: "int \<Rightarrow> ('s, bool) prog"
    and inv :: "'s \<Rightarrow> bool"
    and sectors :: int
    and isz :: "int \<Rightarrow> bool"
  assumes probe: "inv s \<Longrightarrow> 0 \<le> k \<Longrightarrow> k < sectors \<Longrightarrow> \<exists>s'. zero k s = (Inr (isz k), s') \<and> inv s'"
begin

lemma run_loop_spec:
  assumes "inv s" "0 \<le> c" "c mod 512 = 0" "stop \<le> 512 * sectors"
  shows "\<exists>c' s'. run_loop zero z c stop s = (Inr c', s') \<and> inv s' \<and> c \<le> c' \<and> c' mod 512 = 0 \<and>
    (\<forall>k\<in>{c div 512..<c' div 512}. isz k = z) \<and> (c' < stop \<longrightarrow> isz (c' div 512) \<noteq> z)"
  using assms
proof (induction "nat (stop - c)" arbitrary: c s rule: less_induct)
  case less
  show ?case
  proof (cases "c < stop")
    case False
    with less.prems show ?thesis by (simp add: run_loop.simps [of zero z c])
  next
    case True
    have k: "0 \<le> c div 512" "c div 512 < sectors"
      using less.prems True by (simp_all add: pos_imp_zdiv_nonneg_iff int_div_less_iff)
    then obtain s1 where s1: "zero (c div 512) s = (Inr (isz (c div 512)), s1)" "inv s1"
      using probe less.prems(1) by blast
    show ?thesis
    proof (cases "isz (c div 512) = z")
      case False
      with True s1 less.prems(3) show ?thesis by (auto simp: run_loop.simps [of zero z c] bindp_def)
    next
      case same: True
      obtain c' s' where c': "run_loop zero z (c + 512) stop s1 = (Inr c', s')" "inv s'"
          "c + 512 \<le> c'" "c' mod 512 = 0" "\<forall>k\<in>{(c + 512) div 512..<c' div 512}. isz k = z"
          "c' < stop \<longrightarrow> isz (c' div 512) \<noteq> z"
        using less.hyps [of "c + 512" s1] less.prems s1(2) True by auto
      have "{c div 512..<c' div 512} \<subseteq> insert (c div 512) {(c + 512) div 512..<c' div 512}"
        by auto
      then have "\<forall>k\<in>{c div 512..<c' div 512}. isz k = z" using c'(5) same by blast
      then show ?thesis
        using True s1(1) same c'(1-4,6) by (intro exI [of _ c'] exI [of _ s'] conjI)
          (simp_all add: run_loop.simps [of zero z c] bindp_def)
    qed
  qed
qed

lemma extents_loop_spec:
  assumes "inv s" "0 \<le> c" "c mod 512 = 0" "stop \<le> 512 * sectors" "stop - c \<le> int fuel"
  shows "\<exists>xs s'. extents_loop fuel zero c stop s = (Inr xs, s') \<and> inv s' \<and>
    tiles c stop xs \<and> runs_of isz xs \<and> (xs \<noteq> [] \<longrightarrow> snd (snd (hd xs)) = isz (c div 512))"
  using assms
proof (induction fuel arbitrary: c s)
  case 0
  then show ?case by (simp add: runs_of_def)
next
  case (Suc fuel)
  show ?case
  proof (cases "c < stop")
    case False
    with Suc.prems show ?thesis by (simp add: runs_of_def)
  next
    case True
    have k: "0 \<le> c div 512" "c div 512 < sectors"
      using Suc.prems True by (simp_all add: pos_imp_zdiv_nonneg_iff int_div_less_iff)
    then obtain s1 where s1: "zero (c div 512) s = (Inr (isz (c div 512)), s1)" "inv s1"
      using probe Suc.prems(1) by blast
    let ?z = "isz (c div 512)"
    have next_ok: "0 \<le> c + 512" "(c + 512) mod 512 = 0" using Suc.prems(2,3) by simp_all
    obtain c' s2 where c': "run_loop zero ?z (c + 512) stop s1 = (Inr c', s2)" "inv s2"
        "c + 512 \<le> c'" "c' mod 512 = 0" "\<forall>k\<in>{(c + 512) div 512..<c' div 512}. isz k = ?z"
        "c' < stop \<longrightarrow> isz (c' div 512) \<noteq> ?z"
      using run_loop_spec [OF s1(2) next_ok Suc.prems(4), of ?z] by (elim exE conjE) (rule that)
    obtain xs s3 where xs: "extents_loop fuel zero c' stop s2 = (Inr xs, s3)" "inv s3"
        "tiles c' stop xs" "runs_of isz xs" "xs \<noteq> [] \<longrightarrow> snd (snd (hd xs)) = isz (c' div 512)"
      using Suc.IH [of s2 c'] Suc.prems(2-5) c'(2-4) by auto
    have run: "list_all (\<lambda>k. isz k = ?z) [c div 512..c' div 512 - 1]"
      unfolding list_all_iff
    proof
      fix k assume "k \<in> set [c div 512..c' div 512 - 1]"
      then have "k = c div 512 \<or> k \<in> {(c + 512) div 512..<c' div 512}" by auto
      then show "isz k = ?z" using c'(5) by blast
    qed
    have diff: "snd (snd (hd xs)) \<noteq> ?z" if "xs \<noteq> []"
    proof -
      have "c' < stop" using that xs(3) by (cases xs) auto
      then show ?thesis using that c'(6) xs(5) by simp
    qed
    have "runs_of isz ((c, c' - c, ?z) # xs)"
      using xs(4) run diff by (cases xs) (auto simp: runs_of_def)
    moreover have "(c' - c) mod 512 = 0"
      using c'(4) Suc.prems(3) by (simp add: mod_eq_0_iff_dvd)
    ultimately show ?thesis using True s1(1) c' xs by (auto simp: bindp_def)
  qed
qed

end

section \<open>The mapper as a probe\<close>

definition sector_is_zero :: "exfat_layout \<Rightarrow> int \<Rightarrow> bool" where
  "sector_is_zero l k \<longleftrightarrow>
     (case metadata_sector l k of Inr None \<Rightarrow> find (covers_sector l k) (file_mappings l) = None
      | _ \<Rightarrow> False)"

lemma zero_sector_spec:
  assumes "mapper_inv l files m" "0 \<le> k" "k < total_sectors l"
  shows "\<exists>m'. zero_sector k m = (Inr (sector_is_zero l k), m') \<and> mapper_inv l files m'"
  using assms
  by (cases rule: mapper_map_cases)
    (auto simp: zero_sector_def bindp_def sector_is_zero_def metadata_mapping_def
      file_mapping_at_def zero_mapping_def assms(1))

interpretation mapper_probe: sector_probe zero_sector "mapper_inv l files" "total_sectors l"
  "sector_is_zero l" for l files
  by unfold_locales (rule zero_sector_spec)

lemma image_zero_sector: "sector_is_zero l k \<Longrightarrow> image_sector l files k = replicate 512 0"
  by (auto simp: sector_is_zero_def image_sector_def split: sum.splits option.splits)

lemma zero_run_reads_zero:
  assumes "list_all (sector_is_zero l) [s div 512..(s + n) div 512 - 1]"
    and "s mod 512 = 0" "n mod 512 = 0" "0 < n"
  shows "image_window (image_sector l files) s n = replicate (nat n) 0"
proof (rule nth_equalityI)
  fix i assume "i < length (image_window (image_sector l files) s n)"
  then have i: "int i < n" "i < nat n" using assms(4) by auto
  have "(s + int i) div 512 < (s + n) div 512"
  proof -
    have "(s + n) mod 512 = 0" using assms(2,3) by (simp add: mod_add_eq [symmetric])
    then have "(s + n) div 512 * 512 = s + n" by auto
    with i show ?thesis by (simp add: int_div_less_iff)
  qed
  moreover have "s div 512 \<le> (s + int i) div 512" by (intro zdiv_mono1) auto
  ultimately have "sector_is_zero l ((s + int i) div 512)"
    using assms(1) by (simp add: list_all_iff)
  then have "image_sector l files ((s + int i) div 512) = replicate 512 0"
    by (rule image_zero_sector)
  then show "image_window (image_sector l files) s n ! i = replicate (nat n) 0 ! i"
    using i by (simp add: image_window_def image_byte_def nat_less_iff)
qed simp

lemma mapper_extents_spec:
  assumes inv: "mapper_inv l files m" and off: "0 \<le> off" "0 < count"
  defines "start \<equiv> off - off mod 512"
    and "stop \<equiv> min (total_bytes l) ((off + count + 511) div 512 * 512)"
  shows "\<exists>xs m'. mapper_extents off count m = (Inr xs, m') \<and> mapper_inv l files m' \<and>
    tiles start stop xs \<and> runs_of (sector_is_zero l) xs"
proof -
  have l: "mp_layout m = l" "total_bytes l \<le> 512 * total_sectors l"
    using inv by (auto simp: mapper_inv_def layout_ok_def)
  have "start = 512 * (off div 512)" by (simp add: start_def minus_mod_eq_mult_div)
  then have st: "0 \<le> start" "start mod 512 = 0" using off by (simp_all add: pos_imp_zdiv_nonneg_iff)
  have "mapper_extents off count m = extents_loop (nat (stop - start)) zero_sector start stop m"
    using off l(1) by (simp add: mapper_extents_def bindp_def Let_def start_def stop_def ac_simps)
  moreover have "stop \<le> 512 * total_sectors l" "stop - start \<le> int (nat (stop - start))"
    using l by (auto simp: stop_def)
  ultimately show ?thesis
    using mapper_probe.extents_loop_spec [OF inv st(1,2), of stop "nat (stop - start)"] by auto
qed

end
