(* ===== verification/Descriptors.thy ===== *)
theory Descriptors
  imports MapperExtents
begin

text \<open>
  Descriptor accounting. Whatever sequence of calls is made on a mapper, and whether or not
  they raise, the descriptors it has added to the process are exactly those its dictionary
  names, one per path; \<open>close\<close> gives them all back and leaves the others alone.
\<close>

section \<open>Ownership\<close>

definition held :: "mapper \<Rightarrow> (int \<times> pystr) set" where
  "held m = (\<lambda>(path, fd). (fd, path)) ` set (mp_fds m)"

definition owns :: "(int \<times> pystr) set \<Rightarrow> mapper \<Rightarrow> bool" where
  \<comment> \<open>\<open>others\<close> are the descriptors of the process that are not the mapper's\<close>
  "owns others m \<longleftrightarrow>
     fds_ok (mp_world m) \<and>
     distinct (map fst (mp_fds m)) \<and> distinct (map snd (mp_fds m)) \<and>
     set (w_fds (mp_world m)) = held m \<union> others \<and>
     fst ` others \<inter> snd ` set (mp_fds m) = {}"

definition keeps_books :: "mapper \<Rightarrow> mapper \<Rightarrow> bool" where
  "keeps_books m m' \<longleftrightarrow> (\<forall>others. owns others m \<longrightarrow> owns others m')"

lemma keeps_books_refl [simp, steps_intros]: "reflp keeps_books"
  by (auto simp: keeps_books_def intro: reflpI)

lemma keeps_books_trans [simp, steps_intros]: "transp keeps_books"
  by (auto simp: keeps_books_def intro: transpI)

lemma owns_new: "fds_ok w \<Longrightarrow> owns (set (w_fds w)) (new_mapper l w)"
  by (simp add: owns_def new_mapper_def held_def)

lemma owns_open:
  assumes own: "owns others m" and new: "map_of (mp_fds m) path = None"
    and op: "os_open path (mp_world m) = (Inr fd, w)"
  shows "owns others (m\<lparr>mp_fds := AList.update path fd (mp_fds m), mp_world := w\<rparr>)"
proof -
  have w: "fd = w_next_fd (mp_world m)" "w_fds w = (fd, path) # w_fds (mp_world m)"
    using op by (auto simp: os_open_def split: option.splits)
  have below: "fst e < fd" if "e \<in> held m \<union> others" for e
    using own w(1) that by (simp add: owns_def fds_ok_def)
  have "fd \<notin> fst ` others" using below by force
  moreover have "fd \<notin> snd ` set (mp_fds m)"
    using below [of "(fd, p)" for p] by (force simp: held_def)
  moreover have "path \<notin> fst ` set (mp_fds m)" using new by (simp add: map_of_eq_None_iff)
  moreover have "fds_ok w" using own op os_open_fds_ok by (auto simp: owns_def)
  ultimately show ?thesis
    using own w(2) by (auto simp: owns_def held_def update_append_new)
qed

section \<open>Relations that every operation keeps\<close>

text \<open>
  The operations touch the state of a mapper only by opening sources, so a reflexive and
  transitive relation that \<open>_open\<close> keeps is kept by all of them, exceptions included.
\<close>

lemma steps_in_kind [steps_intros]:
  "steps_in R a \<Longrightarrow> steps_in R b \<Longrightarrow> steps_in R c \<Longrightarrow>
    steps_in R (case kind of KMetadata \<Rightarrow> a | KFile \<Rightarrow> b | KZero \<Rightarrow> c)"
  by (cases kind) auto

lemma read_loop_steps:
  assumes "\<And>k w n c out. steps_in R (fill k w n c out)" "reflp R" "transp R"
  shows "steps_in R (read_loop fill off len c out)"
  using assms
proof (induction fill off len c out rule: read_loop.induct)
  case (1 fill off len c out)
  show ?case
    unfolding read_loop.simps [of fill off len c out] Let_def
    using 1 by (auto intro!: steps_in_bindp steps_in_ret simp: Let_def)
qed

lemma run_loop_steps:
  assumes "\<And>k. steps_in R (zero k)" "reflp R" "transp R"
  shows "steps_in R (run_loop zero z c stop)"
  using assms
proof (induction zero z c stop rule: run_loop.induct)
  case (1 zero z c stop)
  show ?case
    unfolding run_loop.simps [of zero z c stop]
    using 1 by (auto intro!: steps_in_bindp steps_in_ret)
qed

lemma extents_loop_steps:
  assumes "\<And>k. steps_in R (zero k)" "reflp R" "transp R"
  shows "steps_in R (extents_loop fuel zero c stop)"
  by (induction fuel arbitrary: c)
    (auto intro!: steps_in_bindp steps_in_ret steps_in_raise run_loop_steps assms)

locale kept_by_open =
  fixes R :: "mapper \<Rightarrow> mapper \<Rightarrow> bool"
  assumes R_refl: "reflp R" and R_trans: "transp R"
    and R_open: "steps_in R (mapper_open path)"
begin

lemma map_steps: "steps_in R (mapper_map k)"
  unfolding mapper_map_def Let_def
  by (intro steps_intros R_refl R_trans R_open)

lemma fill_piece_steps: "steps_in R (fill_piece k w n c out)"
  unfolding fill_piece_def
  by (intro steps_intros R_refl R_trans map_steps)

lemma read_steps: "steps_in R (mapper_read off dest)"
  unfolding mapper_read_def
  by (intro steps_intros R_refl R_trans read_loop_steps fill_piece_steps)

lemma read_metadata_steps: "steps_in R (read_metadata off dest)"
  unfolding read_metadata_def
  by (intro steps_intros R_refl R_trans read_steps)

lemma read_bytes_steps: "steps_in R (read_bytes off n)"
  unfolding read_bytes_def
  by (intro steps_intros R_refl R_trans read_steps)

lemma zero_sector_steps: "steps_in R (zero_sector k)"
  unfolding zero_sector_def
  by (intro steps_intros R_refl R_trans map_steps)

lemma extents_steps: "steps_in R (mapper_extents off n)"
  unfolding mapper_extents_def Let_def
  by (intro steps_intros R_refl R_trans extents_loop_steps zero_sector_steps)

end

section \<open>Closing\<close>

lemma close_all:
  assumes "\<forall>p. w_close (mp_world m) p = None"
    and "distinct (map fst (w_fds (mp_world m)))" "distinct fds"
    and "set fds \<subseteq> fst ` set (w_fds (mp_world m))"
  shows "\<exists>m'. iterp close_one fds m = (Inr (), m') \<and> mp_fds m' = mp_fds m \<and> mp_layout m' = mp_layout m \<and>
    set (w_fds (mp_world m')) = {e \<in> set (w_fds (mp_world m)). fst e \<notin> set fds}"
  using assms
proof (induction fds arbitrary: m)
  case Nil
  then show ?case by simp
next
  case (Cons fd fds)
  let ?w = "mp_world m"
  obtain p where p: "map_of (w_fds ?w) fd = Some p"
    using Cons.prems by (cases "map_of (w_fds ?w) fd") (auto simp: map_of_eq_None_iff)
  let ?m = "m\<lparr>mp_world := ?w\<lparr>w_fds := AList.delete fd (w_fds ?w)\<rparr>\<rparr>"
  have step: "close_one fd m = (Inr (), ?m)" using p Cons.prems(1) by (simp add: close_one_def os_close_def)
  have del: "set (AList.delete fd (w_fds ?w)) = {e \<in> set (w_fds ?w). fst e \<noteq> fd}"
    by (auto simp: AList.delete_eq)
  have "\<exists>m'. iterp close_one fds ?m = (Inr (), m') \<and> mp_fds m' = mp_fds ?m \<and>
      mp_layout m' = mp_layout ?m \<and>
      set (w_fds (mp_world m')) = {e \<in> set (w_fds (mp_world ?m)). fst e \<notin> set fds}"
  proof (rule Cons.IH)
    show "\<forall>p. w_close (mp_world ?m) p = None" using Cons.prems(1) by simp
    show "distinct (map fst (w_fds (mp_world ?m)))"
      using Cons.prems(2) by (simp add: AList.distinct_delete)
    show "distinct fds" using Cons.prems(3) by simp
    show "set fds \<subseteq> fst ` set (w_fds (mp_world ?m))"
      using Cons.prems(3,4) by (force simp: del)
  qed
  with step show ?case by (auto simp: bindp_def del)
qed

lemma close_leaves:
  assumes "set fds \<inter> fst ` others = {}" "others \<subseteq> set (w_fds (mp_world m))"
  shows "others \<subseteq> set (w_fds (mp_world (snd (iterp close_one fds m))))"
  using assms
proof (induction fds arbitrary: m)
  case (Cons fd fds)
  obtain r m' where c: "close_one fd m = (r, m')" by fastforce
  have "w_fds (mp_world m') = AList.delete fd (w_fds (mp_world m)) \<or> m' = m"
    using c by (auto simp: close_one_def os_close_def split: option.splits)
  moreover have "others \<subseteq> set (AList.delete fd (w_fds (mp_world m)))"
    using Cons.prems by (force simp: AList.delete_eq)
  ultimately have "others \<subseteq> set (w_fds (mp_world m'))" using Cons.prems(2) by auto
  with Cons c show ?case by (cases r) (simp_all add: bindp_def)
qed simp

lemma mapper_close_leaves:
  assumes "owns others m"
  shows "others \<subseteq> set (w_fds (mp_world (snd (mapper_close m))))"
proof -
  have "set (map snd (mp_fds m)) \<inter> fst ` others = {}" "others \<subseteq> set (w_fds (mp_world m))"
    using assms by (auto simp: owns_def)
  from close_leaves [OF this] show ?thesis
    by (auto simp: mapper_close_def bindp_def split: prod.split sum.split)
qed

lemma mapper_close_spec:
  assumes "owns others m" "\<forall>p. w_close (mp_world m) p = None"
  shows "\<exists>m'. mapper_close m = (Inr (), m') \<and> mp_fds m' = [] \<and> mp_layout m' = mp_layout m \<and>
    set (w_fds (mp_world m')) = others"
proof -
  let ?fds = "map snd (mp_fds m)"
  have "set ?fds \<subseteq> fst ` set (w_fds (mp_world m))"
    using assms(1) by (force simp: owns_def held_def)
  with assms obtain m' where m': "iterp close_one ?fds m = (Inr (), m')" "mp_layout m' = mp_layout m"
      "set (w_fds (mp_world m')) = {e \<in> set (w_fds (mp_world m)). fst e \<notin> set ?fds}"
    using close_all [of m ?fds] by (auto simp: owns_def fds_ok_def)
  moreover have "{e \<in> set (w_fds (mp_world m)). fst e \<notin> set ?fds} = others"
    using assms(1) by (force simp: owns_def held_def)
  ultimately show ?thesis by (simp add: mapper_close_def bindp_def)
qed

section \<open>Sessions\<close>

text \<open>Any sequence of calls, their exceptions handled by the caller.\<close>

datatype mapper_call =
    CallMap int
  | CallRead int "bytes option"
  | CallReadBytes int int
  | CallReadMetadata int bytes
  | CallExtents int int

primrec run_call :: "mapper_call \<Rightarrow> mapper \<Rightarrow> mapper" where
  "run_call (CallMap k) m = snd (mapper_map k m)"
| "run_call (CallRead off dest) m = snd (mapper_read off dest m)"
| "run_call (CallReadBytes off n) m = snd (read_bytes off n m)"
| "run_call (CallReadMetadata off dest) m = snd (read_metadata off dest m)"
| "run_call (CallExtents off n) m = snd (mapper_extents off n m)"

definition run_calls :: "mapper_call list \<Rightarrow> mapper \<Rightarrow> mapper" where
  "run_calls cs m = fold run_call cs m"

context kept_by_open
begin

lemma run_call_R: "R m (run_call c m)"
  using map_steps read_steps read_bytes_steps read_metadata_steps extents_steps
  by (cases c) (auto simp: steps_in_def)

lemma run_calls_R: "R m (run_calls cs m)"
proof (induction cs arbitrary: m)
  case Nil
  show ?case using R_refl by (simp add: run_calls_def reflpD)
next
  case (Cons c cs)
  have "R (run_call c m) (run_calls (c # cs) m)" using Cons by (simp add: run_calls_def)
  then show ?case by (rule transpD [OF R_trans run_call_R])
qed

end

section \<open>The books\<close>

lemma mapper_open_books: "steps_in keeps_books (mapper_open path)"
proof -
  have "owns others (snd (mapper_open path m))" if "owns others m" for others m
  proof (cases "map_of (mp_fds m) path")
    case (Some fd)
    with that show ?thesis by (simp add: mapper_open_def)
  next
    case None
    obtain r w where op: "os_open path (mp_world m) = (r, w)" by fastforce
    show ?thesis
    proof (cases r)
      case (Inl e)
      then have "w = mp_world m" using op by (auto simp: os_open_def split: option.splits)
      with that None op Inl show ?thesis by (simp add: mapper_open_def owns_def held_def)
    next
      case (Inr fd)
      with that None op show ?thesis by (simp add: mapper_open_def owns_open)
    qed
  qed
  then show ?thesis by (simp add: steps_in_def keeps_books_def)
qed

interpretation books: kept_by_open keeps_books
  by unfold_locales (simp_all add: mapper_open_books)

lemma run_calls_owns: "owns others m \<Longrightarrow> owns others (run_calls cs m)"
  using books.run_calls_R by (simp add: keeps_books_def)

section \<open>The storage stays the same\<close>

definition same_storage :: "mapper \<Rightarrow> mapper \<Rightarrow> bool" where
  "same_storage m m' \<longleftrightarrow> w_close (mp_world m') = w_close (mp_world m)"

interpretation storage: kept_by_open same_storage
proof
  show "reflp same_storage" "transp same_storage" by (auto simp: same_storage_def intro: reflpI transpI)
  show "steps_in same_storage (mapper_open path)" for path
    using os_open_frame
    by (fastforce simp: steps_in_def same_storage_def mapper_open_def split: option.split prod.split sum.split)
qed

lemma run_calls_close: "w_close (mp_world (run_calls cs m)) = w_close (mp_world m)"
  using storage.run_calls_R by (simp add: same_storage_def)

section \<open>The invariant of the reads\<close>

interpretation reads: kept_by_open "\<lambda>m m'. mapper_inv l files m \<longrightarrow> mapper_inv l files m'"
  by unfold_locales (auto simp: steps_in_def mapper_open_inv intro: reflpI transpI)

lemma run_calls_inv: "mapper_inv l files m \<Longrightarrow> mapper_inv l files (run_calls cs m)"
  using reads.run_calls_R by blast

end
