(* ===== verification/VolumeReads.thy ===== *)
theory VolumeReads
  imports Sample Descriptors VolumeFacts
begin

text \<open>
  Mappers over built volumes: the mapper of a valid build satisfies the invariant of the
  reads in any history, extents marked as zero read as zeros, and the sample volume with
  its storage satisfies the premises of all this.
\<close>

section \<open>The mapper of a build\<close>

definition well_served :: "source_fs \<Rightarrow> nat \<Rightarrow> (int \<Rightarrow> pystr) \<Rightarrow> builder \<Rightarrow> node \<Rightarrow> exfat_layout \<Rightarrow>
  world \<Rightarrow> (pystr \<rightharpoonup> bytes) \<Rightarrow> bool" where
  \<comment> \<open>a valid build whose source files \<open>files\<close> the operating system serves\<close>
  "well_served fs limit up b root0 l w files \<longleftrightarrow>
     valid_build fs limit up b root0 l \<and> serves w files \<and> fds_ok w \<and>
     list_all (\<lambda>fm. files (fm_source_path fm) \<noteq> None) (file_mappings l)"

lemma well_served_inv:
  assumes "well_served fs limit up b root0 l w files"
  shows "mapper_inv l files (run_calls cs (new_mapper l w))"
proof (rule valid_build_volume)
  show "valid_build fs limit up b root0 l" using assms by (simp add: well_served_def)
  fix root nxt assume "volume up b root0 root nxt l"
  then have "layout_ok l" by (rule volume_layout_ok)
  with assms show ?thesis by (intro run_calls_inv new_mapper_inv) (simp_all add: well_served_def)
qed

lemma mapper_read_total:
  assumes "mapper_inv l files m"
  shows "fst (mapper_read off dest m) =
    (if off < 0 then Inl (ValueError (lit ''offset must be non-negative''))
     else case dest of None \<Rightarrow> Inl (ValueError (lit ''destination buffer is required''))
       | Some out \<Rightarrow>
           if total_bytes l < off + int (length out) then Inl (ValueError (lit ''read exceeds image size''))
           else Inr (image_window (image_sector l files) off (int (length out))))"
proof -
  have l: "mp_layout m = l" using assms by (simp add: mapper_inv_def)
  show ?thesis
  proof (cases "off < 0")
    case True
    then show ?thesis by (simp add: mapper_read_def bindp_def del: lit_Cons)
  next
    case False
    show ?thesis
    proof (cases dest)
      case None
      with False show ?thesis by (simp add: mapper_read_def bindp_def del: lit_Cons)
    next
      case (Some out)
      show ?thesis
      proof (cases "total_bytes l < off + int (length out)")
        case True
        with False Some l show ?thesis by (simp add: mapper_read_def bindp_def del: lit_Cons)
      next
        case in_range: False
        from mapper_read_window [OF assms, of off out] False in_range Some
        show ?thesis by (auto simp del: lit_Cons)
      qed
    qed
  qed
qed

section \<open>Zero extents\<close>

lemma zero_extents_read_zero:
  assumes "tiles start stop xs" "runs_of (sector_is_zero l) xs" "start mod 512 = 0"
    and "(s, n, True) \<in> set xs"
  shows "image_window (image_sector l files) s n = replicate (nat n) 0"
proof (rule zero_run_reads_zero)
  have "s mod 512 = 0 \<and> n mod 512 = 0 \<and> 0 < n"
    using assms(1,3,4)
  proof (induction start stop xs rule: tiles.induct)
    case (2 cursor stop s' n' z xs)
    show ?case
    proof (cases "(s, n, True) = (s', n', z)")
      case False
      moreover have "(cursor + n') mod 512 = 0" using 2 by (simp add: mod_add_eq [symmetric] mod_simps)
      ultimately show ?thesis using 2 by auto
    qed (use 2 in auto)
  qed simp
  then show "s mod 512 = 0" "n mod 512 = 0" "0 < n" by simp_all
  show "list_all (sector_is_zero l) [s div 512..(s + n) div 512 - 1]"
    using assms(2,4) by (auto simp: runs_of_def list_all_iff)
qed

section \<open>The sample volume\<close>

lemma sample_layout:
  obtains l where "build sample_fs 1000 sample_upper sample_builder = Inr l"
    "built sample_upper sample_builder sample_scanned sample_placed 9 l"
    "valid_build sample_fs 1000 sample_upper sample_builder sample_scanned l"
    "well_served sample_fs 1000 sample_upper sample_builder sample_scanned l sample_world sample_files"
    "fat_length l = 256" "cluster_count l = 8176" "total_bytes l = 1073741824"
    "file_mappings l = [sample_mapping_a, sample_mapping_b]"
proof -
  obtain l where l: "build sample_fs 1000 sample_upper sample_builder = Inr l"
      "built sample_upper sample_builder sample_scanned sample_placed 9 l"
    using sample_build by blast
  note v = sample_volume [OF l(2)]
  show thesis
  proof (rule that [OF l sample_valid [OF l(1)] _ v(2) _ _ v(3)])
    show "cluster_count l = 8176" using builtD(1) [OF l(2)] by (simp add: sample_geometry)
    show "total_bytes l = 1073741824" using builtD(2) [OF l(2)] by (simp add: sample_builder_def)
    show "well_served sample_fs 1000 sample_upper sample_builder sample_scanned l sample_world sample_files"
      using sample_valid [OF l(1)] sample_serves sample_sources by (simp add: well_served_def v(3))
  qed
qed

end
