(* ===== verification/EagerFat.thy ===== *)
theory EagerFat
  imports VolumeReads
begin

text \<open>
  \<open>_fat_bytes\<close> of \<open>exfat_builder.py\<close>, which writes the whole FAT at once. The program does
  not call it: the mapper generates FAT sectors when they are read. Here it is the reference
  that the generated sectors are compared with.
\<close>

section \<open>The eager FAT\<close>

definition pack_slot :: "int \<Rightarrow> int \<Rightarrow> bytes \<Rightarrow> bytes result" where
  \<comment> \<open>\<open>struct.pack_into("<I", fat, offset, v)\<close>; a negative offset counts from the end\<close>
  "pack_slot offset v fat =
     (let pos = (if offset < 0 then offset + int (length fat) else offset)
      in if pos < 0 then Inl StructError else pack_into 4 (nat pos) v fat)"

definition write_chain :: "cluster_range \<Rightarrow> bytes \<Rightarrow> bytes result" where
  "write_chain = (\<lambda>(start, count) fat.
     rbind (foldr_r (\<lambda>cluster. pack_slot (cluster * 4) (cluster + 1)) [start..start + count - 2] fat)
       (pack_slot ((start + count - 1) * 4) FAT_EOC))"

definition fat_bytes ::
  "builder \<Rightarrow> int \<Rightarrow> file_mapping list \<Rightarrow> node list \<Rightarrow> int \<Rightarrow> int \<Rightarrow> int \<Rightarrow> int \<Rightarrow> bytes result" where
  "fat_bytes b clusters mappings roots bm_cluster bm_clusters uc_cluster uc_clusters =
     (let fat = replicate (nat (fst (snd (geometry b)) * SECTOR_SIZE)) 0
      in rbind (rbind (pack_slot 0 FAT_FIRST_RESERVED fat) (pack_slot 4 FAT_EOC)) (\<lambda>fat.
         let ranges = [(bm_cluster, bm_clusters), (uc_cluster, uc_clusters)];
             ranges = ranges @ map (\<lambda>n. (n_first_cluster (info n), n_cluster_count (info n)))
               (filter (\<lambda>n. n_is_directory (info n)) (walk roots));
             ranges = ranges @ map (\<lambda>m. (fm_start_cluster m, fm_cluster_count m)) mappings
         in foldr_r write_chain ranges fat))"

section \<open>A buffer of slots\<close>

definition slots :: "nat \<Rightarrow> (int \<Rightarrow> int) \<Rightarrow> bytes" where
  "slots m f = concat (map (\<lambda>i. le_bytes 4 (f (int i))) [0..<m])"

lemma length_slots [simp]: "length (slots m f) = 4 * m"
  by (induction m) (simp_all add: slots_def del: le_bytes.simps)

lemma slots_Suc: "slots (Suc m) f = slots m f @ le_bytes 4 (f (int m))"
  by (simp add: slots_def del: le_bytes.simps)

lemma slots_cong: "(\<And>c. 0 \<le> c \<Longrightarrow> c < int m \<Longrightarrow> f c = g c) \<Longrightarrow> slots m f = slots m g"
  unfolding slots_def by (intro arg_cong [of _ _ concat] map_cong) auto

lemma slots_zero: "replicate (4 * m) 0 = slots m (\<lambda>_. 0)"
proof (induction m)
  case 0
  then show ?case by (simp add: slots_def)
next
  case (Suc m)
  have "4 * Suc m = 4 * m + 4" by simp
  then have "replicate (4 * Suc m) 0 = replicate (4 * m) 0 @ le_bytes 4 0"
    by (simp only: replicate_add) (simp add: eval_nat_numeral)
  then show ?case unfolding Suc by (simp only: slots_Suc)
qed

lemma splice_slots:
  "i < m \<Longrightarrow> splice (4 * i) (le_bytes 4 v) (slots m f) = slots m (\<lambda>c. if c = int i then v else f c)"
proof (induction m)
  case 0
  then show ?case by simp
next
  case (Suc m)
  show ?case
  proof (cases "i = m")
    case True
    have "slots m (\<lambda>c. if c = int m then v else f c) = slots m f" by (rule slots_cong) simp
    then show ?thesis using True by (simp add: slots_Suc splice_def del: le_bytes.simps)
  next
    case False
    then have "splice (4 * i) (le_bytes 4 v) (slots m f) = slots m (\<lambda>c. if c = int i then v else f c)" using Suc by simp
    moreover have "splice (4 * i) d (xs @ ys) = splice (4 * i) d xs @ ys"
      if "4 * i + length d \<le> length xs" for d xs and ys :: bytes
      using that by (simp add: splice_def)
    ultimately show ?thesis using False Suc.prems by (simp add: slots_Suc del: le_bytes.simps)
  qed
qed

lemma pack_slot_slots:
  assumes "0 \<le> c" "0 \<le> v" "v < 4294967296"
  shows "pack_slot (c * 4) v (slots m f) = (if c < int m then Inr (slots m (\<lambda>c'. if c' = c then v else f c')) else Inl StructError)"
proof -
  have "nat (c * 4) = 4 * nat c" "nat c < m \<longleftrightarrow> c < int m" using assms(1) by auto
  then show ?thesis
    using assms splice_slots [of "nat c" m v f]
    by (auto simp: pack_slot_def pack_into_def pack_def simp del: le_bytes.simps)
qed

section \<open>Chains\<close>

definition chain_slot :: "int \<Rightarrow> int \<Rightarrow> int \<Rightarrow> int" where
  "chain_slot s n c = (if c = s + n - 1 then 0xFFFFFFFF else c + 1)"

lemma write_links:
  assumes "2 \<le> s" "s + int k < 4294967296"
  shows "foldr_r (\<lambda>cluster. pack_slot (cluster * 4) (cluster + 1)) [s..s + int k - 1] (slots m f) =
     (if k = 0 \<or> s + int k \<le> int m then Inr (slots m (\<lambda>c. if s \<le> c \<and> c < s + int k then c + 1 else f c))
      else Inl StructError)"
  using assms
proof (induction k arbitrary: s f)
  case 0
  have "slots m (\<lambda>c. if s \<le> c \<and> c < s then c + 1 else f c) = slots m f" by (rule slots_cong) auto
  then show ?case by simp
next
  case (Suc k)
  have "[s..s + int (Suc k) - 1] = s # [s + 1..(s + 1) + int k - 1]"
    using Suc.prems by (subst upto_rec1) (auto simp: algebra_simps)
  moreover have "slots m (\<lambda>c. if s + 1 \<le> c \<and> c < s + 1 + int k then c + 1 else (if c = s then s + 1 else f c)) =
      slots m (\<lambda>c. if s \<le> c \<and> c < s + int (Suc k) then c + 1 else f c)"
    by (rule slots_cong) auto
  ultimately show ?case
    using Suc.IH [of "s + 1" "\<lambda>c. if c = s then s + 1 else f c"] Suc.prems by (auto simp: pack_slot_slots)
qed

lemma write_chain_slots:
  assumes "2 \<le> s" "0 < n" "s + n < 4294967296"
  shows "write_chain (s, n) (slots m f) =
     (if s + n \<le> int m then Inr (slots m (\<lambda>c. if s \<le> c \<and> c < s + n then chain_slot s n c else f c))
      else Inl StructError)"
proof -
  obtain k where n: "n = 1 + int k" using assms(2) by (metis zless_iff_Suc_zadd add.left_neutral of_nat_Suc)
  have eq: "slots m (\<lambda>c. if c = s + int k then 4294967295 else if s \<le> c \<and> c < s + int k then c + 1 else f c) =
      slots m (\<lambda>c. if s \<le> c \<and> c < s + n then chain_slot s n c else f c)"
    by (rule slots_cong) (use n in \<open>auto simp: chain_slot_def\<close>)
  have up: "s + (1 + int k) - 2 = s + int k - 1" "s + (1 + int k) - 1 = s + int k" by simp_all
  show ?thesis
    using assms write_links [of s k m f] pack_slot_slots [of "s + int k" 4294967295 m]
    unfolding n by (simp add: write_chain_def up FAT_EOC_def eq [unfolded n])
qed

lemma write_chains_slots:
  assumes "contiguous a rs b" "2 \<le> a" "b < 4294967296" "a \<le> int m"
  shows "foldr_r write_chain rs (slots m f) =
     (if b \<le> int m
      then Inr (slots m (\<lambda>c. case find (\<lambda>(s, n). s \<le> c \<and> c < s + n) rs of
          None \<Rightarrow> f c | Some (s, n) \<Rightarrow> chain_slot s n c))
      else Inl StructError)"
  using assms
proof (induction a rs b arbitrary: f rule: contiguous.induct)
  case (1 a b)
  then show ?case by simp
next
  case (2 a s n rs b)
  then have a: "s = a" "0 < n" "contiguous (a + n) rs b" by simp_all
  note le = contiguous_le [OF a(3)]
  let ?f = "\<lambda>c. if s \<le> c \<and> c < s + n then chain_slot s n c else f c"
  have none: "find (\<lambda>(s, n). s \<le> c \<and> c < s + n) rs = None" if "c < a + n" for c
    using contiguous_covers [OF a(3), of c] that
    by (auto simp: find_None_iff allocated_def list_ex_iff)
  show ?case
  proof (cases "a + n \<le> int m")
    case True
    have "slots m (\<lambda>c. case find (\<lambda>(s, n). s \<le> c \<and> c < s + n) rs of
          None \<Rightarrow> ?f c | Some (s, n) \<Rightarrow> chain_slot s n c) =
        slots m (\<lambda>c. case find (\<lambda>(s, n). s \<le> c \<and> c < s + n) ((s, n) # rs) of
          None \<Rightarrow> f c | Some (s, n) \<Rightarrow> chain_slot s n c)"
      by (rule slots_cong) (auto simp: none a(1) split: option.split)
    then show ?thesis
      using 2(1) [OF a(3), of ?f] 2(3-) a le True write_chain_slots [of s n m f] unfolding a(1) by simp
  next
    case False
    then show ?thesis using 2 a le write_chain_slots [of s n m f] by simp
  qed
qed

section \<open>The sectors the mapper generates\<close>

lemma fat_sector_as_slots:
  assumes "clusters_below 4294967295 (allocated_ranges l)"
  shows "fat_sector l k = Inr (concat (map (\<lambda>i. le_bytes 4 (fat_entry (allocated_ranges l) (k * 128 + int i))) [0..<128]))"
proof -
  have "to_bytes 4 (fat_entry (allocated_ranges l) c) = Inr (le_bytes 4 (fat_entry (allocated_ranges l) c))" for c
    using fat_entry_range [OF assms, of c] by (simp add: to_bytes_def del: le_bytes.simps)
  moreover have "mapr (\<lambda>i. Inr (g i)) xs = Inr (map g xs)" for g :: "int \<Rightarrow> bytes" and xs
    by (induction xs) simp_all
  ultimately show ?thesis by (simp add: fat_sector_mapr comp_def del: le_bytes.simps)
qed

lemma slots_sectors:
  "slots (128 * q) f =
     concat (map (\<lambda>k. concat (map (\<lambda>i. le_bytes 4 (f (int k * 128 + int i))) [0..<128])) [0..<q])"
proof (induction q)
  case 0
  then show ?case by (simp add: slots_def)
next
  case (Suc q)
  have "[0..<128 * Suc q] = [0..<128 * q] @ map (\<lambda>i. 128 * q + i) [0..<128]"
    using upt_add_eq_append [of 0 "128 * q" 128] map_add_upt [of "128 * q" 128]
    by (simp add: add.commute)
  moreover have "int (128 * q + i) = int q * 128 + int i" for i by simp
  ultimately have "slots (128 * Suc q) f =
      slots (128 * q) f @ concat (map (\<lambda>i. le_bytes 4 (f (int q * 128 + int i))) [0..<128])"
    by (simp only: slots_def map_append concat_append map_map comp_def)
  then show ?case unfolding Suc by (simp del: le_bytes.simps)
qed

lemma fat_image_slots:
  assumes v: "volume up b root0 root nxt l"
  shows "concat (map (image_sector l files) [fat_offset l..fat_offset l + fat_length l - 1]) =
    slots (128 * nat (fat_length l)) (fat_entry (allocated_ranges l))"
proof -
  note room = volume_room [OF v]
  have below: "clusters_below 4294967295 (allocated_ranges l)"
    using volume_layout_ok [OF v] by (simp add: layout_ok_def)
  have "[fat_offset l..fat_offset l + fat_length l - 1] = map (\<lambda>k. 2048 + int k) [0..<nat (fat_length l)]"
    using room(4) by (auto simp: room(1) intro!: nth_equalityI)
  moreover have "image_sector l files (2048 + int k) =
      concat (map (\<lambda>i. le_bytes 4 (fat_entry (allocated_ranges l) (int k * 128 + int i))) [0..<128])"
    if "k < nat (fat_length l)" for k
    using fat_lookup [OF v, of "int k"] fat_sector_as_slots [OF below, of "int k"] that
    by (simp add: image_sector_def del: le_bytes.simps)
  ultimately show ?thesis
    unfolding slots_sectors by (intro arg_cong [of _ _ concat]) (auto intro!: map_cong simp: comp_def simp del: le_bytes.simps)
qed

lemma fat_bytes_slots:
  assumes v: "volume up b root0 root nxt l"
  shows "fat_bytes b (cluster_count l) (file_mappings l) [root] (bitmap_cluster l)
      (clusters_of (bitmap_length l)) (upcase_cluster l) (clusters_of UPCASE_TABLE_BYTES) =
    (if nxt \<le> 128 * fat_length l
     then Inr (slots (128 * nat (fat_length l)) (fat_entry (allocated_ranges l))) else Inl StructError)"
proof -
  note built = volumeD(1) [OF v]
  note alloc = built_allocation [OF built volumeD(2) [OF v]]
  note room = volume_room [OF v]
  define m where "m = 128 * nat (fat_length l)"
  have m: "int m = 128 * fat_length l" "4 * m = nat (fat_length l * 512)" "2 \<le> int m"
    using room(4) by (simp_all add: m_def)
  have uc: "clusters_of UPCASE_TABLE_BYTES = 1" by code_simp
  let ?dirs = "map (\<lambda>n. (n_first_cluster (info n), n_cluster_count (info n)))
      (filter (\<lambda>n. n_is_directory (info n)) (walk [root]))"
  have "?dirs = map run_of (dir_infos root)"
    by (simp add: dir_infos_def run_of_def filter_map comp_def del: walk.simps)
  moreover have "map (\<lambda>m. (fm_start_cluster m, fm_cluster_count m)) (file_mappings l) = map run_of (file_infos root)"
    by (simp add: alloc(4) mapping_of_def run_of_def)
  ultimately have ranges: "[(bitmap_cluster l, clusters_of (bitmap_length l)), (upcase_cluster l, clusters_of UPCASE_TABLE_BYTES)] @
      ?dirs @ map (\<lambda>m. (fm_start_cluster m, fm_cluster_count m)) (file_mappings l) = allocated_ranges l"
    by (simp only: alloc(1) uc layout_fields(4) [OF v])
  let ?head = "\<lambda>c. if c = 1 then 4294967295 else if c = 0 then 4294967288 else 0 :: int"
  have head: "rbind (pack_slot 0 FAT_FIRST_RESERVED (slots m (\<lambda>_. 0))) (pack_slot 4 FAT_EOC) = Inr (slots m ?head)"
    using m(3) pack_slot_slots [of 0 4294967288 m "\<lambda>_. 0"]
      pack_slot_slots [of 1 4294967295 m "\<lambda>c. if c = 0 then 4294967288 else 0"]
    by (simp add: FAT_FIRST_RESERVED_def FAT_EOC_def)
  have bound: "nxt < 4294967296"
    using room(5,6) volumeD(5) [OF v] layout_fields(2) [OF v] built_room(2,4) [OF built] room(1)
    by (simp add: builder_ok_def)
  have eq: "slots m (\<lambda>c. case find (\<lambda>(s, n). s \<le> c \<and> c < s + n) (allocated_ranges l) of
          None \<Rightarrow> ?head c | Some (s, n) \<Rightarrow> chain_slot s n c) = slots m (fat_entry (allocated_ranges l))"
  proof (rule slots_cong)
    fix c :: int assume "0 \<le> c"
    have "find (\<lambda>(s, n). s \<le> c \<and> c < s + n) (allocated_ranges l) = None" if "c < 2"
      using contiguous_covers [OF alloc(2), of c] that by (auto simp: find_None_iff allocated_def list_ex_iff)
    then show "(case find (\<lambda>(s, n). s \<le> c \<and> c < s + n) (allocated_ranges l) of
          None \<Rightarrow> ?head c | Some (s, n) \<Rightarrow> chain_slot s n c) = fat_entry (allocated_ranges l) c"
      by (auto simp: fat_entry_def chain_slot_def split: option.split)
  qed
  show ?thesis
    using write_chains_slots [OF alloc(2) _ bound m(3), of ?head] builtD(1) [OF built] head ranges
    by (simp add: fat_bytes_def Let_def SECTOR_SIZE_def m(1) m(2) [symmetric] slots_zero eq m_def [symmetric]
      del: walk.simps)
qed

end
