(* ===== verification/PyStr.thy ===== *)
theory PyStr
  imports Prelude "HOL-Library.Sublist"
begin

text \<open>
  The methods of Python's \<open>str\<close> that the control plane uses, on code point lists:
  substring tests, \<open>split\<close>, \<open>strip\<close>, and the case and class tests of ASCII. What depends
  on the Unicode tables (\<open>lower\<close>, \<open>isalnum\<close>) is a parameter of the operations that use it.
\<close>

fun contains :: "pystr \<Rightarrow> pystr \<Rightarrow> bool" where
  \<comment> \<open>\<open>pattern in s\<close>\<close>
  "contains pattern [] \<longleftrightarrow> pattern = []"
| "contains pattern (c # s) \<longleftrightarrow> prefix pattern (c # s) \<or> contains pattern s"

fun split_on :: "int \<Rightarrow> pystr \<Rightarrow> pystr list" where
  \<comment> \<open>\<open>s.split(c)\<close> for a separator of one character\<close>
  "split_on sep [] = [[]]"
| "split_on sep (c # s) =
     (if c = sep then [] # split_on sep s
      else (case split_on sep s of [] \<Rightarrow> [] | w # ws \<Rightarrow> (c # w) # ws))"

definition py_space :: "int \<Rightarrow> bool" where
  \<comment> \<open>the characters \<open>str.isspace\<close> accepts\<close>
  "py_space c \<longleftrightarrow> 9 \<le> c \<and> c \<le> 13 \<or> 28 \<le> c \<and> c \<le> 32 \<or> c = 0x85 \<or> c = 0xA0 \<or> c = 0x1680 \<or>
     0x2000 \<le> c \<and> c \<le> 0x200A \<or> c = 0x2028 \<or> c = 0x2029 \<or> c = 0x202F \<or> c = 0x205F \<or> c = 0x3000"

definition lstrip :: "pystr \<Rightarrow> pystr" where
  "lstrip s = dropWhile py_space s"

definition strip :: "pystr \<Rightarrow> pystr" where
  "strip s = rev (dropWhile py_space (rev (dropWhile py_space s)))"

definition line_break :: "int \<Rightarrow> bool" where
  "line_break c \<longleftrightarrow> 10 \<le> c \<and> c \<le> 13 \<or> 28 \<le> c \<and> c \<le> 30 \<or> c = 0x85 \<or> c = 0x2028 \<or> c = 0x2029"

fun lines_from :: "pystr \<Rightarrow> pystr \<Rightarrow> pystr list" where
  "lines_from cur [] = (if cur = [] then [] else [rev cur])"
| "lines_from cur (c # s) =
     (if line_break c
      then rev cur # lines_from [] (if c = 13 \<and> s \<noteq> [] \<and> hd s = 10 then tl s else s)
      else lines_from (c # cur) s)"

definition splitlines :: "pystr \<Rightarrow> pystr list" where
  "splitlines s = lines_from [] s"

fun words_from :: "pystr \<Rightarrow> pystr \<Rightarrow> pystr list" where
  "words_from cur [] = (if cur = [] then [] else [rev cur])"
| "words_from cur (c # s) =
     (if py_space c then (if cur = [] then [] else [rev cur]) @ words_from [] s
      else words_from (c # cur) s)"

definition words :: "pystr \<Rightarrow> pystr list" where
  \<comment> \<open>\<open>s.split()\<close>\<close>
  "words s = words_from [] s"

definition isascii :: "pystr \<Rightarrow> bool" where
  "isascii s = list_all (\<lambda>c. 0 \<le> c \<and> c < 128) s"

definition ascii_upper :: "int \<Rightarrow> int" where
  \<comment> \<open>\<open>upper\<close> on an ASCII character\<close>
  "ascii_upper c = (if 97 \<le> c \<and> c \<le> 122 then c - 32 else c)"

lemma contains_iff: "contains pattern s \<longleftrightarrow> (\<exists>a b. s = a @ pattern @ b)"
proof (induction s)
  case (Cons c s)
  have "(\<exists>a b. c # s = a @ pattern @ b) \<longleftrightarrow> prefix pattern (c # s) \<or> (\<exists>a b. s = a @ pattern @ b)"
  proof
    assume "\<exists>a b. c # s = a @ pattern @ b"
    then obtain a b where "c # s = a @ pattern @ b" by blast
    then show "prefix pattern (c # s) \<or> (\<exists>a b. s = a @ pattern @ b)"
      by (cases a) auto
  next
    assume "prefix pattern (c # s) \<or> (\<exists>a b. s = a @ pattern @ b)"
    then show "\<exists>a b. c # s = a @ pattern @ b"
      by (metis append_Cons append_Nil prefix_def)
  qed
  with Cons show ?case by simp
qed auto

lemma contains_prefix: "prefix p s \<Longrightarrow> contains p s"
  by (cases s) (auto simp: prefix_def)

lemma split_on_nonempty [simp]: "split_on sep s \<noteq> []"
  by (induction s) (auto split: list.split)

lemma split_on_append: "split_on sep (a @ sep # b) = split_on sep a @ split_on sep b"
  by (induction a) (auto split: list.split)

lemma split_on_none: "sep \<notin> set s \<Longrightarrow> split_on sep s = [s]"
  by (induction s) auto

lemma strip_prefix:
  assumes "s \<noteq> []" "\<not> py_space (hd s)"
  shows "prefix [hd s] (strip s)"
proof -
  obtain c r where s: "s = c # r" using assms(1) by (cases s) auto
  then have d: "dropWhile py_space s = s" using assms(2) by simp
  have "dropWhile py_space (rev r @ [c]) = dropWhile py_space (rev r) @ [c]"
    using assms(2) s by (cases "\<forall>x\<in>set (rev r). py_space x") (auto simp: dropWhile_append3 dropWhile_append1)
  then show ?thesis using d by (simp add: strip_def s)
qed

lemma strip_id: "s = [] \<or> \<not> py_space (hd s) \<and> \<not> py_space (last s) \<Longrightarrow> strip s = s"
proof (cases "s = []")
  case False
  assume "s = [] \<or> \<not> py_space (hd s) \<and> \<not> py_space (last s)"
  with False have "dropWhile py_space s = s" "dropWhile py_space (rev s) = rev s"
    by (simp_all add: dropWhile_eq_self_iff hd_rev)
  then show ?thesis by (simp add: strip_def)
qed (simp add: strip_def)

end
