(* ===== verification/ConfigValidate.thy ===== *)
theory ConfigValidate
  imports ConfigTypes PyStr Consts Unicode
begin

text \<open>
  The validation of \<open>config.py\<close>: strict construction of YAML mappings, the checks on the
  sections of a configuration, \<open>validate\<close>, \<open>parse\<close> and \<open>load\<close>. Parameters are the
  YAML parser itself (\<open>yaml_load\<close>, with the strict loader's two hooks modelled here), the
  test \<open>str.isalnum\<close> on one character (\<open>alnum\<close>) and \<open>repr\<close>, used in one message. The text of a
  \<open>YamlError\<close> raised here is the problem without the position that PyYAML appends.
\<close>

section \<open>Values of a YAML document\<close>

text \<open>
  What PyYAML's safe loader constructs. A finite float is \<open>YFloat m e\<close>, the number
  \<open>m * 2 ^ e\<close>; \<open>YOther\<close> stands for the hashable values no check accepts (dates, bytes) and
  \<open>YSet\<close> for sets, which cannot be hashed.
  A mapping is the list of its items in insertion order.
\<close>

datatype yaml =
    YNull
  | YBool bool
  | YInt int
  | YFloat int int
  | YInf bool
  | YNan
  | YStr pystr
  | YList "yaml list"
  | YDict "(yaml \<times> yaml) list"
  | YOther nat
  | YSet nat

fun as_number :: "yaml \<Rightarrow> (int \<times> int) option" where
  \<comment> \<open>\<open>bool\<close> is a subclass of \<open>int\<close>\<close>
  "as_number (YBool b) = Some (if b then 1 else 0, 0)"
| "as_number (YInt i) = Some (i, 0)"
| "as_number (YFloat m e) = Some (m, e)"
| "as_number _ = None"

definition same_number :: "int \<times> int \<Rightarrow> int \<times> int \<Rightarrow> bool" where
  "same_number a b =
     (case (a, b) of ((m, e), (n, f)) \<Rightarrow>
        m * 2 ^ nat (e - min e f) = n * 2 ^ nat (f - min e f))"

definition same_key :: "yaml \<Rightarrow> yaml \<Rightarrow> bool" where
  \<comment> \<open>the same key of a \<open>dict\<close>: equal, or the same object, as every \<open>.nan\<close> of PyYAML is\<close>
  "same_key a b =
     (case (as_number a, as_number b) of
        (Some x, Some y) \<Rightarrow> same_number x y
      | (None, None) \<Rightarrow> a = b
      | _ \<Rightarrow> False)"

fun hashable :: "yaml \<Rightarrow> bool" where
  "hashable (YList _) = False"
| "hashable (YDict _) = False"
| "hashable (YSet _) = False"
| "hashable _ = True"

definition dict_get :: "(yaml \<times> yaml) list \<Rightarrow> string \<Rightarrow> yaml option" where
  "dict_get d key = map_of d (YStr (lit key))"

section \<open>The strict loader\<close>

definition compose_node :: "bool \<Rightarrow> 'n result \<Rightarrow> 'n result" where
  \<comment> \<open>an alias event is refused before the parser expands the anchor\<close>
  "compose_node alias_event super =
     (if alias_event then Inl (YamlError (lit ''YAML aliases are not supported'')) else super)"

definition mapping_item :: "(yaml \<Rightarrow> pystr) \<Rightarrow> ('n \<Rightarrow> yaml result) \<Rightarrow> 'n \<times> 'n \<Rightarrow> (yaml \<times> yaml) list \<Rightarrow> (yaml \<times> yaml) list result" where
  \<comment> \<open>one turn of the loop; \<open>key in mapping\<close> hashes the key\<close>
  "mapping_item repr construct item mapping =
     rbind (construct (fst item)) (\<lambda>key.
     rbind (guard_r (hashable key) TypeError) (\<lambda>_.
     rbind (guard_r (\<not> list_ex (\<lambda>(k, _). same_key k key) mapping)
       (YamlError (lit ''duplicate YAML key: '' @ repr key))) (\<lambda>_.
     rbind (construct (snd item)) (\<lambda>val.
     Inr (mapping @ [(key, val)])))))"

definition construct_mapping :: "(yaml \<Rightarrow> pystr) \<Rightarrow> ('n \<Rightarrow> yaml result) \<Rightarrow> ('n \<times> 'n) list \<Rightarrow> yaml result" where
  "construct_mapping repr construct items =
     rbind (foldr_r (mapping_item repr construct) items []) (\<lambda>mapping. Inr (YDict mapping))"

section \<open>Fields\<close>

definition MAX_CONFIG_BYTES :: int where "MAX_CONFIG_BYTES = 1048576"
definition MAX_ENTRIES :: int where "MAX_ENTRIES = 10000"
definition MAX_VIRTUAL_PATH_LEN :: int where "MAX_VIRTUAL_PATH_LEN = 255"
definition IMAGE_SIZE_GIB_MIN :: int where "IMAGE_SIZE_GIB_MIN = 1"
definition IMAGE_SIZE_GIB_MAX :: int where "IMAGE_SIZE_GIB_MAX = 2047"
definition FORBIDDEN_PATTERNS :: "pystr list" where
  "FORBIDDEN_PATTERNS = [lit ''..'', lit ''./'', lit ''~'']"

definition bad_field :: "pystr \<Rightarrow> string \<Rightarrow> py_error" where
  \<comment> \<open>\<open>ConfigError(f"{field}: {text}", field=field)\<close>\<close>
  "bad_field field_name text = ConfigError (field_name @ lit '': '' @ lit text) (Some field_name)"

definition validate_str :: "yaml option \<Rightarrow> pystr \<Rightarrow> pystr result" where
  "validate_str val field_name =
     (case val of
        Some (YStr s) \<Rightarrow>
          if s = [] then Inl (bad_field field_name ''must be a non-empty string'') else Inr s
      | _ \<Rightarrow> Inl (bad_field field_name ''must be a non-empty string''))"

fun validate_no_traversal_from :: "pystr list \<Rightarrow> pystr \<Rightarrow> pystr \<Rightarrow> unit result" where
  "validate_no_traversal_from [] path field_name = Inr ()"
| "validate_no_traversal_from (pattern # ps) path field_name =
     (if contains pattern path
      then Inl (ConfigError (field_name @ lit '': path traversal pattern '' @ [39] @ pattern @ [39] @
        lit '' rejected'') (Some field_name))
      else validate_no_traversal_from ps path field_name)"

definition validate_no_traversal :: "pystr \<Rightarrow> pystr \<Rightarrow> unit result" where
  "validate_no_traversal path field_name = validate_no_traversal_from FORBIDDEN_PATTERNS path field_name"

section \<open>The global section\<close>

definition strict_int :: "yaml \<Rightarrow> py_error \<Rightarrow> int result" where
  \<comment> \<open>\<open>isinstance(value, int)\<close> and not a \<open>bool\<close>\<close>
  "strict_int val e = (case val of YInt i \<Rightarrow> Inr i | _ \<Rightarrow> Inl e)"

definition ascii_name :: "yaml \<Rightarrow> (int \<Rightarrow> bool) \<Rightarrow> py_error \<Rightarrow> pystr result" where
  \<comment> \<open>the common shape of the checks on \<open>label\<close> and \<open>oem_name\<close>\<close>
  "ascii_name val length_ok e =
     (case val of
        YStr s \<Rightarrow> if isascii s \<and> length_ok (int (length s)) \<and> s = map ascii_upper s then Inr s else Inl e
      | _ \<Rightarrow> Inl e)"

definition or_default :: "yaml option \<Rightarrow> yaml \<Rightarrow> yaml" where
  \<comment> \<open>\<open>raw.get(key, default)\<close>\<close>
  "or_default val d = (case val of None \<Rightarrow> d | Some v \<Rightarrow> v)"

definition validate_size :: "yaml option \<Rightarrow> int option result" where
  \<comment> \<open>the optional \<open>image_size_bytes\<close>; an explicit null counts as absent\<close>
  "validate_size val =
     (let fn = lit ''global.image_size_bytes''
      in case or_default val YNull of
           YNull \<Rightarrow> Inr None
         | v \<Rightarrow>
             rbind (strict_int v (bad_field fn ''must be an integer'')) (\<lambda>n.
             rbind (guard_r (\<not> (n \<le> 0 \<or> n mod 512 \<noteq> 0))
               (bad_field fn ''must be positive and a multiple of 512'')) (\<lambda>_.
             rbind (guard_r (\<not> IMAGE_SIZE_GIB_MAX * 1024 ^ 3 < n)
               (bad_field fn ''must not exceed 2047 GiB'')) (\<lambda>_.
             Inr (Some n)))))"

definition validate_global :: "(yaml \<times> yaml) list \<Rightarrow> (int \<times> int \<times> pystr \<times> pystr \<times> pystr \<times> int option) result" where
  "validate_global raw =
     rbind (strict_int (or_default (dict_get raw ''image_size_gib'') (YInt IMAGE_SIZE_GIB_MAX))
       (bad_field (lit ''global.image_size_gib'') ''must be an integer'')) (\<lambda>image_size_gib.
     rbind (guard_r (IMAGE_SIZE_GIB_MIN \<le> image_size_gib \<and> image_size_gib \<le> IMAGE_SIZE_GIB_MAX)
       (bad_field (lit ''global.image_size_gib'') ''must be between 1 and 2047'')) (\<lambda>_.
     rbind (validate_size (dict_get raw ''image_size_bytes'')) (\<lambda>size_bytes.
     rbind (guard_r (same_key (or_default (dict_get raw ''cluster_size_kib'') (YInt 128)) (YInt 128))
       (bad_field (lit ''global.cluster_size_kib'') ''must be exactly 128 (PS5 requirement)'')) (\<lambda>_.
     rbind (ascii_name (or_default (dict_get raw ''label'') (YStr (lit ''REMOTEPFS''))) (\<lambda>n. n \<le> 11)
       (bad_field (lit ''global.label'') ''must be uppercase ASCII, at most 11 chars'')) (\<lambda>label.
     rbind (ascii_name (or_default (dict_get raw ''oem_name'') (YStr (lit ''REMOTEPF''))) (\<lambda>n. n = 8)
       (bad_field (lit ''global.oem_name'') ''must be uppercase ASCII, exactly 8 chars'')) (\<lambda>oem_name.
     rbind (case or_default (dict_get raw ''usb_port'') (YStr (lit ''auto'')) of
         YStr s \<Rightarrow> if s = [] \<or> 47 \<in> set s then Inl (bad_field (lit ''global.usb_port'')
             ''must be 'auto' or a non-empty UDC name'') else Inr s
       | _ \<Rightarrow> Inl (bad_field (lit ''global.usb_port'') ''must be 'auto' or a non-empty UDC name''))
       (\<lambda>usb_port.
     Inr (image_size_gib, 128, label, oem_name, usb_port, size_bytes))))))))"

section \<open>Sources\<close>

definition index_field :: "string \<Rightarrow> nat \<Rightarrow> pystr" where
  "index_field section i = lit section @ lit ''['' @ show_nat i @ lit '']''"

definition protocol_ok :: "(int \<Rightarrow> bool) \<Rightarrow> pystr \<Rightarrow> bool" where
  \<comment> \<open>non-empty, and alphanumeric once the separators are removed\<close>
  "protocol_ok alnum p \<longleftrightarrow>
     p \<noteq> [] \<and> (let q = filter (\<lambda>c. c \<notin> {43, 45, 46}) p in q \<noteq> [] \<and> list_all alnum q)"

definition default_options :: "pystr \<Rightarrow> pystr" where
  "default_options protocol =
     (if protocol = lit ''nfs'' then DEFAULT_NFS_OPTIONS
      else if protocol = lit ''cifs'' then DEFAULT_CIFS_OPTIONS else [])"

definition option_tokens :: "pystr \<Rightarrow> pystr list" where
  "option_tokens options = map strip (split_on 44 options)"

definition validate_credentials :: "pystr \<Rightarrow> yaml option \<Rightarrow> pystr \<Rightarrow> pystr option result" where
  "validate_credentials fld val protocol =
     (let fn = fld @ lit ''.credentials_file''
      in rbind (case or_default val YNull of
           YNull \<Rightarrow> Inr None
         | YStr s \<Rightarrow>
             if s = [] then Inl (bad_field fn ''must be a string'')
             else rbind (guard_r (prefix (lit ''/'') s) (bad_field fn ''must be absolute'')) (\<lambda>_.
                  rbind (validate_no_traversal s fn) (\<lambda>_. Inr (Some s)))
         | _ \<Rightarrow> Inl (bad_field fn ''must be a string'')) (\<lambda>credentials.
         rbind (guard_r (\<not> (protocol = lit ''cifs'' \<and> credentials = None))
           (bad_field fn ''required for cifs sources'')) (\<lambda>_.
         Inr credentials)))"

definition validate_source ::
  "(int \<Rightarrow> bool) \<Rightarrow> nat \<Rightarrow> yaml \<Rightarrow> pystr list \<Rightarrow> source_config result" where
  \<comment> \<open>one turn of the loop; \<open>names\<close> are those of the sources before it\<close>
  "validate_source alnum i item names =
     (let fld = index_field ''sources'' i
      in case item of
           YDict d \<Rightarrow>
             rbind (validate_str (dict_get d ''name'') (fld @ lit ''.name'')) (\<lambda>name.
             rbind (guard_r (name \<notin> set names) (ConfigError
               (fld @ lit ''.name: duplicate source name '' @ [39] @ name @ [39]) (Some (fld @ lit ''.name'')))) (\<lambda>_.
             rbind (case or_default (dict_get d ''protocol'') (YStr (lit ''nfs'')) of
                 YStr p \<Rightarrow> if protocol_ok alnum p then Inr p
                   else Inl (bad_field (fld @ lit ''.protocol'') ''must be a protocol identifier'')
               | _ \<Rightarrow> Inl (bad_field (fld @ lit ''.protocol'') ''must be a protocol identifier'')) (\<lambda>protocol.
             rbind (validate_str (dict_get d ''endpoint'') (fld @ lit ''.endpoint'')) (\<lambda>endpoint.
             rbind (guard_r (\<not> (protocol = lit ''nfs'' \<and> 58 \<notin> set endpoint))
               (bad_field (fld @ lit ''.endpoint'') ''NFS endpoint must be server:/export'')) (\<lambda>_.
             rbind (guard_r (\<not> (protocol = lit ''cifs'' \<and> \<not> prefix (lit ''//'') endpoint))
               (bad_field (fld @ lit ''.endpoint'') ''CIFS endpoint must be //server/share'')) (\<lambda>_.
             rbind (validate_str (dict_get d ''mount_point'') (fld @ lit ''.mount_point'')) (\<lambda>mount_point.
             rbind (guard_r (prefix (lit ''/'') mount_point)
               (bad_field (fld @ lit ''.mount_point'') ''must be absolute'')) (\<lambda>_.
             rbind (validate_no_traversal mount_point (fld @ lit ''.mount_point'')) (\<lambda>_.
             rbind (guard_r (or_default (dict_get d ''read_only'') (YBool True) = YBool True)
               (bad_field (fld @ lit ''.read_only'') ''must remain true'')) (\<lambda>_.
             rbind (case dict_get d ''options'' of
                 None \<Rightarrow> Inr (default_options protocol)
               | Some (YStr s) \<Rightarrow> Inr s
               | Some _ \<Rightarrow> Inl (bad_field (fld @ lit ''.options'') ''must be a string'')) (\<lambda>options.
             rbind (validate_credentials fld (dict_get d ''credentials_file'') protocol) (\<lambda>credentials.
             rbind (guard_r (\<not> (protocol \<in> {lit ''nfs'', lit ''cifs''} \<and>
                 (lit ''ro'' \<notin> set (option_tokens options) \<or> lit ''rw'' \<in> set (option_tokens options))))
               (bad_field (fld @ lit ''.options'')
                  (''must contain standalone 'ro' and must not contain 'rw'' @ [CHR 0x27]))) (\<lambda>_.
             Inr \<lparr>sc_name = name, sc_protocol = protocol, sc_endpoint = endpoint,
               sc_mount_point = mount_point, sc_read_only = True, sc_options = options,
               sc_credentials_file = credentials\<rparr>)))))))))))))
         | _ \<Rightarrow> Inl (bad_field fld ''must be a table''))"

fun validate_sources_from ::
  "(int \<Rightarrow> bool) \<Rightarrow> nat \<Rightarrow> yaml list \<Rightarrow> source_config list \<Rightarrow> source_config list result" where
  "validate_sources_from alnum i [] sources = Inr sources"
| "validate_sources_from alnum i (item # items) sources =
     rbind (validate_source alnum i item (map sc_name sources)) (\<lambda>s.
     validate_sources_from alnum (Suc i) items (sources @ [s]))"

definition validate_sources :: "(int \<Rightarrow> bool) \<Rightarrow> yaml list \<Rightarrow> source_config list result" where
  "validate_sources alnum raw =
     (if raw = [] then Inl (ConfigError (lit ''at least one [[sources]] entry is required'') (Some (lit ''sources'')))
      else validate_sources_from alnum 0 raw [])"

section \<open>Entries\<close>

definition under_mount :: "pystr list \<Rightarrow> pystr \<Rightarrow> bool" where
  "under_mount mounts source = list_ex (\<lambda>mp. source = mp \<or> prefix (mp @ [47]) source) mounts"

definition entry_type_of :: "yaml option \<Rightarrow> entry_type option" where
  "entry_type_of val =
     (if val = Some (YStr (lit ''file'')) then Some EntryFile
      else if val = Some (YStr (lit ''directory'')) then Some EntryDirectory else None)"

definition validate_entry ::
  "(yaml \<Rightarrow> pystr) \<Rightarrow> nat \<Rightarrow> yaml \<Rightarrow> pystr list \<Rightarrow> pystr list \<Rightarrow> entry_config result" where
  "validate_entry repr i item mounts paths =
     (let fld = index_field ''entries'' i; fv = fld @ lit ''.virtual_path''
      in case item of
           YDict d \<Rightarrow>
             rbind (validate_str (dict_get d ''virtual_path'') fv) (\<lambda>virtual_path.
             rbind (guard_r (47 \<notin> set virtual_path)
               (bad_field fv ''must not contain '/' (flat root in V1)'')) (\<lambda>_.
             rbind (utf8 virtual_path) (\<lambda>encoded.
             rbind (guard_r (\<not> MAX_VIRTUAL_PATH_LEN < int (length encoded))
               (bad_field fv ''exceeds 255 bytes'')) (\<lambda>_.
             rbind (guard_r (virtual_path \<notin> set paths) (ConfigError
               (fv @ lit '': duplicate virtual path '' @ [39] @ virtual_path @ [39]) (Some fv))) (\<lambda>_.
             rbind (validate_no_traversal virtual_path fv) (\<lambda>_.
             rbind (validate_str (dict_get d ''source'') (fld @ lit ''.source'')) (\<lambda>source.
             rbind (validate_no_traversal source (fld @ lit ''.source'')) (\<lambda>_.
             rbind (guard_r (under_mount mounts source)
               (bad_field (fld @ lit ''.source'') ''must be under a configured mount_point'')) (\<lambda>_.
             (case entry_type_of (dict_get d ''type'') of
                Some t \<Rightarrow> Inr \<lparr>ec_virtual_path = virtual_path, ec_source = source, ec_type = t\<rparr>
              | None \<Rightarrow> Inl (ConfigError
                  (fld @ lit ''.type: must be 'file' or 'directory', got '' @
                   repr (or_default (dict_get d ''type'') YNull)) (Some (fld @ lit ''.type'')))))))))))))
         | _ \<Rightarrow> Inl (bad_field fld ''must be a table''))"

fun validate_entries_from ::
  "(yaml \<Rightarrow> pystr) \<Rightarrow> nat \<Rightarrow> yaml list \<Rightarrow> pystr list \<Rightarrow> entry_config list \<Rightarrow> entry_config list result" where
  "validate_entries_from repr i [] mounts entries = Inr entries"
| "validate_entries_from repr i (item # items) mounts entries =
     rbind (validate_entry repr i item mounts (map ec_virtual_path entries)) (\<lambda>e.
     validate_entries_from repr (Suc i) items mounts (entries @ [e]))"

definition validate_entries ::
  "(yaml \<Rightarrow> pystr) \<Rightarrow> yaml list \<Rightarrow> pystr list \<Rightarrow> entry_config list result" where
  "validate_entries repr raw mounts =
     (if raw = [] then Inl (ConfigError (lit ''at least one [[entries]] entry is required'') (Some (lit ''entries'')))
      else if MAX_ENTRIES < int (length raw) then Inl (ConfigError
        (lit ''entries: '' @ show_nat (length raw) @ lit '' entries exceeds the maximum of 10000'') (Some (lit ''entries'')))
      else validate_entries_from repr 0 raw mounts [])"

section \<open>Prefetch policy\<close>

definition validate_category :: "(yaml \<times> yaml) list \<Rightarrow> string \<Rightarrow> bool \<Rightarrow> prefetch_category result" where
  "validate_category raw name default_enabled =
     (let fn = lit ''prefetch.'' @ lit name
      in case or_default (dict_get raw name) (YDict []) of
           YDict d \<Rightarrow>
             rbind (case or_default (dict_get d ''enabled'') (YBool default_enabled) of
                 YBool b \<Rightarrow> Inr b
               | _ \<Rightarrow> Inl (bad_field (fn @ lit ''.enabled'') ''must be a boolean'')) (\<lambda>enabled.
             rbind (case or_default (dict_get d ''refresh_interval_seconds'') (YInt 300) of
                 YInt n \<Rightarrow> if n < 0 then Inl (bad_field (fn @ lit ''.refresh_interval_seconds'')
                     ''must be a non-negative integer'') else Inr n
               | _ \<Rightarrow> Inl (bad_field (fn @ lit ''.refresh_interval_seconds'')
                     ''must be a non-negative integer'')) (\<lambda>interval.
             Inr \<lparr>pc_enabled = enabled, pc_refresh_interval_seconds = interval\<rparr>))
         | _ \<Rightarrow> Inl (bad_field fn ''must be a mapping''))"

definition validate_prefetch :: "yaml option \<Rightarrow> prefetch_config result" where
  "validate_prefetch val =
     (case or_default val YNull of
        YNull \<Rightarrow> Inr default_prefetch
      | YDict raw \<Rightarrow>
          rbind (validate_category raw ''directory_metadata'' True) (\<lambda>dm.
          rbind (validate_category raw ''fat'' True) (\<lambda>fat.
          Inr \<lparr>pf_directory_metadata = dm, pf_fat = fat\<rparr>))
      | _ \<Rightarrow> Inl (ConfigError (lit ''prefetch: must be a mapping'') (Some (lit ''prefetch''))))"

section \<open>Documents\<close>

definition validate :: "(int \<Rightarrow> bool) \<Rightarrow> (yaml \<Rightarrow> pystr) \<Rightarrow> yaml \<Rightarrow> config result" where
  "validate alnum repr raw =
     (case raw of
        YDict r \<Rightarrow>
          (case dict_get r ''global'' of
             Some (YDict g) \<Rightarrow>
               rbind (validate_global g) (\<lambda>(gib, kib, label, oem, usb, size_bytes).
               (case dict_get r ''sources'' of
                  Some (YList sources_raw) \<Rightarrow>
                    rbind (validate_sources alnum sources_raw) (\<lambda>sources.
                    (case dict_get r ''entries'' of
                       Some (YList entries_raw) \<Rightarrow>
                         rbind (validate_entries repr entries_raw
                           (sort_key (\<lambda>p. - int (length p)) (map sc_mount_point sources))) (\<lambda>entries.
                         rbind (validate_prefetch (dict_get r ''prefetch'')) (\<lambda>pf.
                         Inr \<lparr>cf_image_size_gib = gib, cf_cluster_size_kib = kib, cf_label = label,
                           cf_oem_name = oem, cf_sources = sources, cf_entries = entries, cf_usb_port = usb,
                           cf_prefetch = pf, cf_image_size_bytes_override = size_bytes\<rparr>))
                     | _ \<Rightarrow> Inl (ConfigError (lit ''entries sequence is required'') (Some (lit ''entries'')))))
                | _ \<Rightarrow> Inl (ConfigError (lit ''sources sequence is required'') (Some (lit ''sources'')))))
           | _ \<Rightarrow> Inl (ConfigError (lit ''global section is required'') (Some (lit ''global''))))
      | _ \<Rightarrow> Inl (ConfigError (lit ''config must be a YAML mapping'') (Some (lit ''<root>''))))"

definition parse ::
  "(pystr \<Rightarrow> yaml result) \<Rightarrow> (int \<Rightarrow> bool) \<Rightarrow> (yaml \<Rightarrow> pystr) \<Rightarrow> pystr \<Rightarrow> config result" where
  "parse yaml_load alnum repr text =
     rbind (utf8 text) (\<lambda>encoded.
     if MAX_CONFIG_BYTES < int (length encoded)
     then Inl (ConfigError (lit ''config exceeds 1 MiB (1048576 bytes)'') (Some (lit ''<body>'')))
     else rbind
       (case yaml_load text of
          Inl RecursionError \<Rightarrow> Inl (ConfigError (lit ''YAML nesting exceeds parser limits'') None)
        | Inl (YamlError m) \<Rightarrow> Inl (ConfigError (lit ''YAML parse error: '' @ m) None)
        | r \<Rightarrow> r)
       (validate alnum repr))"

definition load ::
  "(pystr \<Rightarrow> pystr result) \<Rightarrow> (int \<Rightarrow> pystr) \<Rightarrow> (pystr \<Rightarrow> yaml result) \<Rightarrow>
     (int \<Rightarrow> bool) \<Rightarrow> (yaml \<Rightarrow> pystr) \<Rightarrow> pystr \<Rightarrow> config result" where
  \<comment> \<open>\<open>os_text\<close> is the text of an \<open>OSError\<close>\<close>
  "load read_text os_text yaml_load alnum repr path =
     rbind (case read_text path of
         Inl (OSError n) \<Rightarrow> Inl (ConfigError (lit ''cannot read config file '' @ path @ lit '': '' @ os_text n) None)
       | r \<Rightarrow> r)
       (parse yaml_load alnum repr)"

end
