(* ===== verification/ConfigFacts.thy ===== *)
theory ConfigFacts
  imports ConfigValidate
begin

text \<open>
  What validation guarantees. \<open>config_ok\<close> is the contract of a validated configuration;
  \<open>validate\<close> returns only such configurations, and returns every one of them for the
  document that spells it out (\<open>config_yaml\<close>), so the checks are neither too weak nor
  too strong. The strict mapping constructor never lets two equal keys through.
\<close>

section \<open>The contract\<close>

definition no_traversal :: "pystr \<Rightarrow> bool" where
  "no_traversal path = list_all (\<lambda>pattern. \<not> contains pattern path) FORBIDDEN_PATTERNS"

definition source_ok :: "(int \<Rightarrow> bool) \<Rightarrow> source_config \<Rightarrow> bool" where
  "source_ok alnum s \<longleftrightarrow>
     sc_name s \<noteq> [] \<and> protocol_ok alnum (sc_protocol s) \<and> sc_endpoint s \<noteq> [] \<and>
     (sc_protocol s = lit ''nfs'' \<longrightarrow> 58 \<in> set (sc_endpoint s)) \<and>
     (sc_protocol s = lit ''cifs'' \<longrightarrow> prefix (lit ''//'') (sc_endpoint s) \<and> sc_credentials_file s \<noteq> None) \<and>
     prefix (lit ''/'') (sc_mount_point s) \<and> no_traversal (sc_mount_point s) \<and> sc_read_only s \<and>
     (sc_protocol s \<in> {lit ''nfs'', lit ''cifs''} \<longrightarrow>
        lit ''ro'' \<in> set (option_tokens (sc_options s)) \<and> lit ''rw'' \<notin> set (option_tokens (sc_options s))) \<and>
     (case sc_credentials_file s of None \<Rightarrow> True | Some p \<Rightarrow> prefix (lit ''/'') p \<and> no_traversal p)"

definition entry_ok :: "pystr list \<Rightarrow> entry_config \<Rightarrow> bool" where
  "entry_ok mounts e \<longleftrightarrow>
     ec_virtual_path e \<noteq> [] \<and> 47 \<notin> set (ec_virtual_path e) \<and> no_traversal (ec_virtual_path e) \<and>
     (case utf8 (ec_virtual_path e) of Inl _ \<Rightarrow> False | Inr bs \<Rightarrow> length bs \<le> 255) \<and>
     ec_source e \<noteq> [] \<and> no_traversal (ec_source e) \<and> under_mount mounts (ec_source e)"

definition label_ok :: "(int \<Rightarrow> bool) \<Rightarrow> pystr \<Rightarrow> bool" where
  "label_ok length_ok s \<longleftrightarrow> isascii s \<and> length_ok (int (length s)) \<and> s = map ascii_upper s"

definition size_ok :: "int option \<Rightarrow> bool" where
  "size_ok size_bytes =
     (case size_bytes of None \<Rightarrow> True | Some n \<Rightarrow> 0 < n \<and> n mod 512 = 0 \<and> n \<le> 2047 * 1024 ^ 3)"

definition sources_ok :: "(int \<Rightarrow> bool) \<Rightarrow> source_config list \<Rightarrow> bool" where
  "sources_ok alnum ss \<longleftrightarrow> distinct (map sc_name ss) \<and> list_all (source_ok alnum) ss"

definition entries_ok :: "pystr list \<Rightarrow> entry_config list \<Rightarrow> bool" where
  "entries_ok mounts es \<longleftrightarrow> distinct (map ec_virtual_path es) \<and> list_all (entry_ok mounts) es"

definition prefetch_ok :: "prefetch_config \<Rightarrow> bool" where
  "prefetch_ok p \<longleftrightarrow> 0 \<le> pc_refresh_interval_seconds (pf_directory_metadata p) \<and>
     0 \<le> pc_refresh_interval_seconds (pf_fat p)"

definition config_ok :: "(int \<Rightarrow> bool) \<Rightarrow> config \<Rightarrow> bool" where
  "config_ok alnum c \<longleftrightarrow>
     1 \<le> cf_image_size_gib c \<and> cf_image_size_gib c \<le> 2047 \<and> cf_cluster_size_kib c = 128 \<and>
     size_ok (cf_image_size_bytes_override c) \<and>
     label_ok (\<lambda>n. n \<le> 11) (cf_label c) \<and> label_ok (\<lambda>n. n = 8) (cf_oem_name c) \<and>
     cf_usb_port c \<noteq> [] \<and> 47 \<notin> set (cf_usb_port c) \<and>
     cf_sources c \<noteq> [] \<and> sources_ok alnum (cf_sources c) \<and>
     cf_entries c \<noteq> [] \<and> length (cf_entries c) \<le> 10000 \<and> entries_ok (mount_points c) (cf_entries c) \<and>
     prefetch_ok (cf_prefetch c)"

section \<open>The checks on single fields\<close>

lemma validate_str_Inr_iff [result_simps]:
  "validate_str v f = Inr s \<longleftrightarrow> v = Some (YStr s) \<and> s \<noteq> []"
  by (auto simp: validate_str_def split: option.splits yaml.splits if_splits)

lemma validate_no_traversal_from_Inr_iff:
  "validate_no_traversal_from ps p f = Inr u \<longleftrightarrow> list_all (\<lambda>pattern. \<not> contains pattern p) ps"
  by (induction ps) auto

lemma validate_no_traversal_Inr_iff [result_simps]:
  "validate_no_traversal p f = Inr u \<longleftrightarrow> no_traversal p"
  by (simp add: validate_no_traversal_def no_traversal_def validate_no_traversal_from_Inr_iff)

lemma strict_int_Inr_iff [result_simps]: "strict_int v e = Inr i \<longleftrightarrow> v = YInt i"
  by (auto simp: strict_int_def split: yaml.splits)

lemma ascii_name_Inr_iff [result_simps]:
  "ascii_name v p e = Inr s \<longleftrightarrow> v = YStr s \<and> label_ok p s"
  by (auto simp: ascii_name_def label_ok_def split: yaml.splits if_splits)

lemma validate_size_Inr_iff [result_simps]:
  "validate_size v = Inr r \<longleftrightarrow>
     (or_default v YNull = YNull \<and> r = None \<or> (\<exists>n. v = Some (YInt n) \<and> r = Some n \<and> size_ok r))"
  by (cases v; cases "or_default v YNull")
    (auto simp: validate_size_def Let_def or_default_def result_simps size_ok_def IMAGE_SIZE_GIB_MAX_def)

lemma usb_port_Inr_iff:
  "(case v of YStr s \<Rightarrow> if s = [] \<or> 47 \<in> set s then Inl e else Inr s | _ \<Rightarrow> Inl e) = Inr r \<longleftrightarrow>
     v = YStr r \<and> r \<noteq> [] \<and> 47 \<notin> set r"
  by (cases v) auto

lemma protocol_Inr_iff:
  "(case v of YStr p \<Rightarrow> if protocol_ok alnum p then Inr p else Inl e | _ \<Rightarrow> Inl e) = Inr r \<longleftrightarrow>
     v = YStr r \<and> protocol_ok alnum r"
  by (cases v) auto

lemma options_Inr_iff:
  "(case v of None \<Rightarrow> Inr d | Some (YStr s) \<Rightarrow> Inr s | Some _ \<Rightarrow> Inl e) = Inr r \<longleftrightarrow>
     (v = None \<and> r = d \<or> v = Some (YStr r))"
  by (auto split: option.splits yaml.splits)

lemma validate_credentials_Inr_iff [result_simps]:
  "validate_credentials fld v protocol = Inr r \<longleftrightarrow>
     (or_default v YNull = YNull \<and> r = None \<or>
      (\<exists>s. v = Some (YStr s) \<and> s \<noteq> [] \<and> r = Some s \<and> prefix (lit ''/'') s \<and> no_traversal s)) \<and>
     (protocol = lit ''cifs'' \<longrightarrow> r \<noteq> None)"
  by (cases v; cases "or_default v YNull")
    (auto simp: validate_credentials_def Let_def or_default_def result_simps split: if_splits
      simp del: lit_Cons)

section \<open>Sections of the document\<close>

lemma validate_global_Inr_iff:
  "validate_global raw = Inr (gib, kib, label, oem, usb, n) \<longleftrightarrow>
     or_default (dict_get raw ''image_size_gib'') (YInt IMAGE_SIZE_GIB_MAX) = YInt gib \<and>
     1 \<le> gib \<and> gib \<le> 2047 \<and> kib = 128 \<and> validate_size (dict_get raw ''image_size_bytes'') = Inr n \<and>
     same_key (or_default (dict_get raw ''cluster_size_kib'') (YInt 128)) (YInt 128) \<and>
     or_default (dict_get raw ''label'') (YStr (lit ''REMOTEPFS'')) = YStr label \<and> label_ok (\<lambda>n. n \<le> 11) label \<and>
     or_default (dict_get raw ''oem_name'') (YStr (lit ''REMOTEPF'')) = YStr oem \<and> label_ok (\<lambda>n. n = 8) oem \<and>
     or_default (dict_get raw ''usb_port'') (YStr (lit ''auto'')) = YStr usb \<and> usb \<noteq> [] \<and> 47 \<notin> set usb"
  unfolding validate_global_def
  by (simp only: rbind_Inr_iff guard_r_Inr_iff strict_int_Inr_iff ascii_name_Inr_iff usb_port_Inr_iff
      IMAGE_SIZE_GIB_MIN_def IMAGE_SIZE_GIB_MAX_def sum.inject prod.inject) (simp del: lit_Cons, iprover)

lemma rbind_InrE:
  assumes "rbind m f = Inr y"
  obtains x where "m = Inr x" "f x = Inr y"
  using assms by (cases m) auto

lemma validate_source_sound:
  assumes "validate_source alnum i item names = Inr s"
  shows "source_ok alnum s" "sc_name s \<notin> set names"
proof -
  obtain d where item: "item = YDict d" using assms by (cases item) (simp_all add: validate_source_def Let_def)
  from assms have "source_ok alnum s \<and> sc_name s \<notin> set names"
    unfolding item validate_source_def Let_def yaml.case
  proof (elim rbind_InrE, goal_cases)
    case (1 name _ protocol endpoint _ _ mount_point _ _ _ options credentials)
    note guards = 1 [unfolded guard_r_Inr_iff validate_str_Inr_iff validate_no_traversal_Inr_iff protocol_Inr_iff]
    have s: "s = \<lparr>sc_name = name, sc_protocol = protocol, sc_endpoint = endpoint, sc_mount_point = mount_point,
        sc_read_only = True, sc_options = options, sc_credentials_file = credentials\<rparr>"
      using 1 by (simp only: sum.inject)
    have "case credentials of None \<Rightarrow> True | Some p \<Rightarrow> prefix (lit ''/'') p \<and> no_traversal p"
        "protocol = lit ''cifs'' \<longrightarrow> credentials \<noteq> None"
      using guards(12) unfolding validate_credentials_Inr_iff by (auto simp del: lit_Cons)
    with guards show ?case unfolding source_ok_def s source_config.simps by blast
  qed
  then show "source_ok alnum s" "sc_name s \<notin> set names" by simp_all
qed

lemma validate_entry_sound:
  assumes "validate_entry repr i item mounts paths = Inr e"
  shows "entry_ok mounts e" "ec_virtual_path e \<notin> set paths"
proof -
  obtain d where item: "item = YDict d" using assms by (cases item) (simp_all add: validate_entry_def Let_def)
  from assms have "entry_ok mounts e \<and> ec_virtual_path e \<notin> set paths"
    unfolding item validate_entry_def Let_def yaml.case
  proof (elim rbind_InrE, goal_cases)
    case (1 path _ encoded _ _ _ source)
    note guards = 1 [unfolded guard_r_Inr_iff validate_str_Inr_iff validate_no_traversal_Inr_iff]
    obtain t where "e = \<lparr>ec_virtual_path = path, ec_source = source, ec_type = t\<rparr>"
      using 1(10) by (cases "entry_type_of (dict_get d ''type'')") (auto simp del: lit_Cons)
    moreover have "length encoded \<le> 255" using guards(4) by (simp add: MAX_VIRTUAL_PATH_LEN_def)
    ultimately show ?case unfolding entry_ok_def using guards by simp
  qed
  then show "entry_ok mounts e" "ec_virtual_path e \<notin> set paths" by simp_all
qed

lemma validate_sources_from_sound:
  assumes "validate_sources_from alnum i items ss = Inr ss'" "sources_ok alnum ss"
  shows "sources_ok alnum ss' \<and> length ss' = length ss + length items"
  using assms
proof (induction items arbitrary: i ss)
  case (Cons item items)
  then obtain s where s: "validate_source alnum i item (map sc_name ss) = Inr s"
      "validate_sources_from alnum (Suc i) items (ss @ [s]) = Inr ss'"
    by (auto elim: rbind_InrE)
  have "sources_ok alnum (ss @ [s])"
    using Cons.prems(2) validate_source_sound [OF s(1)] by (simp add: sources_ok_def)
  from Cons.IH [OF s(2) this] show ?case by simp
qed simp

lemma validate_entries_from_sound:
  assumes "validate_entries_from repr i items mounts es = Inr es'" "entries_ok mounts es"
  shows "entries_ok mounts es' \<and> length es' = length es + length items"
  using assms
proof (induction items arbitrary: i es)
  case (Cons item items)
  then obtain e where e: "validate_entry repr i item mounts (map ec_virtual_path es) = Inr e"
      "validate_entries_from repr (Suc i) items mounts (es @ [e]) = Inr es'"
    by (auto elim: rbind_InrE)
  have "entries_ok mounts (es @ [e])"
    using Cons.prems(2) validate_entry_sound [OF e(1)] by (simp add: entries_ok_def)
  from Cons.IH [OF e(2) this] show ?case by simp
qed simp

lemma validate_category_sound:
  "validate_category raw name d = Inr c \<Longrightarrow> 0 \<le> pc_refresh_interval_seconds c"
  unfolding validate_category_def Let_def
  by (auto split: yaml.splits if_splits elim!: rbind_InrE)

lemma validate_prefetch_sound: "validate_prefetch v = Inr p \<Longrightarrow> prefetch_ok p"
  unfolding validate_prefetch_def
  by (auto split: yaml.splits elim!: rbind_InrE dest: validate_category_sound
      simp: prefetch_ok_def default_prefetch_def)

section \<open>Documents\<close>

lemma validate_sound:
  assumes "validate alnum repr raw = Inr c"
  shows "config_ok alnum c"
proof -
  obtain r g where raw: "raw = YDict r" and g: "dict_get r ''global'' = Some (YDict g)"
    using assms by (auto simp: validate_def split: yaml.splits option.splits)
  obtain gib kib label oem usb n where vg: "validate_global g = Inr (gib, kib, label, oem, usb, n)"
    using assms by (cases "validate_global g") (auto simp: validate_def raw g)
  obtain sr ss where sr: "dict_get r ''sources'' = Some (YList sr)" and vs: "validate_sources alnum sr = Inr ss"
    using assms by (auto simp: validate_def raw g vg split: yaml.splits option.splits elim: rbind_InrE)
  obtain er es where er: "dict_get r ''entries'' = Some (YList er)"
    and ve: "validate_entries repr er (sort_key (\<lambda>p. - int (length p)) (map sc_mount_point ss)) = Inr es"
    using assms by (auto simp: validate_def raw g vg sr vs split: yaml.splits option.splits elim: rbind_InrE)
  obtain pf where vp: "validate_prefetch (dict_get r ''prefetch'') = Inr pf"
    and c: "c = \<lparr>cf_image_size_gib = gib, cf_cluster_size_kib = kib, cf_label = label,
       cf_oem_name = oem, cf_sources = ss, cf_entries = es, cf_usb_port = usb,
       cf_prefetch = pf, cf_image_size_bytes_override = n\<rparr>"
    using assms by (auto simp: validate_def raw g vg sr vs er ve elim: rbind_InrE)
  have m: "mount_points c = sort_key (\<lambda>p. - int (length p)) (map sc_mount_point ss)"
    by (simp add: mount_points_def c)
  have ss: "ss \<noteq> [] \<and> sources_ok alnum ss"
    using vs validate_sources_from_sound [of alnum 0 sr "[]" ss]
    by (auto simp: validate_sources_def sources_ok_def split: if_splits)
  have es: "es \<noteq> [] \<and> length es \<le> 10000 \<and> entries_ok (mount_points c) es"
    using ve [folded m] validate_entries_from_sound [of repr 0 er "mount_points c" "[]" es]
    by (auto simp: validate_entries_def entries_ok_def MAX_ENTRIES_def split: if_splits)
  have "size_ok n" using vg by (auto simp: validate_global_Inr_iff validate_size_Inr_iff size_ok_def)
  with ss es validate_prefetch_sound [OF vp] vg show ?thesis
    unfolding config_ok_def m [symmetric] by (simp add: c validate_global_Inr_iff)
qed

section \<open>Completeness\<close>

definition key :: "string \<Rightarrow> yaml" where
  "key k = YStr (lit k)"

definition source_yaml :: "source_config \<Rightarrow> yaml" where
  "source_yaml s = YDict
     [(key ''name'', YStr (sc_name s)), (key ''protocol'', YStr (sc_protocol s)),
      (key ''endpoint'', YStr (sc_endpoint s)), (key ''mount_point'', YStr (sc_mount_point s)),
      (key ''read_only'', YBool (sc_read_only s)), (key ''options'', YStr (sc_options s)),
      (key ''credentials_file'', case sc_credentials_file s of None \<Rightarrow> YNull | Some p \<Rightarrow> YStr p)]"

definition entry_yaml :: "entry_config \<Rightarrow> yaml" where
  "entry_yaml e = YDict
     [(key ''virtual_path'', YStr (ec_virtual_path e)), (key ''source'', YStr (ec_source e)),
      (key ''type'', key (case ec_type e of EntryFile \<Rightarrow> ''file'' | EntryDirectory \<Rightarrow> ''directory''))]"

definition category_yaml :: "prefetch_category \<Rightarrow> yaml" where
  "category_yaml p = YDict
     [(key ''enabled'', YBool (pc_enabled p)),
      (key ''refresh_interval_seconds'', YInt (pc_refresh_interval_seconds p))]"

definition config_yaml :: "config \<Rightarrow> yaml" where
  "config_yaml c = YDict
     [(key ''global'', YDict
        [(key ''image_size_gib'', YInt (cf_image_size_gib c)),
         (key ''image_size_bytes'', case cf_image_size_bytes_override c of None \<Rightarrow> YNull | Some n \<Rightarrow> YInt n),
         (key ''cluster_size_kib'', YInt (cf_cluster_size_kib c)),
         (key ''label'', YStr (cf_label c)), (key ''oem_name'', YStr (cf_oem_name c)),
         (key ''usb_port'', YStr (cf_usb_port c))]),
      (key ''sources'', YList (map source_yaml (cf_sources c))),
      (key ''entries'', YList (map entry_yaml (cf_entries c))),
      (key ''prefetch'', YDict
        [(key ''directory_metadata'', category_yaml (pf_directory_metadata (cf_prefetch c))),
         (key ''fat'', category_yaml (pf_fat (cf_prefetch c)))])]"

lemma lit_inject [simp]: "lit a = lit b \<longleftrightarrow> a = b"
  by (auto simp: lit_def inj_map_eq_map [OF inj_of_char])

lemma lit_eq_Nil [simp]: "lit s = [] \<longleftrightarrow> s = []"
  by (simp add: lit_def)

lemma dict_get_simps [simp]:
  "dict_get [] k = None"
  "dict_get ((key a, v) # d) k = (if a = k then Some v else dict_get d k)"
  by (simp_all add: dict_get_def key_def del: lit_Cons)

lemma same_key_128 [simp]: "same_key (YInt i) (YInt j) \<longleftrightarrow> i = j"
  by (simp add: same_key_def same_number_def)

lemma validate_source_complete:
  assumes "source_ok alnum s" "sc_name s \<notin> set names"
  shows "validate_source alnum i (source_yaml s) names = Inr s"
proof -
  have cred: "validate_credentials fld (Some (case sc_credentials_file s of None \<Rightarrow> YNull | Some p \<Rightarrow> YStr p))
      (sc_protocol s) = Inr (sc_credentials_file s)" for fld
    using assms(1) unfolding validate_credentials_Inr_iff source_ok_def
    by (cases "sc_credentials_file s") (auto simp: or_default_def simp del: lit_Cons)
  have m: "sc_mount_point s \<noteq> []"
    using assms(1) by (auto simp: source_ok_def simp del: lit_Cons)
  have t: "validate_no_traversal (sc_mount_point s) f = Inr ()" for f
    using assms(1) by (simp add: validate_no_traversal_Inr_iff source_ok_def)
  have g: "\<not> (sc_protocol s = lit ''nfs'' \<and> 58 \<notin> set (sc_endpoint s))"
      "\<not> (sc_protocol s = lit ''cifs'' \<and> \<not> prefix (lit ''//'') (sc_endpoint s))"
      "\<not> (sc_protocol s \<in> {lit ''nfs'', lit ''cifs''} \<and>
         (lit ''ro'' \<notin> set (option_tokens (sc_options s)) \<or> lit ''rw'' \<in> set (option_tokens (sc_options s))))"
      "prefix (lit ''/'') (sc_mount_point s)" "sc_read_only s" "sc_name s \<noteq> []" "sc_endpoint s \<noteq> []"
      "protocol_ok alnum (sc_protocol s)"
    using assms(1) unfolding source_ok_def by blast+
  have "source_yaml s = YDict d \<Longrightarrow> validate_source alnum i (YDict d) names = Inr s" for d
    unfolding validate_source_def Let_def yaml.case source_yaml_def yaml.inject
    by (hypsubst, simp only: dict_get_simps list.inject char.inject validate_str_def option.case yaml.case
        or_default_def cred t g m assms(2) guard_r_True rbind_Inr if_True if_False HOL.simp_thms
        list.distinct) (simp add: g(5))
  then show ?thesis by (simp only: source_yaml_def)
qed

lemma validate_entry_complete:
  assumes "entry_ok mounts e" "ec_virtual_path e \<notin> set paths"
  shows "validate_entry repr i (entry_yaml e) mounts paths = Inr e"
proof -
  obtain bs where u: "utf8 (ec_virtual_path e) = Inr bs" "length bs \<le> 255"
    using assms(1) by (auto simp: entry_ok_def split: sum.splits)
  have len: "\<not> MAX_VIRTUAL_PATH_LEN < int (length bs)" using u(2) by (simp add: MAX_VIRTUAL_PATH_LEN_def)
  have t: "validate_no_traversal (ec_virtual_path e) f = Inr ()" "validate_no_traversal (ec_source e) f = Inr ()" for f
    using assms(1) by (simp_all add: validate_no_traversal_Inr_iff entry_ok_def)
  have g: "ec_virtual_path e \<noteq> []" "47 \<notin> set (ec_virtual_path e)" "ec_source e \<noteq> []"
      "under_mount mounts (ec_source e)"
    using assms(1) unfolding entry_ok_def by blast+
  have ty: "entry_type_of (Some (key (case ec_type e of EntryFile \<Rightarrow> ''file'' | EntryDirectory \<Rightarrow> ''directory''))) =
      Some (ec_type e)"
    by (cases "ec_type e") (simp_all add: entry_type_of_def key_def del: lit_Cons)
  have "entry_yaml e = YDict d \<Longrightarrow> validate_entry repr i (YDict d) mounts paths = Inr e" for d
    unfolding validate_entry_def Let_def yaml.case entry_yaml_def yaml.inject
    by (hypsubst, simp only: dict_get_simps list.inject char.inject validate_str_def option.case yaml.case
        t g u(1) len ty assms(2) guard_r_True rbind_Inr if_True if_False HOL.simp_thms list.distinct) simp
  then show ?thesis by (simp only: entry_yaml_def)
qed

lemma validate_sources_from_complete:
  "sources_ok alnum (ss @ new) \<Longrightarrow> validate_sources_from alnum i (map source_yaml new) ss = Inr (ss @ new)"
proof (induction new arbitrary: i ss)
  case (Cons s new)
  have "validate_source alnum i (source_yaml s) (map sc_name ss) = Inr s"
    using Cons.prems by (intro validate_source_complete) (auto simp: sources_ok_def)
  with Cons show ?case by simp
qed simp

lemma validate_entries_from_complete:
  "entries_ok mounts (es @ new) \<Longrightarrow> validate_entries_from repr i (map entry_yaml new) mounts es = Inr (es @ new)"
proof (induction new arbitrary: i es)
  case (Cons e new)
  have "validate_entry repr i (entry_yaml e) mounts (map ec_virtual_path es) = Inr e"
    using Cons.prems by (intro validate_entry_complete) (auto simp: entries_ok_def)
  with Cons show ?case by simp
qed simp

lemma validate_category_complete:
  "0 \<le> pc_refresh_interval_seconds p \<Longrightarrow> dict_get raw name = Some (category_yaml p) \<Longrightarrow>
     validate_category raw name d = Inr p"
  by (simp add: validate_category_def Let_def category_yaml_def or_default_def del: lit_Cons)

lemma validate_complete:
  assumes "config_ok alnum c"
  shows "validate alnum repr (config_yaml c) = Inr c"
proof -
  note ok = assms [unfolded config_ok_def]
  let ?size = "case cf_image_size_bytes_override c of None \<Rightarrow> YNull | Some n \<Rightarrow> YInt n"
  have size: "validate_size (Some ?size) = Inr (cf_image_size_bytes_override c)"
    using ok unfolding validate_size_Inr_iff
    by (cases "cf_image_size_bytes_override c") (auto simp: or_default_def)
  have g: "validate_global
      [(key ''image_size_gib'', YInt (cf_image_size_gib c)), (key ''image_size_bytes'', ?size),
       (key ''cluster_size_kib'', YInt 128), (key ''label'', YStr (cf_label c)),
       (key ''oem_name'', YStr (cf_oem_name c)), (key ''usb_port'', YStr (cf_usb_port c))] =
      Inr (cf_image_size_gib c, 128, cf_label c, cf_oem_name c, cf_usb_port c, cf_image_size_bytes_override c)"
    using ok size by (simp add: validate_global_Inr_iff or_default_def del: lit_Cons)
  have "sources_ok alnum (cf_sources c)" "cf_sources c \<noteq> []" using ok by blast+
  then have ss: "validate_sources alnum (map source_yaml (cf_sources c)) = Inr (cf_sources c)"
    using validate_sources_from_complete [of alnum "[]" "cf_sources c" 0]
    by (simp add: validate_sources_def)
  have "entries_ok (mount_points c) (cf_entries c)" "cf_entries c \<noteq> []" "length (cf_entries c) \<le> 10000"
    using ok by blast+
  then have es: "validate_entries repr (map entry_yaml (cf_entries c)) (mount_points c) = Inr (cf_entries c)"
    using validate_entries_from_complete [of "mount_points c" "[]" "cf_entries c" repr 0]
    by (simp add: validate_entries_def MAX_ENTRIES_def)
  let ?pf = "[(key ''directory_metadata'', category_yaml (pf_directory_metadata (cf_prefetch c))),
      (key ''fat'', category_yaml (pf_fat (cf_prefetch c)))]"
  have pf: "validate_prefetch (Some (YDict ?pf)) = Inr (cf_prefetch c)"
    using ok validate_category_complete [of "pf_directory_metadata (cf_prefetch c)" ?pf "''directory_metadata''" True]
      validate_category_complete [of "pf_fat (cf_prefetch c)" ?pf "''fat''" True]
    by (simp add: validate_prefetch_def or_default_def prefetch_ok_def del: lit_Cons)
  have k: "cf_cluster_size_kib c = 128" using ok by blast
  show ?thesis
    unfolding validate_def config_yaml_def
    by (simp add: g ss es [unfolded mount_points_def] pf k del: lit_Cons)
qed

section \<open>Strict mappings\<close>

lemma foldr_r_append: "foldr_r f (xs @ ys) s = rbind (foldr_r f xs s) (foldr_r f ys)"
  by (induction xs arbitrary: s) (auto simp: rbind_def split: sum.splits)

lemma mapping_items_distinct:
  assumes "foldr_r (mapping_item repr construct) items m = Inr m'"
    and "sorted_wrt (\<lambda>(a, _) (b, _). \<not> same_key a b) m" "list_all (\<lambda>(k, _). hashable k) m"
  shows "sorted_wrt (\<lambda>(a, _) (b, _). \<not> same_key a b) m' \<and> list_all (\<lambda>(k, _). hashable k) m' \<and>
    (\<exists>new. m' = m @ new \<and> mapr (\<lambda>(k, v). rbind (construct k) (\<lambda>k. rbind (construct v) (\<lambda>v. Inr (k, v)))) items = Inr new)"
  using assms
proof (induction items arbitrary: m)
  case (Cons item items)
  obtain m1 where m1: "mapping_item repr construct item m = Inr m1"
      "foldr_r (mapping_item repr construct) items m1 = Inr m'"
    using Cons.prems(1) by (auto elim: rbind_InrE)
  then obtain k v where kv: "construct (fst item) = Inr k" "construct (snd item) = Inr v" "hashable k"
      "\<not> list_ex (\<lambda>(j, _). same_key j k) m" "foldr_r (mapping_item repr construct) items (m @ [(k, v)]) = Inr m'"
    by (auto simp: mapping_item_def guard_r_Inr_iff elim!: rbind_InrE)
  have "sorted_wrt (\<lambda>(a, _) (b, _). \<not> same_key a b) (m @ [(k, v)])"
    using Cons.prems(2) kv(4) by (auto simp: sorted_wrt_append list_ex_iff)
  moreover have "list_all (\<lambda>(k, _). hashable k) (m @ [(k, v)])" using Cons.prems(3) kv(3) by simp
  ultimately show ?case using Cons.IH [OF kv(5)] kv(1,2) by (cases item) auto
qed simp

end
