(* ===== verification/ConfiguredVolume.thy ===== *)
theory ConfiguredVolume
  imports ConfigFacts VolumeFacts
begin

text \<open>
  From a validated configuration to a volume: what validation guarantees of the builder's
  inputs, and the ValueErrors that a validated configuration can still run into.
\<close>

lemma config_ok_size:
  assumes "config_ok alnum c"
  shows "0 < image_size_bytes c" "image_size_bytes c mod 512 = 0" "image_size_bytes c \<le> 2047 * 2 ^ 30"
proof -
  have "1 \<le> cf_image_size_gib c" "cf_image_size_gib c \<le> 2047" "size_ok (cf_image_size_bytes_override c)"
    using assms unfolding config_ok_def by blast+
  then show "0 < image_size_bytes c" "image_size_bytes c mod 512 = 0" "image_size_bytes c \<le> 2047 * 2 ^ 30"
    by (auto simp: image_size_bytes_def size_ok_def mod_mult_right_eq split: option.splits)
qed

lemma config_ok_label:
  "config_ok alnum c \<Longrightarrow> list_all (\<lambda>c. 0 \<le> c \<and> c < 128) (cf_label c)"
  by (simp add: config_ok_def label_ok_def isascii_def)

lemma new_builder_outcome:
  assumes "config_ok alnum c"
  shows "if image_size_bytes c < 12800
    then new_builder c = Inl (ValueError (lit ''image is too small for exFAT partition''))
    else \<exists>b. new_builder c = Inr b \<and> builder_ok b \<and> bd_config b = c"
proof -
  note size = config_ok_size [OF assms]
  have iff: "image_size_bytes c div 512 \<le> 24 \<longleftrightarrow> image_size_bytes c < 12800"
    using int_div_less_iff [of 512 "image_size_bytes c" 25] by linarith
  have "new_builder c = (if image_size_bytes c < 12800
      then Inl (ValueError (lit ''image is too small for exFAT partition''))
      else Inr \<lparr>bd_config = c, bd_total_bytes = image_size_bytes c, bd_total_sectors = image_size_bytes c div 512\<rparr>)"
    using size(2) iff by (simp add: new_builder_def Let_def del: lit_Cons)
  moreover have "builder_ok b \<and> bd_config b = c" if "new_builder c = Inr b" for b
    using new_builder_ok [OF that size(3)] by simp
  ultimately show ?thesis by (cases "image_size_bytes c < 12800") simp_all
qed

lemma build_exfat_outcome:
  assumes "config_ok alnum c" "build_tree fs limit (cf_entries c) = Inr root0" "tree_fine root0" "upper_ok up"
  shows "(\<exists>l. build_exfat fs limit up c = Inr l) \<or>
    build_exfat fs limit up c = Inl (ValueError (lit ''image is too small for exFAT partition'')) \<or>
    build_exfat fs limit up c = Inl (ValueError (lit ''configured files do not fit virtual image''))"
proof (cases "image_size_bytes c < 12800")
  case True
  then show ?thesis using new_builder_outcome [OF assms(1)] by (simp add: build_exfat_def del: lit_Cons)
next
  case False
  then obtain b where b: "new_builder c = Inr b" "builder_ok b" "bd_config b = c"
    using new_builder_outcome [OF assms(1)] by auto
  obtain fo fl ho cc where g: "geometry b = (fo, fl, ho, cc)" by (cases "geometry b")
  have "(\<exists>l. build fs limit up b = Inr l) \<or>
      build fs limit up b = Inl (ValueError (lit ''configured files do not fit virtual image''))"
    using build_outcome [of fs limit b root0 up, OF _ assms(3) b(2) assms(4) _ g] assms(2) config_ok_label [OF assms(1)]
    by (auto simp: b(3) split: if_splits simp del: lit_Cons)
  then show ?thesis by (auto simp: build_exfat_def b(1) simp del: lit_Cons)
qed

lemma build_exfat_unencodable:
  assumes "config_ok alnum c" "build_tree fs limit (cf_entries c) = Inr root0" "\<not> names_encodable root0"
  shows "build_exfat fs limit up c =
    (if image_size_bytes c < 12800 then Inl (ValueError (lit ''image is too small for exFAT partition''))
     else Inl UnicodeEncodeError)"
  using new_builder_outcome [OF assms(1)] build_unencodable assms(2,3)
  by (auto simp: build_exfat_def simp del: lit_Cons split: if_splits)

end
