(* ===== verification/NbdPlugin.thy ===== *)
theory NbdPlugin
  imports VolumeReads PyStr
begin

text \<open>
  The nbdkit plugin \<open>remotepfs_nbd.py\<close>: its two module globals, the configuration keys, the
  read-only capabilities and the request handlers. nbdkit's constants and whether it offers
  \<open>set_error\<close> are a record; loading a pickle is the parameter \<open>unpickle\<close>.
\<close>

section \<open>State\<close>

record nbdkit_module =
  nk_cache_none :: int
  nk_extent_zero :: int
  nk_fua_none :: int
  nk_thread_model_serialize_requests :: int
  nk_set_error :: bool \<comment> \<open>whether the module has \<open>set_error\<close>\<close>

definition fallback_nbdkit :: nbdkit_module where
  \<comment> \<open>the \<open>SimpleNamespace\<close> used where nbdkit cannot be imported\<close>
  "fallback_nbdkit = \<lparr>nk_cache_none = 0, nk_extent_zero = 1, nk_fua_none = 0,
     nk_thread_model_serialize_requests = 0, nk_set_error = False\<rparr>"

record plugin =
  pl_image_size :: int
  pl_mapper :: "mapper option"
  pl_world :: world \<comment> \<open>the process while there is no mapper\<close>
  pl_error :: "int option" \<comment> \<open>the last argument of \<open>set_error\<close>\<close>

definition new_plugin :: "world \<Rightarrow> plugin" where
  "new_plugin w = \<lparr>pl_image_size = 0, pl_mapper = None, pl_world = w, pl_error = None\<rparr>"

definition EIO :: int where "EIO = 5"
definition EINVAL :: int where "EINVAL = 22"
definition EROFS :: int where "EROFS = 30"

definition nbd_error :: "nbdkit_module \<Rightarrow> int \<Rightarrow> (plugin, 'a) prog" where
  "nbd_error nk n = bindp
     (if nk_set_error nk then modifyp (\<lambda>p. p\<lparr>pl_error := Some n\<rparr>) else ret ()) (\<lambda>_.
     raise_p (OSError n))"

section \<open>Configuration keys\<close>

fun digits_value :: "int \<Rightarrow> bool \<Rightarrow> pystr \<Rightarrow> int option" where
  \<comment> \<open>decimal digits, single underscores between them; the flag says a digit came just before\<close>
  "digits_value acc after_digit [] = (if after_digit then Some acc else None)"
| "digits_value acc after_digit (c # s) =
     (if 48 \<le> c \<and> c \<le> 57 then digits_value (acc * 10 + (c - 48)) True s
      else if c = 95 \<and> after_digit then digits_value acc False s else None)"

definition int_of_str :: "pystr \<Rightarrow> int result" where
  \<comment> \<open>\<open>int(value)\<close> on ASCII text\<close>
  "int_of_str val =
     (let e = Inl (ValueError (lit ''invalid literal for int() with base 10''))
      in case strip val of
           [] \<Rightarrow> e
         | c # s \<Rightarrow>
             (case digits_value 0 False (if c = 43 \<or> c = 45 then s else c # s) of
                None \<Rightarrow> e
              | Some n \<Rightarrow> Inr (if c = 45 then - n else n)))"

definition plugin_world :: "plugin \<Rightarrow> world" where
  "plugin_world p = (case pl_mapper p of None \<Rightarrow> pl_world p | Some m \<Rightarrow> mp_world m)"

definition plugin_config :: "(pystr \<Rightarrow> layout_state result) \<Rightarrow> pystr \<Rightarrow> pystr \<Rightarrow> (plugin, unit) prog" where
  "plugin_config unpickle key val =
     (if key = lit ''image_size''
      then bindp (lift_r (int_of_str val)) (\<lambda>n. modifyp (\<lambda>p. p\<lparr>pl_image_size := n\<rparr>))
      else if key = lit ''mapper_state''
      then bindp (lift_r (unpickle val)) (\<lambda>state.
           bindp getp (\<lambda>p.
           bindp (lift_r (mapper_from_state state (plugin_world p))) (\<lambda>m.
           bindp (modifyp (\<lambda>p. p\<lparr>pl_mapper := Some m\<rparr>)) (\<lambda>_.
           bindp getp (\<lambda>p.
           if pl_image_size p = 0 then modifyp (\<lambda>p. p\<lparr>pl_image_size := total_bytes (mp_layout m)\<rparr>)
           else ret ())))))
      else ret ())"

definition config_complete :: "(plugin, unit) prog" where
  "config_complete = bindp getp (\<lambda>p.
     if pl_image_size p \<le> 0 then raise_p (ValueError (lit ''image_size must be positive''))
     else if pl_mapper p = None then raise_p (ValueError (lit ''mapper_state is required''))
     else ret ())"

section \<open>Connections\<close>

definition plugin_open :: "nbdkit_module \<Rightarrow> bool \<Rightarrow> (plugin, unit) prog" where
  "plugin_open nk readonly = (if \<not> readonly then nbd_error nk EROFS else ret ())"

definition get_size :: "plugin \<Rightarrow> int" where "get_size p = pl_image_size p"
definition block_size :: "int \<times> int \<times> int" where "block_size = (512, 4096, 65536)"
definition is_rotational :: bool where "is_rotational = False"
definition can_write :: bool where "can_write = False"
definition can_trim :: bool where "can_trim = False"
definition can_zero :: bool where "can_zero = False"
definition can_flush :: bool where "can_flush = False"
definition can_fua :: "nbdkit_module \<Rightarrow> int" where "can_fua nk = nk_fua_none nk"
definition can_multi_conn :: bool where "can_multi_conn = False"
definition can_extents :: bool where "can_extents = True"
definition can_cache :: "nbdkit_module \<Rightarrow> int" where "can_cache nk = nk_cache_none nk"
definition can_fast_zero :: bool where "can_fast_zero = False"
definition thread_model :: "nbdkit_module \<Rightarrow> int" where
  "thread_model nk = nk_thread_model_serialize_requests nk"

section \<open>Requests\<close>

definition on_mapper :: "(mapper, 'a) prog \<Rightarrow> (plugin, 'a) prog" where
  \<comment> \<open>a call on the global \<open>sector_mapper\<close>\<close>
  "on_mapper f p =
     (case pl_mapper p of
        None \<Rightarrow> (Inl TypeError, p)
      | Some m \<Rightarrow> (case f m of (r, m') \<Rightarrow> (r, p\<lparr>pl_mapper := Some m'\<rparr>)))"

definition plugin_pread :: "nbdkit_module \<Rightarrow> bytes \<Rightarrow> int \<Rightarrow> (plugin, bytes) prog" where
  \<comment> \<open>\<open>buf\<close> is the caller's buffer, returned as it is filled\<close>
  "plugin_pread nk buf offset = bindp getp (\<lambda>p.
     if pl_mapper p = None then nbd_error nk EIO
     else if offset < 0 \<or> pl_image_size p < offset + int (length buf) then nbd_error nk EINVAL
     else catchp (on_mapper (mapper_read offset (Some buf))) (\<lambda>e.
       case e of OSError n \<Rightarrow> nbd_error nk (if n = 0 then EIO else n) | _ \<Rightarrow> raise_p e))"

definition plugin_extents :: "nbdkit_module \<Rightarrow> int \<Rightarrow> int \<Rightarrow> (plugin, (int \<times> int \<times> int) list) prog" where
  "plugin_extents nk count offset = bindp getp (\<lambda>p.
     if pl_mapper p = None then nbd_error nk EIO
     else bindp (on_mapper (mapper_extents offset count)) (\<lambda>xs.
       ret (map (\<lambda>(start, len, is_zero). (start, len, if is_zero then nk_extent_zero nk else 0)) xs)))"

definition plugin_close :: "(plugin, unit) prog" where
  "plugin_close = bindp getp (\<lambda>p. if pl_mapper p \<noteq> None then on_mapper mapper_close else ret ())"

section \<open>Serving a volume\<close>

definition serving :: "exfat_layout \<Rightarrow> (pystr \<rightharpoonup> bytes) \<Rightarrow> plugin \<Rightarrow> bool" where
  \<comment> \<open>configured over a layout, with a size the mapper can serve\<close>
  "serving l files p \<longleftrightarrow> 0 < pl_image_size p \<and> pl_image_size p \<le> total_bytes l \<and>
     (\<exists>m. pl_mapper p = Some m \<and> mapper_inv l files m)"

lemma nbd_error_apply: "fst (nbd_error nk n p) = Inl (OSError n)"
  by (simp add: nbd_error_def bindp_def)

lemma nbd_error_serving: "serving l files (snd (nbd_error nk n p)) = serving l files p"
  by (simp add: nbd_error_def bindp_def serving_def)

lemma plugin_pread_spec:
  assumes "serving l files p"
  shows "fst (plugin_pread nk buf off p) =
    (if off < 0 \<or> pl_image_size p < off + int (length buf) then Inl (OSError EINVAL)
     else Inr (image_window (image_sector l files) off (int (length buf))))"
  and "serving l files (snd (plugin_pread nk buf off p))"
proof -
  obtain m where m: "pl_mapper p = Some m" "mapper_inv l files m" and size: "pl_image_size p \<le> total_bytes l"
    using assms by (auto simp: serving_def)
  have "fst (plugin_pread nk buf off p) =
      (if off < 0 \<or> pl_image_size p < off + int (length buf) then Inl (OSError EINVAL)
       else Inr (image_window (image_sector l files) off (int (length buf)))) \<and>
    serving l files (snd (plugin_pread nk buf off p))"
  proof (cases "off < 0 \<or> pl_image_size p < off + int (length buf)")
    case True
    then show ?thesis using m(1) assms
      by (simp add: plugin_pread_def bindp_def nbd_error_apply nbd_error_serving)
  next
    case False
    then have "0 \<le> off" "off + int (length buf) \<le> total_bytes l" using size by auto
    from mapper_read_window [OF m(2) this] obtain m' where
      "mapper_read off (Some buf) m = (Inr (image_window (image_sector l files) off (int (length buf))), m')"
      "mapper_inv l files m'" by blast
    then show ?thesis using False m(1) assms
      by (simp add: plugin_pread_def bindp_def catchp_def on_mapper_def serving_def)
  qed
  then show "fst (plugin_pread nk buf off p) =
    (if off < 0 \<or> pl_image_size p < off + int (length buf) then Inl (OSError EINVAL)
     else Inr (image_window (image_sector l files) off (int (length buf))))"
    "serving l files (snd (plugin_pread nk buf off p))" by simp_all
qed

lemma plugin_setup:
  assumes "well_served fs limit up b root0 l w files" "0 < total_bytes l"
    and "unpickle path = Inr (to_state l)"
  shows "\<exists>p. bindp (plugin_config unpickle (lit ''mapper_state'') path) (\<lambda>_. config_complete) (new_plugin w) = (Inr (), p) \<and>
    serving l files p \<and> get_size p = total_bytes l"
proof -
  have inv: "mapper_inv l files (new_mapper l w)" using well_served_inv [OF assms(1), of "[]"] by (simp add: run_calls_def)
  have ne: "lit ''mapper_state'' \<noteq> lit ''image_size''" by simp
  show ?thesis
    using assms(2,3) inv ne
    by (simp add: plugin_config_def bindp_def new_plugin_def plugin_world_def mapper_from_state_def state_roundtrip
        config_complete_def serving_def new_mapper_def get_size_def del: lit_Cons)
qed

end
