(* ===== verification/Host.thy ===== *)
theory Host
  imports PyStr
begin

text \<open>
  The machine the managers run on: a tree of files and directories reached through
  \<open>pathlib\<close> and \<open>os\<close>, commands run through \<open>subprocess\<close>, and a clock. Every call may fail:
  \<open>h_fault\<close> says which one and with what \<open>errno\<close>. What a command answers and does to the
  tree (\<open>h_run\<close>) and what happens while the program sleeps (\<open>h_sleep\<close>) are parameters, as
  is the part of the tree that the kernel keeps itself (ConfigFS attributes and default
  groups, \<open>h_virtual\<close>, which appear with their directory, \<open>h_attributes\<close>).
\<close>

section \<open>Paths\<close>

text \<open>A path is its anchor and its components, as \<open>PurePosixPath\<close> parses it.\<close>

type_synonym path = "pystr \<times> pystr list"

definition components :: "pystr \<Rightarrow> pystr list" where
  "components s = filter (\<lambda>c. c \<noteq> [] \<and> c \<noteq> [46]) (split_on 47 s)"

definition path_of :: "pystr \<Rightarrow> path" where
  \<comment> \<open>\<open>Path(s)\<close>: exactly two leading slashes are kept\<close>
  "path_of s =
     (let slashes = length (takeWhile (\<lambda>c. c = 47) s)
      in (if slashes = 0 then [] else if slashes = 2 then [47, 47] else [47], components s))"

definition path_join :: "path \<Rightarrow> pystr \<Rightarrow> path" where
  \<comment> \<open>\<open>path / s\<close>; an absolute \<open>s\<close> replaces the path\<close>
  "path_join p s = (if prefix [47] s then path_of s else (fst p, snd p @ components s))"

fun join_slash :: "pystr list \<Rightarrow> pystr" where
  "join_slash [] = []"
| "join_slash [c] = c"
| "join_slash (c # cs) = c @ [47] @ join_slash cs"

definition path_str :: "path \<Rightarrow> pystr" where
  "path_str p = (if fst p = [] \<and> snd p = [] then [46] else fst p @ join_slash (snd p))"

definition parent :: "path \<Rightarrow> path" where
  "parent p = (fst p, butlast (snd p))"

definition path_name :: "path \<Rightarrow> pystr" where
  "path_name p = (if snd p = [] then [] else last (snd p))"

definition below :: "path \<Rightarrow> path \<Rightarrow> bool" where
  \<comment> \<open>the second path is the first one or lies under it\<close>
  "below p q \<longleftrightarrow> fst p = fst q \<and> prefix (snd p) (snd q)"

section \<open>The tree\<close>

datatype fnode =
    Dir
  | Text pystr
  | Blob bytes int int \<comment> \<open>content, group and mode\<close>
  | Link path

type_synonym tree = "(path \<times> fnode) list"

definition ENOENT :: int where "ENOENT = 2"
definition EPERM :: int where "EPERM = 1"
definition EACCES :: int where "EACCES = 13"
definition EEXIST :: int where "EEXIST = 17"
definition ENOTDIR :: int where "ENOTDIR = 20"
definition EISDIR :: int where "EISDIR = 21"
definition ENOTEMPTY :: int where "ENOTEMPTY = 39"
definition ELOOP :: int where "ELOOP = 40"

datatype fs_op = OpStat | OpLstat | OpRead | OpWrite | OpMkdir | OpList | OpSymlink | OpUnlink | OpRmdir
  | OpChown | OpChmod | OpReplace

record host =
  h_tree :: tree
  h_fault :: "nat \<Rightarrow> fs_op \<Rightarrow> path \<Rightarrow> int option"
  h_calls :: nat
  h_virtual :: "path \<Rightarrow> bool"
  h_attributes :: "path \<Rightarrow> tree"
  h_clock :: int \<comment> \<open>milliseconds\<close>
  h_sleep :: "nat \<Rightarrow> tree \<Rightarrow> tree"
  h_oversleep :: "nat \<Rightarrow> nat" \<comment> \<open>a sleep may last longer\<close>
  h_run :: "nat \<Rightarrow> pystr list \<Rightarrow> tree \<Rightarrow> (int \<times> pystr) result \<times> tree"
  h_stat :: "path \<Rightarrow> (int \<times> int) result" \<comment> \<open>owner and mode\<close>
  h_strerror :: "int \<Rightarrow> pystr"
  h_linux :: bool
  h_group :: "int option" \<comment> \<open>the group \<open>remotepfs\<close>\<close>
  h_new_mode :: int
  h_writes :: "(path \<times> pystr) list" \<comment> \<open>the texts written so far, newest first\<close>
  h_commands :: "pystr list list" \<comment> \<open>the commands run so far, newest first\<close>

definition lookup :: "tree \<Rightarrow> path \<Rightarrow> fnode option" where
  "lookup t p = (if snd p = [] then Some Dir else map_of t p)"

fun follow :: "nat \<Rightarrow> tree \<Rightarrow> path \<Rightarrow> path option" where
  \<comment> \<open>the path at the end of a chain of links, \<open>None\<close> for ELOOP\<close>
  "follow 0 t p = None"
| "follow (Suc n) t p = (case lookup t p of Some (Link q) \<Rightarrow> follow n t q | _ \<Rightarrow> Some p)"

definition resolve :: "tree \<Rightarrow> path \<Rightarrow> int + path \<times> fnode" where
  "resolve t p =
     (case follow 41 t p of
        None \<Rightarrow> Inl ELOOP
      | Some q \<Rightarrow> (case lookup t q of None \<Rightarrow> Inl ENOENT | Some n \<Rightarrow> Inr (q, n)))"

definition syscall :: "fs_op \<Rightarrow> path \<Rightarrow> (host \<Rightarrow> int + 'a \<times> host) \<Rightarrow> (host, 'a) prog" where
  "syscall op p f h =
     (let h' = h\<lparr>h_calls := Suc (h_calls h)\<rparr>
      in case h_fault h (h_calls h) op p of
           Some e \<Rightarrow> (Inl (OSError e), h')
         | None \<Rightarrow> (case f h' of Inl e \<Rightarrow> (Inl (OSError e), h') | Inr (x, h'') \<Rightarrow> (Inr x, h'')))"

section \<open>Queries\<close>

definition stat_node :: "path \<Rightarrow> (host, fnode) prog" where
  "stat_node p = syscall OpStat p (\<lambda>h.
     case resolve (h_tree h) p of Inl e \<Rightarrow> Inl e | Inr (_, n) \<Rightarrow> Inr (n, h))"

definition absent :: "py_error \<Rightarrow> bool" where
  \<comment> \<open>the errors that \<open>exists\<close> and its kind take for \<open>False\<close>\<close>
  "absent e = (case e of OSError n \<Rightarrow> n = ENOENT \<or> n = ENOTDIR \<or> n = 9 \<or> n = ELOOP | _ \<Rightarrow> False)"

definition test_node :: "(fnode \<Rightarrow> bool) \<Rightarrow> path \<Rightarrow> (host, bool) prog" where
  "test_node f p = catchp (bindp (stat_node p) (\<lambda>n. ret (f n)))
     (\<lambda>e. if absent e then ret False else raise_p e)"

definition path_exists :: "path \<Rightarrow> (host, bool) prog" where
  "path_exists = test_node (\<lambda>_. True)"

definition is_dir :: "path \<Rightarrow> (host, bool) prog" where
  "is_dir = test_node (\<lambda>n. n = Dir)"

definition is_file :: "path \<Rightarrow> (host, bool) prog" where
  "is_file = test_node (\<lambda>n. case n of Text _ \<Rightarrow> True | Blob _ _ _ \<Rightarrow> True | _ \<Rightarrow> False)"

definition is_symlink :: "path \<Rightarrow> (host, bool) prog" where
  "is_symlink p = catchp (syscall OpLstat p (\<lambda>h.
       case lookup (h_tree h) p of
         None \<Rightarrow> Inl ENOENT
       | Some n \<Rightarrow> Inr ((case n of Link _ \<Rightarrow> True | _ \<Rightarrow> False), h)))
     (\<lambda>e. if absent e then ret False else raise_p e)"

definition read_text :: "path \<Rightarrow> (host, pystr) prog" where
  \<comment> \<open>files read as text hold text\<close>
  "read_text p = syscall OpRead p (\<lambda>h.
     case resolve (h_tree h) p of
       Inl e \<Rightarrow> Inl e
     | Inr (_, Text s) \<Rightarrow> Inr (s, h)
     | Inr (_, Dir) \<Rightarrow> Inl EISDIR
     | Inr _ \<Rightarrow> Inl EACCES)"

definition child_of :: "path \<Rightarrow> path \<Rightarrow> bool" where
  "child_of p q \<longleftrightarrow> snd q \<noteq> [] \<and> parent q = p"

definition list_dir :: "path \<Rightarrow> (host, path list) prog" where
  \<comment> \<open>\<open>list(p.iterdir())\<close>\<close>
  "list_dir p = syscall OpList p (\<lambda>h.
     case resolve (h_tree h) p of
       Inl e \<Rightarrow> Inl e
     | Inr (q, Dir) \<Rightarrow>
         Inr (map (\<lambda>c. (fst p, snd p @ [path_name c])) (filter (child_of q) (map fst (h_tree h))), h)
     | Inr _ \<Rightarrow> Inl ENOTDIR)"

section \<open>Changes\<close>

definition put :: "path \<Rightarrow> fnode \<Rightarrow> tree \<Rightarrow> tree" where
  "put p n t = AList.update p n t"

definition writable :: "tree \<Rightarrow> path \<Rightarrow> int + path" where
  \<comment> \<open>where a file opened for writing ends up\<close>
  "writable t p =
     (case follow 41 t p of
        None \<Rightarrow> Inl ELOOP
      | Some q \<Rightarrow>
          if lookup t q = Some Dir then Inl EISDIR
          else if lookup t (parent q) = Some Dir then Inr q else Inl ENOENT)"

definition write_text :: "path \<Rightarrow> pystr \<Rightarrow> (host, unit) prog" where
  "write_text p s = syscall OpWrite p (\<lambda>h.
     case writable (h_tree h) p of
       Inl e \<Rightarrow> Inl e
     | Inr q \<Rightarrow> Inr ((), h\<lparr>h_tree := put q (Text s) (h_tree h), h_writes := (p, s) # h_writes h\<rparr>))"

definition write_bytes :: "path \<Rightarrow> bytes \<Rightarrow> (host, unit) prog" where
  "write_bytes p bs = syscall OpWrite p (\<lambda>h.
     case writable (h_tree h) p of
       Inl e \<Rightarrow> Inl e
     | Inr q \<Rightarrow>
         Inr ((), h\<lparr>h_tree := put q
           (case lookup (h_tree h) q of Some (Blob _ g m) \<Rightarrow> Blob bs g m | _ \<Rightarrow> Blob bs 0 (h_new_mode h))
           (h_tree h)\<rparr>))"

fun make_dirs :: "(path \<Rightarrow> tree) \<Rightarrow> pystr \<Rightarrow> pystr list \<Rightarrow> pystr list \<Rightarrow> tree \<Rightarrow> int + tree" where
  \<comment> \<open>the missing directories of a path, from the top\<close>
  "make_dirs attributes a done [] t = Inr t"
| "make_dirs attributes a done (c # cs) t =
     (let p = (a, done @ [c])
      in case lookup t p of
           Some Dir \<Rightarrow> make_dirs attributes a (done @ [c]) cs t
         | Some _ \<Rightarrow> Inl (if cs = [] then EEXIST else ENOTDIR)
         | None \<Rightarrow> make_dirs attributes a (done @ [c]) cs
             (fold (\<lambda>(q, n). put q n) (attributes p) (put p Dir t)))"

definition make_dir :: "path \<Rightarrow> (host, unit) prog" where
  \<comment> \<open>\<open>p.mkdir(parents=True, exist_ok=True)\<close>\<close>
  "make_dir p = syscall OpMkdir p (\<lambda>h.
     case make_dirs (h_attributes h) (fst p) [] (snd p) (h_tree h) of
       Inl e \<Rightarrow> Inl e
     | Inr t \<Rightarrow> Inr ((), h\<lparr>h_tree := t\<rparr>))"

definition make_link :: "path \<Rightarrow> path \<Rightarrow> (host, unit) prog" where
  \<comment> \<open>\<open>os.symlink(target, link)\<close>\<close>
  "make_link target link = syscall OpSymlink link (\<lambda>h.
     if lookup (h_tree h) link \<noteq> None then Inl EEXIST
     else if lookup (h_tree h) (parent link) \<noteq> Some Dir then Inl ENOENT
     else Inr ((), h\<lparr>h_tree := put link (Link target) (h_tree h)\<rparr>))"

definition unlink :: "path \<Rightarrow> (host, unit) prog" where
  "unlink p = syscall OpUnlink p (\<lambda>h.
     case lookup (h_tree h) p of
       None \<Rightarrow> Inl ENOENT
     | Some Dir \<Rightarrow> Inl EISDIR
     | Some _ \<Rightarrow> if h_virtual h p then Inl EPERM
                 else Inr ((), h\<lparr>h_tree := filter (\<lambda>(q, _). q \<noteq> p) (h_tree h)\<rparr>))"

definition remove_dir :: "path \<Rightarrow> (host, unit) prog" where
  \<comment> \<open>the kernel's own entries do not keep a directory alive and go with it\<close>
  "remove_dir p = syscall OpRmdir p (\<lambda>h.
     case lookup (h_tree h) p of
       None \<Rightarrow> Inl ENOENT
     | Some Dir \<Rightarrow>
         if h_virtual h p then Inl EPERM
         else if list_ex (\<lambda>(q, _). below p q \<and> q \<noteq> p \<and> \<not> h_virtual h q) (h_tree h) then Inl ENOTEMPTY
         else Inr ((), h\<lparr>h_tree := filter (\<lambda>(q, _). \<not> below p q) (h_tree h)\<rparr>)
     | Some _ \<Rightarrow> Inl ENOTDIR)"

definition chown_group :: "path \<Rightarrow> int \<Rightarrow> (host, unit) prog" where
  "chown_group p gid = syscall OpChown p (\<lambda>h.
     case lookup (h_tree h) p of
       None \<Rightarrow> Inl ENOENT
     | Some (Blob bs _ m) \<Rightarrow> Inr ((), h\<lparr>h_tree := put p (Blob bs gid m) (h_tree h)\<rparr>)
     | Some _ \<Rightarrow> Inr ((), h))"

definition chmod :: "path \<Rightarrow> int \<Rightarrow> (host, unit) prog" where
  "chmod p mode = syscall OpChmod p (\<lambda>h.
     case lookup (h_tree h) p of
       None \<Rightarrow> Inl ENOENT
     | Some (Blob bs g _) \<Rightarrow> Inr ((), h\<lparr>h_tree := put p (Blob bs g mode) (h_tree h)\<rparr>)
     | Some _ \<Rightarrow> Inr ((), h))"

definition replace_file :: "path \<Rightarrow> path \<Rightarrow> (host, unit) prog" where
  \<comment> \<open>\<open>os.replace(source, target)\<close> of a file, in one step\<close>
  "replace_file p q = syscall OpReplace p (\<lambda>h.
     case lookup (h_tree h) p of
       None \<Rightarrow> Inl ENOENT
     | Some n \<Rightarrow>
         if lookup (h_tree h) q = Some Dir then Inl EISDIR
         else if lookup (h_tree h) (parent q) \<noteq> Some Dir then Inl ENOENT
         else Inr ((), h\<lparr>h_tree := put q n (filter (\<lambda>(r, _). r \<noteq> p) (h_tree h))\<rparr>))"

section \<open>Commands and time\<close>

definition run_command :: "pystr list \<Rightarrow> (host, int \<times> pystr) prog" where
  \<comment> \<open>\<open>subprocess.run\<close>: the return code and the error output, or the error of starting it\<close>
  "run_command cmd h =
     (case h_run h (h_calls h) cmd (h_tree h) of
        (r, t) \<Rightarrow> (r, h\<lparr>h_calls := Suc (h_calls h), h_tree := t, h_commands := cmd # h_commands h\<rparr>))"

definition sleep_ms :: "int \<Rightarrow> (host, unit) prog" where
  "sleep_ms n h =
     (Inr (), h\<lparr>h_calls := Suc (h_calls h), h_clock := h_clock h + n + int (h_oversleep h (h_calls h)),
        h_tree := h_sleep h (h_calls h) (h_tree h)\<rparr>)"

fun mapp :: "('a \<Rightarrow> ('s, 'b) prog) \<Rightarrow> 'a list \<Rightarrow> ('s, 'b list) prog" where
  \<comment> \<open>\<open>[f(x) for x in xs]\<close>\<close>
  "mapp f [] = ret []"
| "mapp f (x # xs) = bindp (f x) (\<lambda>y. bindp (mapp f xs) (\<lambda>ys. ret (y # ys)))"

fun filterp :: "('a \<Rightarrow> ('s, bool) prog) \<Rightarrow> 'a list \<Rightarrow> ('s, 'a list) prog" where
  \<comment> \<open>\<open>[x for x in xs if f(x)]\<close>\<close>
  "filterp f [] = ret []"
| "filterp f (x # xs) = bindp (f x) (\<lambda>b. bindp (filterp f xs) (\<lambda>ys. ret (if b then x # ys else ys)))"

definition andp :: "('s, bool) prog \<Rightarrow> ('s, bool) prog \<Rightarrow> ('s, bool) prog" where
  \<comment> \<open>\<open>a and b\<close>\<close>
  "andp a b = bindp a (\<lambda>x. if x then b else ret False)"

definition on_os_error :: "('s, 'a) prog \<Rightarrow> (int \<Rightarrow> ('s, 'a) prog) \<Rightarrow> ('s, 'a) prog" where
  \<comment> \<open>\<open>try: m except OSError\<close>\<close>
  "on_os_error m f = catchp m (\<lambda>e. case e of OSError n \<Rightarrow> f n | _ \<Rightarrow> raise_p e)"

definition os_error_text :: "host \<Rightarrow> int \<Rightarrow> path \<Rightarrow> pystr" where
  \<comment> \<open>\<open>str(exc)\<close> of an \<open>OSError\<close> of a call on a path\<close>
  "os_error_text h n p =
     lit ''[Errno '' @ show_int n @ lit ''] '' @ h_strerror h n @ lit '': '' @ [39] @ path_str p @ [39]"

end
