(* ===== verification/MountManager.thy ===== *)
theory MountManager
  imports Host ConfigFacts
begin

text \<open>
  \<open>mount_manager.py\<close>: mounting, unmounting and inspecting the configured network sources.
\<close>

definition SUPPORTED_PROTOCOLS :: "pystr list" where
  "SUPPORTED_PROTOCOLS = [lit ''nfs'', lit ''cifs'']"

record mount_status =
  ms_name :: pystr
  ms_protocol :: pystr
  ms_endpoint :: pystr
  ms_mount_point :: pystr
  ms_mounted :: bool
  ms_state :: pystr

definition nonempty_or :: "pystr \<Rightarrow> pystr \<Rightarrow> pystr" where
  \<comment> \<open>\<open>a or b\<close> on strings\<close>
  "nonempty_or a b = (if a = [] then b else a)"

definition credentials_path :: "source_config \<Rightarrow> (host, pystr) prog" where
  "credentials_path s =
     (case sc_credentials_file s of
        None \<Rightarrow> raise_p (MountError (lit ''CIFS source '' @ sc_name s @ lit '' requires credentials_file''))
      | Some f \<Rightarrow>
          if f = [] then raise_p (MountError (lit ''CIFS source '' @ sc_name s @ lit '' requires credentials_file''))
          else bindp getp (\<lambda>h.
            (let p = path_of f
             in case h_stat h p of
                  Inl (OSError _) \<Rightarrow>
                    raise_p (MountError (lit ''CIFS credentials file unavailable: '' @ path_str p))
                | Inl e \<Rightarrow> raise_p e
                | Inr (uid, mode) \<Rightarrow>
                    if uid \<noteq> 0
                    then raise_p (MountError (lit ''CIFS credentials file must be owned by root: '' @ path_str p))
                    else if mode mod 0x1000 \<noteq> 0x180
                    then raise_p (MountError (lit ''CIFS credentials file must have mode 0600: '' @ path_str p))
                    else ret (path_str p))))"

definition mount_command :: "source_config \<Rightarrow> (host, pystr list) prog" where
  "mount_command s =
     (let mount_point = path_str (path_of (sc_mount_point s))
      in if sc_protocol s = lit ''nfs''
         then ret [lit ''mount'', lit ''-t'', lit ''nfs4'', lit ''-o'',
           nonempty_or (sc_options s) DEFAULT_NFS_OPTIONS, sc_endpoint s, mount_point]
         else if sc_protocol s = lit ''cifs''
         then bindp (credentials_path s) (\<lambda>credentials.
           ret [lit ''mount'', lit ''-t'', lit ''cifs'', lit ''-o'',
             nonempty_or (sc_options s) DEFAULT_CIFS_OPTIONS @ lit '',credentials='' @ credentials,
             sc_endpoint s, mount_point])
         else raise_p AssertionError)"

definition checked_run :: "pystr list \<Rightarrow> (pystr \<Rightarrow> py_error) \<Rightarrow> pystr \<Rightarrow> (host, unit) prog" where
  \<comment> \<open>run a command and raise its error output when it fails\<close>
  "checked_run cmd err fallback = bindp (run_command cmd) (\<lambda>(code, stderr).
     if code \<noteq> 0 then raise_p (err (nonempty_or (strip stderr) fallback)) else ret ())"

definition mount_source :: "source_config \<Rightarrow> (host, unit) prog" where
  "mount_source s = bindp getp (\<lambda>h.
     if \<not> h_linux h then raise_p (MountError (lit ''Network mount operations require Linux SBC''))
     else if sc_protocol s \<notin> set SUPPORTED_PROTOCOLS
     then raise_p (MountError (lit ''unsupported mount protocol: '' @ sc_protocol s))
     else bindp (make_dir (path_of (sc_mount_point s))) (\<lambda>_.
          bindp (mount_command s) (\<lambda>cmd.
          checked_run cmd MountError (lit ''mount failed for '' @ sc_name s))))"

definition unmount_source :: "source_config \<Rightarrow> (host, unit) prog" where
  "unmount_source s = bindp getp (\<lambda>h.
     if \<not> h_linux h then raise_p (MountError (lit ''Network unmount operations require Linux SBC''))
     else checked_run [lit ''umount'', sc_mount_point s] MountError (lit ''unmount failed for '' @ sc_name s))"

definition mounted_in :: "pystr \<Rightarrow> pystr \<Rightarrow> bool" where
  "mounted_in mounts mount_point =
     list_ex (\<lambda>line. 2 \<le> length (words line) \<and> words line ! 1 = mount_point) (splitlines mounts)"

definition is_mounted :: "pystr \<Rightarrow> (host, bool) prog" where
  "is_mounted mount_point =
     catchp (bindp (read_text (path_of (lit ''/proc/mounts''))) (\<lambda>mounts. ret (mounted_in mounts mount_point)))
       (\<lambda>e. case e of OSError _ \<Rightarrow> ret False | _ \<Rightarrow> raise_p e)"

definition mount_status_of :: "source_config \<Rightarrow> (host, mount_status) prog" where
  "mount_status_of s = bindp (is_mounted (sc_mount_point s)) (\<lambda>mounted.
     ret \<lparr>ms_name = sc_name s, ms_protocol = sc_protocol s, ms_endpoint = sc_endpoint s,
       ms_mount_point = sc_mount_point s, ms_mounted = mounted,
       ms_state = (if mounted then lit ''ok'' else lit ''not_mounted'')\<rparr>)"

section \<open>Mounts stay read-only\<close>

definition read_only_options :: "pystr \<Rightarrow> bool" where
  "read_only_options options \<longleftrightarrow>
     lit ''ro'' \<in> set (option_tokens options) \<and> lit ''rw'' \<notin> set (option_tokens options)"

lemma option_tokens_append: "option_tokens (a @ 44 # b) = option_tokens a @ option_tokens b"
  by (simp add: option_tokens_def split_on_append)

lemma credentials_token:
  assumes "44 \<notin> set p"
  shows "read_only_options (options @ lit '',credentials='' @ p) = read_only_options options"
proof -
  have e: "options @ lit '',credentials='' @ p = options @ 44 # (lit ''credentials='' @ p)" by simp
  have "option_tokens (lit ''credentials='' @ p) = [strip (lit ''credentials='' @ p)]"
    using assms by (simp add: option_tokens_def split_on_none)
  moreover have "prefix [99] (strip (lit ''credentials='' @ p))"
    using strip_prefix [of "lit ''credentials='' @ p"] by (simp add: py_space_def)
  ultimately show ?thesis
    unfolding read_only_options_def e option_tokens_append by (auto simp: prefix_def)
qed

lemma default_options_read_only:
  "read_only_options DEFAULT_NFS_OPTIONS" "read_only_options DEFAULT_CIFS_OPTIONS"
  by code_simp+

lemma mount_command_read_only:
  assumes "source_ok alnum s" "mount_command s h = (Inr cmd, h')"
    and "list_all (\<lambda>f. 44 \<notin> set (path_str (path_of f))) (case sc_credentials_file s of None \<Rightarrow> [] | Some f \<Rightarrow> [f])"
  shows "take 1 cmd = [lit ''mount'']" "read_only_options (cmd ! 4)" "h' = h"
proof -
  have opt: "read_only_options (nonempty_or (sc_options s) d)"
    if "sc_protocol s = lit ''nfs'' \<or> sc_protocol s = lit ''cifs''" "read_only_options d" for d
    using assms(1) that by (auto simp: source_ok_def read_only_options_def nonempty_or_def simp del: lit_Cons)
  have ne: "lit ''cifs'' \<noteq> lit ''nfs''" by simp
  consider "sc_protocol s = lit ''nfs''" | f where "sc_protocol s = lit ''cifs''" "sc_credentials_file s = Some f"
      "credentials_path s h = (Inr (path_str (path_of f)), h)"
    using assms(2) by (auto simp: mount_command_def credentials_path_def bindp_def Let_def simp del: lit_Cons
        split: if_splits option.splits sum.splits prod.splits py_error.splits)
  then have "take 1 cmd = [lit ''mount''] \<and> read_only_options (cmd ! 4) \<and> h' = h"
  proof cases
    case 1
    with assms(2) opt default_options_read_only show ?thesis
      by (simp add: mount_command_def Let_def del: lit_Cons) (auto simp del: lit_Cons)
  next
    case 2
    then have "44 \<notin> set (path_str (path_of f))" using assms(3) by simp
    with 2 assms(2) opt default_options_read_only ne credentials_token show ?thesis
      by (simp add: mount_command_def Let_def bindp_def del: lit_Cons) (auto simp del: lit_Cons)
  qed
  then show "take 1 cmd = [lit ''mount'']" "read_only_options (cmd ! 4)" "h' = h" by simp_all
qed

lemma make_dir_commands: "make_dir p h = (r, h') \<Longrightarrow> h_commands h' = h_commands h"
  by (auto simp: make_dir_def syscall_def Let_def split: option.splits sum.splits)

lemma checked_run_commands:
  assumes "checked_run cmd err fb h = (r, h')"
  shows "h_commands h' = cmd # h_commands h"
  using assms by (auto simp: checked_run_def bindp_def run_command_def split: prod.splits sum.splits if_splits)

lemma mount_source_commands:
  assumes "source_ok alnum s"
    and "list_all (\<lambda>f. 44 \<notin> set (path_str (path_of f))) (case sc_credentials_file s of None \<Rightarrow> [] | Some f \<Rightarrow> [f])"
    and "mount_source s h = (r, h')"
  shows "h_commands h' = h_commands h \<or>
    (\<exists>cmd. h_commands h' = cmd # h_commands h \<and> take 1 cmd = [lit ''mount''] \<and> read_only_options (cmd ! 4))"
proof (cases "\<not> h_linux h \<or> sc_protocol s \<notin> set SUPPORTED_PROTOCOLS")
  case True
  with assms(3) show ?thesis by (auto simp: mount_source_def bindp_def simp del: lit_Cons split: if_splits)
next
  case False
  obtain r1 h1 where d: "make_dir (path_of (sc_mount_point s)) h = (r1, h1)" by fastforce
  note c1 = make_dir_commands [OF d]
  show ?thesis
  proof (cases r1)
    case (Inl e)
    with False d assms(3) c1 show ?thesis by (auto simp: mount_source_def bindp_def simp del: lit_Cons)
  next
    case (Inr u)
    obtain r2 h2 where m: "mount_command s h1 = (r2, h2)" by fastforce
    show ?thesis
    proof (cases r2)
      case (Inl e)
      have "h2 = h1" using m Inl
        by (auto simp: mount_command_def credentials_path_def bindp_def Let_def simp del: lit_Cons
          split: if_splits option.splits sum.splits prod.splits py_error.splits)
      with Inl False d Inr m assms(3) c1 show ?thesis by (auto simp: mount_source_def bindp_def simp del: lit_Cons)
    next
      case cmd: (Inr cmd)
      note ro = mount_command_read_only [OF assms(1) m [unfolded cmd] assms(2)]
      have "checked_run cmd MountError (lit ''mount failed for '' @ sc_name s) h2 = (r, h')"
        using assms(3) False d Inr m cmd by (simp add: mount_source_def bindp_def del: lit_Cons)
      from checked_run_commands [OF this] ro c1 show ?thesis by auto
    qed
  qed
qed

end
