(* ===== verification/NbdkitManager.thy ===== *)
theory NbdkitManager
  imports Host Consts
begin

text \<open>
  \<open>nbdkit_manager.py\<close>: control of the systemd unit that runs nbdkit and of the kernel's NBD
  client. The wait for the socket is a loop with fuel; \<open>wait_socket_ends\<close> shows that 201
  rounds are enough, since every round sleeps at least 50 ms of the 10 s allowed.
\<close>

definition CACHE_MIN_BLOCK_SIZE_BYTES :: int where "CACHE_MIN_BLOCK_SIZE_BYTES = 262144"
definition CACHE_MAX_SIZE_BYTES :: int where "CACHE_MAX_SIZE_BYTES = 1073741824"
definition CACHE_HIGH_THRESHOLD_PERCENT :: int where "CACHE_HIGH_THRESHOLD_PERCENT = 95"
definition CACHE_LOW_THRESHOLD_PERCENT :: int where "CACHE_LOW_THRESHOLD_PERCENT = 80"

definition DEFAULT_PLUGIN_PATH :: pystr where
  "DEFAULT_PLUGIN_PATH = lit ''/opt/remotepfs/source/src/remotepfs/remotepfs_nbd.py''"
definition DEFAULT_UNIT :: pystr where "DEFAULT_UNIT = lit ''remotepfs-nbdkit.service''"
definition DEFAULT_STATE_PATH :: pystr where "DEFAULT_STATE_PATH = lit ''/var/lib/remotepfs/mapper.state''"

record nbdkit_manager =
  nm_socket_path :: pystr
  nm_pidfile :: pystr
  nm_plugin_path :: pystr
  nm_unit_name :: pystr
  nm_state_path :: pystr

definition default_nbdkit_manager :: nbdkit_manager where
  "default_nbdkit_manager =
     \<lparr>nm_socket_path = lit ''/run/remotepfs/nbd.sock'', nm_pidfile = lit ''/run/remotepfs/nbdkit.pid'',
      nm_plugin_path = DEFAULT_PLUGIN_PATH, nm_unit_name = DEFAULT_UNIT, nm_state_path = DEFAULT_STATE_PATH\<rparr>"

definition nbdkit_command :: "nbdkit_manager \<Rightarrow> int \<Rightarrow> pystr \<Rightarrow> pystr list" where
  "nbdkit_command nm image_size mapper_state =
     [lit ''nbdkit'', lit ''-U'', nm_socket_path nm, lit ''--pidfile'', nm_pidfile nm,
      lit ''--exit-with-parent'', lit ''--threads'', lit ''1'', lit ''--readonly'',
      lit ''--filter=blocksize'', lit ''--filter=cache'', lit ''python'', nm_plugin_path nm,
      lit ''image_size='' @ show_int image_size, lit ''mapper_state='' @ mapper_state,
      lit ''minblock=512'', lit ''maxdata=65536'', lit ''maxlen=134217728'',
      lit ''cache-min-block-size='' @ show_int CACHE_MIN_BLOCK_SIZE_BYTES,
      lit ''cache-max-size='' @ show_int CACHE_MAX_SIZE_BYTES,
      lit ''cache-high-threshold='' @ show_int CACHE_HIGH_THRESHOLD_PERCENT,
      lit ''cache-on-read=true'',
      lit ''cache-low-threshold='' @ show_int CACHE_LOW_THRESHOLD_PERCENT]"

fun wait_socket :: "nat \<Rightarrow> pystr \<Rightarrow> int \<Rightarrow> (host, unit) prog" where
  "wait_socket 0 socket deadline = raise_p OutOfFuel"
| "wait_socket (Suc n) socket deadline =
     bindp (path_exists (path_of socket)) (\<lambda>found.
     if found then ret ()
     else bindp getp (\<lambda>h.
       if deadline \<le> h_clock h
       then raise_p (NbdkitError (lit ''nbdkit socket did not appear: '' @ socket))
       else bindp (sleep_ms 50) (\<lambda>_. wait_socket n socket deadline)))"

definition nbdkit_start :: "nbdkit_manager \<Rightarrow> int \<Rightarrow> pystr \<Rightarrow> bool \<Rightarrow> (host, unit) prog" where
  "nbdkit_start nm image_size mapper_state foreground =
     bindp (if path_of mapper_state \<noteq> path_of (nm_state_path nm) then ret True
            else bindp (is_file (path_of mapper_state)) (\<lambda>f. ret (\<not> f))) (\<lambda>missing.
     if missing
     then raise_p (NbdkitError (lit ''mapper state must exist at '' @ nm_state_path nm @ lit '' before systemd start''))
     else if foreground
     then raise_p (NbdkitError (lit ''foreground nbdkit requires direct deployment, not systemd unit''))
     else bindp (run_command [lit ''systemctl'', lit ''start'', lit ''--no-block'', nm_unit_name nm]) (\<lambda>_.
       bindp getp (\<lambda>h. wait_socket 201 (nm_socket_path nm) (h_clock h + 10000))))"

definition nbd_disconnect :: "(host, unit) prog" where
  "nbd_disconnect = bindp (run_command [lit ''nbd-client'', lit ''-L'', lit ''-d'', lit ''/dev/nbd0'']) (\<lambda>_. ret ())"

definition nbdkit_stop :: "nbdkit_manager \<Rightarrow> (host, unit) prog" where
  "nbdkit_stop nm = bindp nbd_disconnect (\<lambda>_.
     bindp (run_command [lit ''systemctl'', lit ''stop'', lit ''--no-block'', nm_unit_name nm]) (\<lambda>_. ret ()))"

definition nbd_connect :: "nbdkit_manager \<Rightarrow> (host, unit) prog" where
  "nbd_connect nm =
     bindp (run_command [lit ''nbd-client'', lit ''-u'', nm_socket_path nm, lit ''-R'', lit ''-L'', lit ''/dev/nbd0''])
       (\<lambda>(code, stderr).
          if code \<noteq> 0
          then raise_p (NbdkitError (if strip stderr = [] then lit ''nbd-client connect failed'' else strip stderr))
          else ret ())"

definition nbd_is_ready :: "nbdkit_manager \<Rightarrow> (host, bool) prog" where
  "nbd_is_ready nm = path_exists (path_of (nm_socket_path nm))"

section \<open>The wait ends\<close>

lemma path_exists_state:
  assumes "path_exists p h = (r, h')"
  shows "h' = h\<lparr>h_calls := Suc (h_calls h)\<rparr>"
  using assms
  by (auto simp: path_exists_def test_node_def catchp_def bindp_def stat_node_def syscall_def Let_def
      split: option.splits sum.splits prod.splits if_splits)

lemma path_exists_no_fuel: "fst (path_exists p h) \<noteq> Inl OutOfFuel"
  by (auto simp: path_exists_def test_node_def catchp_def bindp_def stat_node_def syscall_def Let_def absent_def
      split: option.splits sum.splits prod.splits if_splits)

lemma wait_socket_ends:
  assumes "deadline - h_clock h \<le> 50 * int n"
  shows "fst (wait_socket (Suc n) socket deadline h) \<noteq> Inl OutOfFuel"
  using assms
proof (induction n arbitrary: h)
  case 0
  obtain r h1 where e: "path_exists (path_of socket) h = (r, h1)" by fastforce
  from path_exists_state [OF e] have "h_clock h1 = h_clock h" by simp
  with 0 e path_exists_no_fuel [of "path_of socket" h] show ?case
    by (cases r) (auto simp: bindp_def simp del: lit_Cons)
next
  case (Suc n)
  obtain r h1 where e: "path_exists (path_of socket) h = (r, h1)" by fastforce
  from path_exists_state [OF e] have c: "h_clock h1 = h_clock h" by simp
  show ?case
  proof (cases "r = Inr False \<and> h_clock h1 < deadline")
    case True
    define h2 where "h2 = snd (sleep_ms 50 h1)"
    have "deadline - h_clock h2 \<le> 50 * int n" using Suc.prems c by (simp add: h2_def sleep_ms_def)
    from Suc.IH [OF this] show ?thesis
      using True e by (simp add: bindp_def sleep_ms_def h2_def del: wait_socket.simps)
        (simp add: bindp_def sleep_ms_def wait_socket.simps(2) [of "Suc n"] del: wait_socket.simps lit_Cons)
  next
    case False
    then show ?thesis using e path_exists_no_fuel [of "path_of socket" h]
      by (cases r) (auto simp: bindp_def wait_socket.simps(2) [of "Suc n"] simp del: wait_socket.simps lit_Cons)
  qed
qed

lemma wait_socket_found:
  "wait_socket n socket deadline h = (Inr (), h') \<Longrightarrow>
     \<exists>h0. path_exists (path_of socket) h0 = (Inr True, h')"
proof (induction n arbitrary: h)
  case (Suc n)
  obtain r h1 where e: "path_exists (path_of socket) h = (r, h1)" by fastforce
  with Suc show ?case
    by (cases r) (auto simp: bindp_def sleep_ms_def split: if_splits simp del: lit_Cons)
qed simp

lemma wait_socket_gives_up:
  "wait_socket n socket deadline h = (Inl (NbdkitError m), h') \<Longrightarrow> deadline \<le> h_clock h'"
proof (induction n arbitrary: h)
  case (Suc n)
  obtain r h1 where e: "path_exists (path_of socket) h = (r, h1)" by fastforce
  have "r \<noteq> Inl (NbdkitError x)" for x
    using e by (auto simp: path_exists_def test_node_def catchp_def bindp_def stat_node_def syscall_def Let_def absent_def
      split: option.splits sum.splits prod.splits if_splits)
  with e Suc show ?case
    by (cases r) (auto simp: bindp_def sleep_ms_def split: if_splits simp del: lit_Cons)
qed simp

lemma is_file_clock: "is_file p h = (r, h') \<Longrightarrow> h_clock h' = h_clock h \<and> h_run h' = h_run h"
  by (auto simp: is_file_def test_node_def catchp_def bindp_def stat_node_def syscall_def Let_def
      split: option.splits sum.splits prod.splits if_splits)

lemma is_file_errors: "is_file p h = (Inl e, h') \<Longrightarrow> \<exists>n. e = OSError n"
  by (auto simp: is_file_def test_node_def catchp_def bindp_def stat_node_def syscall_def Let_def
      split: option.splits sum.splits prod.splits if_splits)

lemma nbdkit_start_outcome:
  assumes "nbdkit_start nm image_size state foreground h = (r, h')"
    and "\<forall>n c t e. fst (h_run h n c t) = Inl e \<longrightarrow> (\<exists>k. e = OSError k)"
  shows "r \<noteq> Inl OutOfFuel"
    and "r = Inr () \<Longrightarrow> \<exists>h0. path_exists (path_of (nm_socket_path nm)) h0 = (Inr True, h')"
    and "r = Inl (NbdkitError (lit ''nbdkit socket did not appear: '' @ nm_socket_path nm)) \<Longrightarrow>
      h_clock h + 10000 \<le> h_clock h'"
proof -
  let ?check = "if path_of state \<noteq> path_of (nm_state_path nm) then ret True
            else bindp (is_file (path_of state)) (\<lambda>f. ret (\<not> f))"
  let ?cmd = "[lit ''systemctl'', lit ''start'', lit ''--no-block'', nm_unit_name nm]"
  obtain c h1 where c: "?check h = (c, h1)" by fastforce
  have h1: "h_clock h1 = h_clock h \<and> h_run h1 = h_run h \<and> (\<forall>e. c = Inl e \<longrightarrow> (\<exists>n. e = OSError n))"
    using c is_file_clock [of "path_of state" h] is_file_errors [of "path_of state" h]
    by (auto simp: bindp_def split: if_splits prod.splits sum.splits)
  have "r \<noteq> Inl OutOfFuel \<and>
    (r = Inr () \<longrightarrow> (\<exists>h0. path_exists (path_of (nm_socket_path nm)) h0 = (Inr True, h'))) \<and>
    (r = Inl (NbdkitError (lit ''nbdkit socket did not appear: '' @ nm_socket_path nm)) \<longrightarrow>
       h_clock h + 10000 \<le> h_clock h')"
  proof (cases "c = Inr False \<and> \<not> foreground")
    case False
    have differ: "lit ''mapper state must exist at '' @ x \<noteq> lit ''nbdkit socket did not appear: '' @ y"
      "lit ''foreground nbdkit requires direct deployment, not systemd unit'' \<noteq> lit ''nbdkit socket did not appear: '' @ y"
      for x y by simp_all
    consider e where "c = Inl e" | "c = Inr True" | "c = Inr False" "foreground" using False by (cases c) auto
    then show ?thesis
    proof cases
      case 1
      then show ?thesis using assms(1) c h1 by (auto simp: nbdkit_start_def bindp_def simp del: lit_Cons)
    next
      case 2
      then have "r = Inl (NbdkitError (lit ''mapper state must exist at '' @ nm_state_path nm @ lit '' before systemd start''))"
        using assms(1) c by (simp add: nbdkit_start_def bindp_def del: lit_Cons)
      then show ?thesis using differ(1) by simp
    next
      case 3
      then have "r = Inl (NbdkitError (lit ''foreground nbdkit requires direct deployment, not systemd unit''))"
        using assms(1) c by (simp add: nbdkit_start_def bindp_def del: lit_Cons)
      then show ?thesis using differ(2) by simp
    qed
  next
    case True
    obtain q h2 where q: "run_command ?cmd h1 = (q, h2)" by fastforce
    have h2: "h_clock h2 = h_clock h" "\<And>e. q = Inl e \<Longrightarrow> \<exists>k. e = OSError k"
      using q h1 assms(2) by (auto simp: run_command_def split: prod.splits) (metis fst_conv)
    show ?thesis
    proof (cases q)
      case (Inl e)
      then show ?thesis using assms(1) c True q h2(2) by (auto simp: nbdkit_start_def bindp_def simp del: lit_Cons)
    next
      case (Inr x)
      have w: "wait_socket (Suc 200) (nm_socket_path nm) (h_clock h + 10000) h2 = (r, h')"
        using assms(1) c True q Inr h2(1)
        by (simp add: nbdkit_start_def bindp_def del: wait_socket.simps lit_Cons)
      have "r \<noteq> Inl OutOfFuel"
        using wait_socket_ends [of "h_clock h + 10000" h2 200 "nm_socket_path nm"] w h2(1)
        by (simp del: wait_socket.simps)
      then show ?thesis
        using wait_socket_found w wait_socket_gives_up [of "Suc 200"] by (metis w)
    qed
  qed
  then show "r \<noteq> Inl OutOfFuel"
    "r = Inr () \<Longrightarrow> \<exists>h0. path_exists (path_of (nm_socket_path nm)) h0 = (Inr True, h')"
    "r = Inl (NbdkitError (lit ''nbdkit socket did not appear: '' @ nm_socket_path nm)) \<Longrightarrow>
      h_clock h + 10000 \<le> h_clock h'" by blast+
qed

end
