(* ===== verification/HostLogic.thy ===== *)
theory HostLogic
  imports Host
begin

text \<open>
  The judgements on operations of the host, each closed under sequencing and handlers so
  that it is derived from the shape of a program: \<open>keeps_machine\<close> leaves the parameters of
  the host alone; \<open>queries\<close> change nothing but the count of
  calls, and answer the same whenever they are asked on a host without faults;
  \<open>writes_in P\<close> only writes texts that satisfy \<open>P\<close>.
\<close>

lemma bindp_assoc: "bindp (bindp m f) g = bindp m (\<lambda>x. bindp (f x) g)"
  by (rule ext) (auto simp: bindp_def split: prod.split sum.split)

named_theorems host_intros \<open>judgements on programs that run on the host\<close>

section \<open>Texts written\<close>

definition writes_in :: "(path \<times> pystr \<Rightarrow> bool) \<Rightarrow> (host, 'a) prog \<Rightarrow> bool" where
  "writes_in P m \<longleftrightarrow> (\<forall>h. \<exists>new. h_writes (snd (m h)) = new @ h_writes h \<and> list_all P new)"

lemma writes_inE:
  assumes "writes_in P m" "m h = (r, h')"
  obtains new where "h_writes h' = new @ h_writes h" "list_all P new"
  using assms unfolding writes_in_def by (metis snd_conv)

lemma writes_in_same:
  assumes "\<And>h. h_writes (snd (m h)) = h_writes h"
  shows "writes_in P m"
  using assms by (auto simp: writes_in_def)

lemma writes_in_mono: "writes_in P m \<Longrightarrow> (\<And>w. P w \<Longrightarrow> Q w) \<Longrightarrow> writes_in Q m"
  unfolding writes_in_def by (meson list.pred_mono_strong)

lemma writes_in_ret [host_intros]: "writes_in P (ret x)"
  by (rule writes_in_same) simp

lemma writes_in_raise [host_intros]: "writes_in P (raise_p e)"
  by (rule writes_in_same) simp

lemma writes_in_lift [host_intros]: "writes_in P (lift_r x)"
  by (rule writes_in_same) simp

lemma writes_in_getp [host_intros]: "writes_in P getp"
  by (rule writes_in_same) simp

lemma writes_in_bindp [host_intros]:
  assumes "writes_in P m" "\<And>x. writes_in P (f x)"
  shows "writes_in P (bindp m f)"
  unfolding writes_in_def
proof
  fix h
  obtain r h1 where m: "m h = (r, h1)" by fastforce
  obtain new where n: "h_writes h1 = new @ h_writes h" "list_all P new" by (rule writes_inE [OF assms(1) m])
  show "\<exists>new. h_writes (snd (bindp m f h)) = new @ h_writes h \<and> list_all P new"
  proof (cases r)
    case (Inl e)
    then show ?thesis using m n by (auto simp: bindp_def)
  next
    case (Inr x)
    obtain r2 h2 where f: "f x h1 = (r2, h2)" by fastforce
    obtain new2 where "h_writes h2 = new2 @ h_writes h1" "list_all P new2" by (rule writes_inE [OF assms(2) f])
    then show ?thesis using m n Inr f by (auto simp: bindp_def intro!: exI [of _ "new2 @ new"])
  qed
qed

lemma writes_in_catchp [host_intros]:
  assumes "writes_in P m" "\<And>e. writes_in P (f e)"
  shows "writes_in P (catchp m f)"
  unfolding writes_in_def
proof
  fix h
  obtain r h1 where m: "m h = (r, h1)" by fastforce
  obtain new where n: "h_writes h1 = new @ h_writes h" "list_all P new" by (rule writes_inE [OF assms(1) m])
  show "\<exists>new. h_writes (snd (catchp m f h)) = new @ h_writes h \<and> list_all P new"
  proof (cases r)
    case (Inr x)
    then show ?thesis using m n by (auto simp: catchp_def)
  next
    case (Inl x)
    obtain r2 h2 where f: "f x h1 = (r2, h2)" by fastforce
    obtain new2 where "h_writes h2 = new2 @ h_writes h1" "list_all P new2" by (rule writes_inE [OF assms(2) f])
    then show ?thesis using m n Inl f by (auto simp: catchp_def intro!: exI [of _ "new2 @ new"])
  qed
qed

lemma writes_in_if [host_intros]: "writes_in P a \<Longrightarrow> writes_in P b \<Longrightarrow> writes_in P (if c then a else b)"
  by simp

lemma writes_in_option [host_intros]:
  "writes_in P a \<Longrightarrow> (\<And>x. writes_in P (b x)) \<Longrightarrow> writes_in P (case z of None \<Rightarrow> a | Some x \<Rightarrow> b x)"
  by (cases z) simp_all

lemma writes_in_on_os_error [host_intros]:
  "writes_in P m \<Longrightarrow> (\<And>n. writes_in P (f n)) \<Longrightarrow> writes_in P (on_os_error m f)"
  unfolding on_os_error_def
  by (rule writes_in_catchp) (auto split: py_error.split intro: writes_in_raise)

lemma writes_in_andp [host_intros]: "writes_in P a \<Longrightarrow> writes_in P b \<Longrightarrow> writes_in P (andp a b)"
  unfolding andp_def by (intro host_intros)

lemma writes_in_mapp [host_intros]: "(\<And>x. writes_in P (f x)) \<Longrightarrow> writes_in P (mapp f xs)"
  by (induction xs) (auto intro!: host_intros)

lemma writes_in_filterp [host_intros]: "(\<And>x. writes_in P (f x)) \<Longrightarrow> writes_in P (filterp f xs)"
  by (induction xs) (auto intro!: host_intros)

lemma writes_in_iterp: "(\<And>x. x \<in> set xs \<Longrightarrow> writes_in P (f x)) \<Longrightarrow> writes_in P (iterp f xs)"
  by (induction xs) (auto intro!: host_intros)

lemma writes_in_syscall:
  assumes "\<And>h x h'. f h = Inr (x, h') \<Longrightarrow> h_writes h' = h_writes h"
  shows "writes_in P (syscall op p f)"
  by (rule writes_in_same) (auto simp: syscall_def Let_def split: option.splits sum.splits prod.splits dest!: assms)

lemma writes_in_stat [host_intros]: "writes_in P (stat_node p)"
  unfolding stat_node_def by (rule writes_in_syscall) (auto split: sum.splits prod.splits)

lemma writes_in_test [host_intros]: "writes_in P (test_node f p)"
  unfolding test_node_def by (intro host_intros)

lemma writes_in_exists [host_intros]: "writes_in P (path_exists p)" "writes_in P (is_dir p)" "writes_in P (is_file p)"
  by (simp_all add: path_exists_def is_dir_def is_file_def writes_in_test)

lemma writes_in_symlink [host_intros]: "writes_in P (is_symlink p)"
  unfolding is_symlink_def by (intro host_intros writes_in_syscall) (auto split: option.splits)

lemma writes_in_read [host_intros]: "writes_in P (read_text p)"
  unfolding read_text_def by (rule writes_in_syscall) (auto split: sum.splits prod.splits fnode.splits)

lemma writes_in_list [host_intros]: "writes_in P (list_dir p)"
  unfolding list_dir_def by (rule writes_in_syscall) (auto split: sum.splits prod.splits fnode.splits)

lemma writes_in_make_dir [host_intros]: "writes_in P (make_dir p)"
  unfolding make_dir_def by (rule writes_in_syscall) (auto split: sum.splits)

lemma writes_in_make_link [host_intros]: "writes_in P (make_link p q)"
  unfolding make_link_def by (rule writes_in_syscall) (auto split: if_splits)

lemma writes_in_unlink [host_intros]: "writes_in P (unlink p)"
  unfolding unlink_def by (rule writes_in_syscall) (auto split: option.splits fnode.splits if_splits)

lemma writes_in_remove_dir [host_intros]: "writes_in P (remove_dir p)"
  unfolding remove_dir_def by (rule writes_in_syscall) (auto split: option.splits fnode.splits if_splits)

lemma writes_in_sleep [host_intros]: "writes_in P (sleep_ms n)"
  by (rule writes_in_same) (simp add: sleep_ms_def)

lemma write_text_writes:
  "write_text p s h = (r, h') \<Longrightarrow> h_writes h' = (if r = Inr () then [(p, s)] else []) @ h_writes h"
  by (auto simp: write_text_def syscall_def Let_def split: option.splits sum.splits)

lemma writes_in_write [host_intros]: "P (p, s) \<Longrightarrow> writes_in P (write_text p s)"
  unfolding writes_in_def
proof
  fix h assume "P (p, s)"
  moreover obtain r h' where "write_text p s h = (r, h')" by fastforce
  ultimately show "\<exists>new. h_writes (snd (write_text p s h)) = new @ h_writes h \<and> list_all P new"
    using write_text_writes [of p s h r h'] by auto
qed

section \<open>Queries\<close>

definition steady :: "host \<Rightarrow> bool" where
  "steady h \<longleftrightarrow> (\<forall>n op p. h_fault h n op p = None)"

definition queries :: "(host, 'a) prog \<Rightarrow> bool" where
  "queries m \<longleftrightarrow> (\<forall>h n. steady h \<longrightarrow>
     (\<exists>k. m (h\<lparr>h_calls := n\<rparr>) = (fst (m h), h\<lparr>h_calls := k\<rparr>)))"

lemma queriesE:
  assumes "queries m" "steady h"
  obtains k where "m (h\<lparr>h_calls := n\<rparr>) = (fst (m h), h\<lparr>h_calls := k\<rparr>)"
  using assms unfolding queries_def by blast

lemma queries_run:
  assumes "queries m" "steady h"
  obtains k where "m h = (fst (m h), h\<lparr>h_calls := k\<rparr>)"
proof -
  obtain k where "m (h\<lparr>h_calls := h_calls h\<rparr>) = (fst (m h), h\<lparr>h_calls := k\<rparr>)"
    by (rule queriesE [OF assms])
  then show thesis using that by simp
qed

lemma steady_calls [simp]: "steady (h\<lparr>h_calls := n\<rparr>) = steady h"
  by (simp add: steady_def)

lemma queries_ret [host_intros]: "queries (ret x)"
  by (auto simp: queries_def)

lemma queries_raise [host_intros]: "queries (raise_p e)"
  by (auto simp: queries_def)

lemma queries_bindp [host_intros]:
  assumes "queries m" "\<And>x. queries (f x)"
  shows "queries (bindp m f)"
  unfolding queries_def
proof (intro allI impI)
  fix h n assume s: "steady h"
  obtain k0 where m0: "m h = (fst (m h), h\<lparr>h_calls := k0\<rparr>)" by (rule queries_run [OF assms(1) s])
  obtain k where m: "m (h\<lparr>h_calls := n\<rparr>) = (fst (m h), h\<lparr>h_calls := k\<rparr>)" by (rule queriesE [OF assms(1) s])
  show "\<exists>k. bindp m f (h\<lparr>h_calls := n\<rparr>) = (fst (bindp m f h), h\<lparr>h_calls := k\<rparr>)"
  proof (cases "fst (m h)")
    case (Inl e)
    then show ?thesis using m m0 by (auto simp: bindp_def split: prod.splits)
  next
    case (Inr x)
    obtain j where j: "f x (h\<lparr>h_calls := k\<rparr>) = (fst (f x h), h\<lparr>h_calls := j\<rparr>)"
      by (rule queriesE [OF assms(2) s])
    obtain j0 where j0: "f x (h\<lparr>h_calls := k0\<rparr>) = (fst (f x h), h\<lparr>h_calls := j0\<rparr>)"
      by (rule queriesE [OF assms(2) s])
    have "bindp m f h = f x (h\<lparr>h_calls := k0\<rparr>)" using m0 Inr by (simp add: bindp_def)
    moreover have "bindp m f (h\<lparr>h_calls := n\<rparr>) = f x (h\<lparr>h_calls := k\<rparr>)" using m Inr by (simp add: bindp_def)
    ultimately show ?thesis using j j0 by auto
  qed
qed

lemma queries_catchp [host_intros]:
  assumes "queries m" "\<And>e. queries (f e)"
  shows "queries (catchp m f)"
  unfolding queries_def
proof (intro allI impI)
  fix h n assume s: "steady h"
  obtain k0 where m0: "m h = (fst (m h), h\<lparr>h_calls := k0\<rparr>)" by (rule queries_run [OF assms(1) s])
  obtain k where m: "m (h\<lparr>h_calls := n\<rparr>) = (fst (m h), h\<lparr>h_calls := k\<rparr>)" by (rule queriesE [OF assms(1) s])
  show "\<exists>k. catchp m f (h\<lparr>h_calls := n\<rparr>) = (fst (catchp m f h), h\<lparr>h_calls := k\<rparr>)"
  proof (cases "fst (m h)")
    case (Inr x)
    then show ?thesis using m m0 by (auto simp: catchp_def split: prod.splits)
  next
    case (Inl x)
    obtain j where j: "f x (h\<lparr>h_calls := k\<rparr>) = (fst (f x h), h\<lparr>h_calls := j\<rparr>)"
      by (rule queriesE [OF assms(2) s])
    obtain j0 where j0: "f x (h\<lparr>h_calls := k0\<rparr>) = (fst (f x h), h\<lparr>h_calls := j0\<rparr>)"
      by (rule queriesE [OF assms(2) s])
    have "catchp m f h = f x (h\<lparr>h_calls := k0\<rparr>)" using m0 Inl by (simp add: catchp_def)
    moreover have "catchp m f (h\<lparr>h_calls := n\<rparr>) = f x (h\<lparr>h_calls := k\<rparr>)" using m Inl by (simp add: catchp_def)
    ultimately show ?thesis using j j0 by auto
  qed
qed

lemma queries_if [host_intros]: "queries a \<Longrightarrow> queries b \<Longrightarrow> queries (if c then a else b)"
  by simp

lemma queries_option [host_intros]:
  "queries a \<Longrightarrow> (\<And>x. queries (b x)) \<Longrightarrow> queries (case z of None \<Rightarrow> a | Some x \<Rightarrow> b x)"
  by (cases z) simp_all

lemma queries_on_os_error [host_intros]:
  "queries m \<Longrightarrow> (\<And>n. queries (f n)) \<Longrightarrow> queries (on_os_error m f)"
  unfolding on_os_error_def
  by (rule queries_catchp) (auto split: py_error.split intro: queries_raise)

lemma queries_andp [host_intros]: "queries a \<Longrightarrow> queries b \<Longrightarrow> queries (andp a b)"
  unfolding andp_def by (intro host_intros)

lemma queries_syscall:
  assumes "\<And>h n. f (h\<lparr>h_calls := n\<rparr>) = map_sum id (\<lambda>(x, _). (x, h\<lparr>h_calls := n\<rparr>)) (f h)"
  shows "queries (syscall op p f)"
  unfolding queries_def
proof (intro allI impI)
  fix h n assume "steady h"
  then have "h_fault h m op p = None" for m unfolding steady_def by blast
  then show "\<exists>k. syscall op p f (h\<lparr>h_calls := n\<rparr>) = (fst (syscall op p f h), h\<lparr>h_calls := k\<rparr>)"
    using assms [where h = h and n = "Suc n"] assms [where h = h and n = "Suc (h_calls h)"]
    by (cases "f h") (auto simp: syscall_def Let_def)
qed

lemma queries_stat [host_intros]: "queries (stat_node p)"
  unfolding stat_node_def by (rule queries_syscall) (auto split: sum.splits prod.splits)

lemma queries_test [host_intros]: "queries (test_node f p)"
  unfolding test_node_def by (intro host_intros)

lemma queries_exists [host_intros]: "queries (path_exists p)" "queries (is_dir p)" "queries (is_file p)"
  by (simp_all add: path_exists_def is_dir_def is_file_def queries_test)

lemma queries_read [host_intros]: "queries (read_text p)"
  unfolding read_text_def by (rule queries_syscall) (auto split: sum.splits prod.splits fnode.splits)

lemma queries_list [host_intros]: "queries (list_dir p)"
  unfolding list_dir_def by (rule queries_syscall) (auto split: sum.splits prod.splits fnode.splits)

definition answer :: "(host, 'a) prog \<Rightarrow> host \<Rightarrow> 'a option" where
  \<comment> \<open>what a program answers on a host, unless it raises\<close>
  "answer m h = (case fst (m h) of Inl _ \<Rightarrow> None | Inr x \<Rightarrow> Some x)"

lemma filterp_answer:
  assumes "\<And>x. queries (f x)" "steady h" "filterp f xs (h\<lparr>h_calls := n\<rparr>) = (Inr ys, h')"
  shows "ys = filter (\<lambda>x. answer (f x) h = Some True) xs \<and> (\<exists>k. h' = h\<lparr>h_calls := k\<rparr>)"
  using assms(3)
proof (induction xs arbitrary: n ys h')
  case (Cons x xs)
  obtain k where k: "f x (h\<lparr>h_calls := n\<rparr>) = (fst (f x h), h\<lparr>h_calls := k\<rparr>)"
    by (rule queriesE [OF assms(1,2)])
  with Cons.prems obtain b zs where b: "fst (f x h) = Inr b" "filterp f xs (h\<lparr>h_calls := k\<rparr>) = (Inr zs, h')"
      "ys = (if b then x # zs else zs)"
    by (auto simp: bindp_def split: sum.splits prod.splits)
  from Cons.IH [OF b(2)] b(1,3) show ?case by (simp add: answer_def)
qed auto

lemma mapp_answer:
  assumes "\<And>x. queries (f x)" "steady h" "mapp f xs (h\<lparr>h_calls := n\<rparr>) = (Inr ys, h')"
  shows "list_all2 (\<lambda>x y. answer (f x) h = Some y) xs ys"
  using assms(3)
proof (induction xs arbitrary: n ys h')
  case (Cons x xs)
  obtain k where k: "f x (h\<lparr>h_calls := n\<rparr>) = (fst (f x h), h\<lparr>h_calls := k\<rparr>)"
    by (rule queriesE [OF assms(1,2)])
  with Cons.prems obtain y zs where b: "fst (f x h) = Inr y" "mapp f xs (h\<lparr>h_calls := k\<rparr>) = (Inr zs, h')"
      "ys = y # zs"
    by (auto simp: bindp_def split: sum.splits prod.splits)
  from Cons.IH [OF b(2)] b(1,3) show ?case by (simp add: answer_def)
qed auto

section \<open>The parameters of the host\<close>

definition machine where
  "machine h = (h_fault h, h_virtual h, h_attributes h, h_stat h, h_linux h, h_group h, h_run h, h_strerror h)"

definition keeps_machine :: "(host, 'a) prog \<Rightarrow> bool" where
  "keeps_machine m \<longleftrightarrow> (\<forall>h. machine (snd (m h)) = machine h)"

lemma keeps_machineD: "keeps_machine m \<Longrightarrow> m h = (r, h') \<Longrightarrow> machine h' = machine h"
  unfolding keeps_machine_def by (metis snd_conv)

lemma machine_steady: "machine h' = machine h \<Longrightarrow> steady h' = steady h"
  by (simp add: machine_def steady_def)

lemma keeps_machine_unit [host_intros]:
  "keeps_machine (ret x)" "keeps_machine (raise_p e)" "keeps_machine (lift_r r)" "keeps_machine getp"
  by (simp_all add: keeps_machine_def)

lemma keeps_machine_bindp [host_intros]:
  "keeps_machine m \<Longrightarrow> (\<And>x. keeps_machine (f x)) \<Longrightarrow> keeps_machine (bindp m f)"
  unfolding keeps_machine_def bindp_def by (auto split: prod.split sum.split) (metis snd_conv)+

lemma keeps_machine_catchp [host_intros]:
  "keeps_machine m \<Longrightarrow> (\<And>x. keeps_machine (f x)) \<Longrightarrow> keeps_machine (catchp m f)"
  unfolding keeps_machine_def catchp_def by (auto split: prod.split sum.split) (metis snd_conv)+

lemma keeps_machine_if [host_intros]: "keeps_machine a \<Longrightarrow> keeps_machine b \<Longrightarrow> keeps_machine (if c then a else b)"
  by simp

lemma keeps_machine_option [host_intros]:
  "keeps_machine a \<Longrightarrow> (\<And>x. keeps_machine (b x)) \<Longrightarrow> keeps_machine (case z of None \<Rightarrow> a | Some x \<Rightarrow> b x)"
  by (cases z) simp_all

lemma keeps_machine_on_os_error [host_intros]:
  "keeps_machine m \<Longrightarrow> (\<And>n. keeps_machine (f n)) \<Longrightarrow> keeps_machine (on_os_error m f)"
  unfolding on_os_error_def
  by (rule keeps_machine_catchp) (auto split: py_error.split intro: keeps_machine_unit)

lemma keeps_machine_andp [host_intros]: "keeps_machine a \<Longrightarrow> keeps_machine b \<Longrightarrow> keeps_machine (andp a b)"
  unfolding andp_def by (intro host_intros)

lemma keeps_machine_lists [host_intros]:
  "(\<And>x. keeps_machine (f x)) \<Longrightarrow> keeps_machine (mapp f xs)"
  "(\<And>x. keeps_machine (g x)) \<Longrightarrow> keeps_machine (filterp g xs)"
  "(\<And>x. keeps_machine (i x)) \<Longrightarrow> keeps_machine (iterp i xs)"
  by (induction xs) (auto intro!: host_intros)

lemma keeps_machine_syscall:
  assumes "\<And>h x h'. f h = Inr (x, h') \<Longrightarrow> machine h' = machine h"
  shows "keeps_machine (syscall op p f)"
proof -
  have "machine (h\<lparr>h_calls := n\<rparr>) = machine h" for h n by (simp add: machine_def)
  with assms show ?thesis
    unfolding keeps_machine_def by (fastforce simp: syscall_def Let_def split: option.splits sum.splits prod.splits)
qed

lemma keeps_machine_stat [host_intros]: "keeps_machine (stat_node p)"
  unfolding stat_node_def by (rule keeps_machine_syscall) (auto split: sum.splits prod.splits)

lemma keeps_machine_tests [host_intros]:
  "keeps_machine (test_node f p)" "keeps_machine (path_exists p)" "keeps_machine (is_dir p)" "keeps_machine (is_file p)"
  unfolding path_exists_def is_dir_def is_file_def test_node_def by (intro host_intros)+

lemma keeps_machine_calls [host_intros]:
  "keeps_machine (is_symlink p)" "keeps_machine (read_text p)" "keeps_machine (list_dir p)"
  "keeps_machine (write_text p s)" "keeps_machine (write_bytes p bs)" "keeps_machine (make_dir p)"
  "keeps_machine (make_link p q)" "keeps_machine (unlink p)" "keeps_machine (remove_dir p)"
  "keeps_machine (chown_group p gid)" "keeps_machine (chmod p mode)" "keeps_machine (replace_file p q)"
  unfolding is_symlink_def read_text_def list_dir_def write_text_def write_bytes_def make_dir_def make_link_def
    unlink_def remove_dir_def chown_group_def chmod_def replace_file_def
  by (intro host_intros keeps_machine_syscall;
      auto simp: machine_def split: sum.splits prod.splits fnode.splits option.splits if_splits)+

lemma keeps_machine_commands [host_intros]: "keeps_machine (run_command cmd)" "keeps_machine (sleep_ms n)"
  by (auto simp: keeps_machine_def run_command_def sleep_ms_def machine_def split: prod.split)

end
