(* ===== verification/GadgetManager.thy ===== *)
theory GadgetManager
  imports HostLogic
begin

text \<open>
  \<open>gadget_manager.py\<close>: the USB mass-storage gadget in ConfigFS. \<open>lower\<close> is \<open>str.lower\<close>,
  \<open>fresh\<close> the hexadecimal text of a new UUID, \<open>limit\<close> the interpreter's recursion limit.
\<close>

record gadget =
  gd_root :: path
  gd_udc_root :: path
  gd_serial_path :: path

definition GADGET_NAME :: pystr where "GADGET_NAME = lit ''remotepfs''"
definition VENDOR_ID :: pystr where "VENDOR_ID = lit ''0x0781''"
definition PRODUCT_ID :: pystr where "PRODUCT_ID = lit ''0x55ab''"

definition new_gadget :: "pystr \<Rightarrow> pystr \<Rightarrow> pystr \<Rightarrow> gadget" where
  "new_gadget configfs_root udc_root serial_path =
     \<lparr>gd_root = path_join (path_of configfs_root) GADGET_NAME, gd_udc_root = path_of udc_root,
      gd_serial_path = path_of serial_path\<rparr>"

definition at :: "path \<Rightarrow> string \<Rightarrow> path" where
  \<comment> \<open>\<open>path / "..."\<close> for a literal\<close>
  "at p s = path_join p (lit s)"

definition udc_attr :: "gadget \<Rightarrow> path" where "udc_attr g = at (gd_root g) ''UDC''"
definition function_dir :: "gadget \<Rightarrow> path" where "function_dir g = at (gd_root g) ''functions/mass_storage.0''"
definition lun_dir :: "gadget \<Rightarrow> path" where "lun_dir g = at (function_dir g) ''lun.0''"
definition config_dir :: "gadget \<Rightarrow> path" where "config_dir g = at (gd_root g) ''configs/c.1''"

definition gadget_write :: "path \<Rightarrow> pystr \<Rightarrow> (host, unit) prog" where
  "gadget_write p val = on_os_error (write_text p val) (\<lambda>n.
     bindp getp (\<lambda>h. raise_p (GadgetError
       (lit ''cannot write '' @ path_str p @ lit '': '' @ os_error_text h n p))))"

definition serial :: "gadget \<Rightarrow> pystr \<Rightarrow> (host, pystr) prog" where
  "serial g fresh =
     bindp (on_os_error (bindp (read_text (gd_serial_path g)) (\<lambda>s. ret (strip s))) (\<lambda>_. ret [])) (\<lambda>val.
     if val \<noteq> [] then ret val
     else
       (let val = lit ''REMOTEPFS-'' @ map ascii_upper (take 12 fresh)
        in bindp (on_os_error
             (bindp (make_dir (parent (gd_serial_path g))) (\<lambda>_. write_text (gd_serial_path g) (val @ [10])))
             (\<lambda>_. ret ())) (\<lambda>_. ret val)))"

section \<open>Choosing a controller\<close>

fun first_role :: "(pystr \<Rightarrow> pystr) \<Rightarrow> path list \<Rightarrow> (host, pystr option) prog" where
  "first_role lower [] = ret None"
| "first_role lower (p # ps) =
     on_os_error (bindp (read_text p) (\<lambda>s. ret (Some (lower (strip s))))) (\<lambda>_. first_role lower ps)"

definition is_device_capable :: "(pystr \<Rightarrow> pystr) \<Rightarrow> path \<Rightarrow> (host, bool) prog" where
  "is_device_capable lower udc =
     bindp (first_role lower [at udc ''device/role'', at udc ''device/otg_role'', at udc ''role'']) (\<lambda>role.
     case role of
       Some r \<Rightarrow> ret (r \<in> {lit ''device'', lit ''peripheral'', lit ''gadget''})
     | None \<Rightarrow> path_exists (at udc ''state''))"

definition rank_of_speed :: "pystr \<Rightarrow> int" where
  "rank_of_speed val =
     (let val = map (\<lambda>c. if c = 45 then 32 else c) val
      in case map_of [(lit ''low speed'', 1), (lit ''full speed'', 2), (lit ''high speed'', 3),
           (lit ''wireless'', 3), (lit ''super speed'', 4), (lit ''super speed plus'', 5)] val of
           Some r \<Rightarrow> r | None \<Rightarrow> 0)"

fun speed_rank_from :: "(pystr \<Rightarrow> pystr) \<Rightarrow> path list \<Rightarrow> (host, int) prog" where
  "speed_rank_from lower [] = ret 0"
| "speed_rank_from lower (p # ps) =
     bindp (on_os_error (bindp (read_text p) (\<lambda>s. ret (lower (strip s)))) (\<lambda>_. ret [])) (\<lambda>val.
     if val \<noteq> [] then ret (rank_of_speed val) else speed_rank_from lower ps)"

definition speed_rank :: "(pystr \<Rightarrow> pystr) \<Rightarrow> path \<Rightarrow> (host, int) prog" where
  "speed_rank lower udc = speed_rank_from lower [at udc ''maximum_speed'', at udc ''current_speed'']"

definition select_auto :: "(pystr \<Rightarrow> pystr) \<Rightarrow> gadget \<Rightarrow> (host, pystr) prog" where
  "select_auto lower g =
     bindp (on_os_error
       (bindp (list_dir (gd_udc_root g)) (filterp (\<lambda>entry. andp (is_dir entry) (is_device_capable lower entry))))
       (\<lambda>n. bindp getp (\<lambda>h. raise_p (GadgetError
          (lit ''cannot inspect USB Device Controllers: '' @ os_error_text h n (gd_udc_root g)))))) (\<lambda>candidates.
     if candidates = [] then raise_p (GadgetError (lit ''no device-capable USB Device Controller found''))
     else bindp (mapp (\<lambda>entry. bindp (speed_rank lower entry) (\<lambda>rank. ret ((- rank, path_name entry), entry))) candidates)
       (\<lambda>keyed. ret (path_name (snd (hd (sort_key fst keyed))))))"

definition select_udc :: "(pystr \<Rightarrow> pystr) \<Rightarrow> gadget \<Rightarrow> pystr option \<Rightarrow> (host, pystr) prog" where
  "select_udc lower g requested =
     (case requested of
        None \<Rightarrow> select_auto lower g
      | Some r \<Rightarrow>
          if r = [] \<or> r = lit ''auto'' then select_auto lower g
          else (let candidate = path_join (gd_udc_root g) r
                in bindp (andp (is_dir candidate) (is_device_capable lower candidate)) (\<lambda>usable.
                   if usable then ret r
                   else raise_p (GadgetError (lit ''requested UDC is not device-capable: '' @ r)))))"

definition first_udc :: "gadget \<Rightarrow> (host, pystr option) prog" where
  "first_udc g = on_os_error
     (bindp (list_dir (gd_udc_root g)) (\<lambda>entries. ret (find (\<lambda>n. n \<noteq> []) (map path_name (sort_key snd entries)))))
     (\<lambda>_. ret None)"

section \<open>Tearing down\<close>

definition CONFIGFS_PREFIX :: pystr where "CONFIGFS_PREFIX = lit ''/sys/kernel/config/usb_gadget/''"

definition stale_entries :: "path \<Rightarrow> (host, path list option) prog" where
  "stale_entries directory =
     on_os_error (bindp (list_dir directory) (\<lambda>es. ret (Some es)))
       (\<lambda>e. if e = ENOENT then ret None
            else bindp getp (\<lambda>h. raise_p (GadgetError
              (lit ''cannot inspect stale gadget tree '' @ path_str directory @ lit '': '' @ os_error_text h e directory))))"

definition remove_entry :: "(path \<Rightarrow> (host, unit) prog) \<Rightarrow> path \<Rightarrow> (host, unit) prog" where
  \<comment> \<open>the body of the loop, with the recursive call as its argument\<close>
  "remove_entry recurse entry =
     bindp (is_symlink entry) (\<lambda>link.
     if link
     then on_os_error (unlink entry) (\<lambda>e. bindp getp (\<lambda>h. raise_p (GadgetError
            (lit ''cannot unlink stale gadget link '' @ path_str entry @ lit '': '' @ os_error_text h e entry))))
     else bindp (is_dir entry) (\<lambda>dir.
       if dir then recurse entry
       else bindp (is_file entry) (\<lambda>file.
         if file then on_os_error (unlink entry) (\<lambda>_. ret ()) else ret ())))"

definition remove_stale_dir :: "path \<Rightarrow> (host, unit) prog" where
  "remove_stale_dir directory =
     on_os_error (remove_dir directory) (\<lambda>e.
       if e = ENOENT then ret ()
       else if e = EPERM \<or> e = EACCES
       then (if prefix CONFIGFS_PREFIX (path_str directory) then ret () else raise_p (OSError e))
       else bindp getp (\<lambda>h. raise_p (GadgetError
         (lit ''cannot remove stale gadget directory '' @ path_str directory @ lit '': ''
           @ os_error_text h e directory))))"

fun remove_tree :: "nat \<Rightarrow> path \<Rightarrow> (host, unit) prog" where
  \<comment> \<open>the first argument is what is left of the interpreter's recursion limit\<close>
  "remove_tree 0 directory = raise_p RecursionError"
| "remove_tree (Suc n) directory =
     bindp (stale_entries directory) (\<lambda>listed.
     case listed of
       None \<Rightarrow> ret ()
     | Some entries \<Rightarrow>
         bindp (iterp (remove_entry (remove_tree n)) entries) (\<lambda>_. remove_stale_dir directory))"

definition unbind :: "nat \<Rightarrow> gadget \<Rightarrow> (host, unit) prog" where
  "unbind limit g =
     bindp (path_exists (gd_root g)) (\<lambda>present. if \<not> present then ret () else
     bindp (path_exists (udc_attr g)) (\<lambda>udc. bindp (if udc then gadget_write (udc_attr g) [] else ret ()) (\<lambda>_.
     bindp (path_exists (at (lun_dir g) ''file'')) (\<lambda>lun_file.
     bindp (if lun_file then gadget_write (at (lun_dir g) ''file'') [] else ret ()) (\<lambda>_.
     bindp (is_symlink (at (config_dir g) ''mass_storage.0'')) (\<lambda>link.
     bindp (if link then unlink (at (config_dir g) ''mass_storage.0'') else ret ()) (\<lambda>_.
     remove_tree limit (gd_root g))))))))"

section \<open>Binding\<close>

fun bind_udc :: "nat \<Rightarrow> gadget \<Rightarrow> pystr \<Rightarrow> (host, unit) prog" where
  \<comment> \<open>the retry loop, with the number of attempts left\<close>
  "bind_udc 0 g udc = raise_p (GadgetError (lit ''cannot bind UDC after retries: '' @ udc))"
| "bind_udc (Suc n) g udc = catchp (gadget_write (udc_attr g) udc) (\<lambda>e.
     case e of
       GadgetError msg \<Rightarrow>
         if \<not> contains (lit ''Errno 19'') msg then raise_p e
         else bindp (sleep_ms 1000) (\<lambda>_. bind_udc n g udc)
     | _ \<Rightarrow> raise_p e)"

definition gadget_strings :: "gadget \<Rightarrow> path" where "gadget_strings g = at (gd_root g) ''strings/0x409''"
definition config_strings :: "gadget \<Rightarrow> path" where "config_strings g = at (config_dir g) ''strings/0x409''"

definition write_all :: "(path \<times> string) list \<Rightarrow> (host, unit) prog" where
  "write_all = iterp (\<lambda>(p, s). gadget_write p (lit s))"

definition describe_gadget :: "gadget \<Rightarrow> pystr \<Rightarrow> (host, unit) prog" where
  \<comment> \<open>\<open>bind\<close> up to the read-only attribute of the LUN\<close>
  "describe_gadget g fresh =
     bindp (iterp make_dir [gadget_strings g, config_strings g, config_dir g, lun_dir g]) (\<lambda>_.
     bindp (gadget_write (at (gd_root g) ''idVendor'') VENDOR_ID) (\<lambda>_.
     bindp (gadget_write (at (gd_root g) ''idProduct'') PRODUCT_ID) (\<lambda>_.
     bindp (write_all [(at (gd_root g) ''bcdDevice'', ''0x0100''), (at (gd_root g) ''bcdUSB'', ''0x0320''),
       (at (gadget_strings g) ''manufacturer'', ''USB''), (at (gadget_strings g) ''product'', ''SanDisk 3.2Gen1'')]) (\<lambda>_.
     bindp (serial g fresh) (\<lambda>number.
     bindp (gadget_write (at (gadget_strings g) ''serialnumber'') number) (\<lambda>_.
     write_all [(at (config_dir g) ''MaxPower'', ''250''), (at (config_dir g) ''bmAttributes'', ''0x80''),
       (at (config_strings g) ''configuration'', ''SanDisk 3.2Gen1'')]))))))"

definition attach_medium :: "gadget \<Rightarrow> pystr \<Rightarrow> (host, unit) prog" where
  \<comment> \<open>\<open>bind\<close> from the attribute after \<open>ro\<close> up to the link\<close>
  "attach_medium g lun_file =
     bindp (write_all [(at (lun_dir g) ''nofua'', ''1''), (at (function_dir g) ''stall'', ''1'')]) (\<lambda>_.
     bindp (gadget_write (at (lun_dir g) ''file'') lun_file) (\<lambda>_.
     bindp (path_exists (at (config_dir g) ''mass_storage.0'')) (\<lambda>linked.
     if linked then ret () else make_link (function_dir g) (at (config_dir g) ''mass_storage.0''))))"

definition bind_gadget :: "(pystr \<Rightarrow> pystr) \<Rightarrow> pystr \<Rightarrow> nat \<Rightarrow> gadget \<Rightarrow> pystr \<Rightarrow> pystr option \<Rightarrow> (host, pystr) prog" where
  "bind_gadget lower fresh limit g lun_file udc =
     bindp (path_exists (gd_root g)) (\<lambda>present.
     bindp (if present then unbind limit g else ret ()) (\<lambda>_.
     bindp (select_udc lower g udc) (\<lambda>chosen.
     bindp (describe_gadget g fresh) (\<lambda>_.
     bindp (gadget_write (at (lun_dir g) ''ro'') (lit ''1'')) (\<lambda>_.
     bindp (attach_medium g lun_file) (\<lambda>_.
     bindp (bind_udc 10 g chosen) (\<lambda>_.
     ret chosen)))))))"

section \<open>Ejecting and inspecting\<close>

definition gadget_eject :: "gadget \<Rightarrow> (host, unit) prog" where
  "gadget_eject g = bindp (path_exists (at (lun_dir g) ''forced_eject'')) (\<lambda>present.
     if present then gadget_write (at (lun_dir g) ''forced_eject'') (lit ''1'') else ret ())"

record gadget_status =
  gs_udc_bound :: bool
  gs_udc_name :: "pystr option"
  gs_lun_file :: "pystr option"
  gs_lun_ro :: bool

definition some_text :: "pystr \<Rightarrow> pystr option" where
  \<comment> \<open>\<open>s or None\<close>\<close>
  "some_text s = (if s = [] then None else Some s)"

definition gadget_status_of :: "gadget \<Rightarrow> (host, gadget_status) prog" where
  "gadget_status_of g =
     bindp (on_os_error (bindp (read_text (udc_attr g)) (\<lambda>s. ret (strip s))) (\<lambda>_. ret [])) (\<lambda>udc.
     bindp (on_os_error (bindp (read_text (at (lun_dir g) ''file'')) (\<lambda>s. ret (some_text (strip s)))) (\<lambda>_. ret None))
       (\<lambda>lun_file.
     ret \<lparr>gs_udc_bound = udc \<noteq> [], gs_udc_name = some_text udc, gs_lun_file = lun_file, gs_lun_ro = True\<rparr>))"

end
