(* ===== verification/GadgetFacts.thy ===== *)
theory GadgetFacts
  imports GadgetManager
begin

text \<open>
  What the gadget manager guarantees: the host's controller never sees the LUN before it is
  read-only, the retries are bounded, and the automatic choice takes the fastest controller.
\<close>

section \<open>Paths of the gadget\<close>

lemma at_components: "at p s = (if prefix [47] (lit s) then path_of (lit s) else (fst p, snd p @ components (lit s)))"
  by (simp add: at_def path_join_def)

lemma gadget_paths:
  "udc_attr g = (fst (gd_root g), snd (gd_root g) @ [lit ''UDC''])"
  "function_dir g = (fst (gd_root g), snd (gd_root g) @ [lit ''functions'', lit ''mass_storage.0''])"
  "lun_dir g = (fst (gd_root g), snd (gd_root g) @ [lit ''functions'', lit ''mass_storage.0'', lit ''lun.0''])"
  "config_dir g = (fst (gd_root g), snd (gd_root g) @ [lit ''configs'', lit ''c.1''])"
  "gadget_strings g = (fst (gd_root g), snd (gd_root g) @ [lit ''strings'', lit ''0x409''])"
  "config_strings g = (fst (gd_root g), snd (gd_root g) @ [lit ''configs'', lit ''c.1'', lit ''strings'', lit ''0x409''])"
  by (simp_all add: udc_attr_def function_dir_def lun_dir_def config_dir_def gadget_strings_def
      config_strings_def at_components components_def)


section \<open>The medium is read-only before the host sees it\<close>

definition lun_ro :: "gadget \<Rightarrow> path" where "lun_ro g = at (lun_dir g) ''ro''"
definition lun_file :: "gadget \<Rightarrow> path" where "lun_file g = at (lun_dir g) ''file''"

fun exposed_ok :: "gadget \<Rightarrow> pystr \<Rightarrow> (path \<times> pystr) list \<Rightarrow> bool" where
  \<comment> \<open>in a log of writes, newest first, whoever is bound to a controller was read-only by then\<close>
  "exposed_ok g medium [] = True"
| "exposed_ok g medium ((p, val) # log) =
     ((p = udc_attr g \<and> val \<noteq> [] \<longrightarrow>
        map_of log (lun_ro g) = Some (lit ''1'') \<and> map_of log (lun_file g) = Some medium) \<and>
      exposed_ok g medium log)"

definition quiet :: "gadget \<Rightarrow> path \<times> pystr \<Rightarrow> bool" where
  "quiet g w \<longleftrightarrow> (fst w = udc_attr g \<longrightarrow> snd w = [])"

lemma exposed_ok_quiet: "list_all (quiet g) new \<Longrightarrow> exposed_ok g medium (new @ log) = exposed_ok g medium log"
  by (induction new) (auto simp: quiet_def)

lemma exposed_ok_bound:
  assumes "list_all (\<lambda>w. w = (udc_attr g, udc)) new" "exposed_ok g medium log"
    and "map_of log (lun_ro g) = Some (lit ''1'')" "map_of log (lun_file g) = Some medium"
  shows "exposed_ok g medium (new @ log)"
proof -
  have ne: "udc_attr g \<noteq> lun_ro g" "udc_attr g \<noteq> lun_file g"
    by (simp_all add: lun_ro_def lun_file_def gadget_paths at_components components_def)
  have "exposed_ok g medium (new @ log) \<and> map_of (new @ log) (lun_ro g) = Some (lit ''1'') \<and>
      map_of (new @ log) (lun_file g) = Some medium"
    using assms(1) by (induction new) (use assms(2-) ne in \<open>auto simp del: lit_Cons\<close>)
  then show ?thesis by blast
qed

lemma writes_in_gadget [host_intros]:
  assumes "P (p, val)"
  shows "writes_in P (gadget_write p val)"
  unfolding gadget_write_def by (intro host_intros assms)

lemma gadget_write_log:
  assumes "gadget_write p val h = (Inr u, h')"
  shows "h_writes h' = (p, val) # h_writes h"
  using assms write_text_writes [of p val h]
  by (auto simp: gadget_write_def on_os_error_def catchp_def bindp_def split: prod.splits sum.splits py_error.splits)

lemma writes_in_write_all [host_intros]:
  assumes "list_all (\<lambda>(p, s). P (p, lit s)) ws"
  shows "writes_in P (write_all ws)"
  unfolding write_all_def using assms
  by (induction ws) (auto intro!: host_intros simp del: lit_Cons)

lemma writes_in_serial: "P = quiet g \<Longrightarrow> gd_serial_path g \<noteq> udc_attr g \<Longrightarrow> writes_in P (serial g fresh)"
  unfolding serial_def Let_def by (intro host_intros) (simp_all add: quiet_def)

lemma writes_in_describe:
  assumes "gd_serial_path g \<noteq> udc_attr g"
  shows "writes_in (quiet g) (describe_gadget g fresh)"
  unfolding describe_gadget_def
  by (intro host_intros writes_in_serial writes_in_iterp refl assms)
    (simp_all add: quiet_def gadget_paths at_components components_def)

definition off_lun :: "gadget \<Rightarrow> path \<times> pystr \<Rightarrow> bool" where
  "off_lun g w \<longleftrightarrow> fst w \<noteq> udc_attr g \<and> fst w \<noteq> lun_ro g"

lemma attach_medium_log:
  assumes "attach_medium g medium h = (r, h')"
  obtains new where "h_writes h' = new @ h_writes h" "list_all (off_lun g) new"
    "r = Inr () \<longrightarrow> map_of new (lun_file g) = Some medium"
proof -
  have off: "off_lun g (at (lun_dir g) ''nofua'', val)" "off_lun g (at (function_dir g) ''stall'', val)"
    "off_lun g (lun_file g, val)" for val
    by (simp_all add: off_lun_def lun_ro_def lun_file_def gadget_paths at_components components_def)
  let ?before = "write_all [(at (lun_dir g) ''nofua'', ''1''), (at (function_dir g) ''stall'', ''1'')]"
  let ?after = "bindp (path_exists (at (config_dir g) ''mass_storage.0'')) (\<lambda>linked.
     if linked then ret () else make_link (function_dir g) (at (config_dir g) ''mass_storage.0''))"
  have split: "attach_medium g medium =
      bindp ?before (\<lambda>_. bindp (gadget_write (lun_file g) medium) (\<lambda>_. ?after))"
    by (simp add: attach_medium_def lun_file_def)
  have wb: "writes_in (off_lun g) ?before" by (intro host_intros) (simp add: off)
  have wa: "writes_in (\<lambda>_. False) ?after" by (intro host_intros)
  have wm: "writes_in (off_lun g) (gadget_write (lun_file g) medium)" by (intro host_intros off)
  obtain r1 h1 where 1: "?before h = (r1, h1)" by fastforce
  obtain n1 where n1: "h_writes h1 = n1 @ h_writes h" "list_all (off_lun g) n1" by (rule writes_inE [OF wb 1])
  show thesis
  proof (cases r1)
    case (Inl e)
    then have "h' = h1" "r \<noteq> Inr ()" using assms 1 by (auto simp: split bindp_def)
    then show ?thesis using that n1 by simp
  next
    case (Inr u)
    obtain r2 h2 where 2: "gadget_write (lun_file g) medium h1 = (r2, h2)" by fastforce
    obtain n2 where n2: "h_writes h2 = n2 @ h_writes h1" "list_all (off_lun g) n2" by (rule writes_inE [OF wm 2])
    show ?thesis
    proof (cases r2)
      case (Inl e)
      then have "h' = h2" "r \<noteq> Inr ()" using assms 1 2 Inr by (auto simp: split bindp_def)
      then show ?thesis using that [of "n2 @ n1"] n1 n2 by simp
    next
      case (Inr v)
      with gadget_write_log [of "lun_file g" medium h1 v h2] 2 have
        log: "h_writes h2 = (lun_file g, medium) # h_writes h1" by simp
      have 3: "?after h2 = (r, h')" using assms 1 2 \<open>r1 = Inr u\<close> Inr by (simp add: split bindp_def)
      obtain n3 where "h_writes h' = n3 @ h_writes h2" "list_all (\<lambda>_. False) n3" by (rule writes_inE [OF wa 3])
      then have "h_writes h' = (lun_file g, medium) # h_writes h1" using log by (cases n3) simp_all
      then show ?thesis using that [of "(lun_file g, medium) # n1"] n1 off by simp
    qed
  qed
qed

lemma writes_in_bind_udc: "writes_in (\<lambda>w. w = (udc_attr g, udc)) (bind_udc n g udc)"
proof (induction n)
  case 0
  show ?case unfolding bind_udc.simps by (intro host_intros)
next
  case (Suc n)
  show ?case unfolding bind_udc.simps
    by (rule writes_in_catchp) (auto split: py_error.split intro!: host_intros Suc)
qed

lemma bind_udc_log:
  "bind_udc n g udc h = (Inr u, h') \<Longrightarrow>
     \<exists>log. h_writes h' = (udc_attr g, udc) # log \<and> length (h_writes h) \<le> length log"
proof (induction n arbitrary: h)
  case (Suc n)
  obtain r h1 where w: "gadget_write (udc_attr g) udc h = (r, h1)" by fastforce
  show ?case
  proof (cases r)
    case (Inr v)
    then show ?thesis using Suc.prems w gadget_write_log [of "udc_attr g" udc h v h1]
      by (auto simp: catchp_def)
  next
    case (Inl e)
    obtain k where "length (h_writes h1) = length (h_writes h) + k"
      using writes_inE [OF writes_in_gadget [of "\<lambda>_. True"] w] by (metis add.commute length_append)
    then show ?thesis using Suc w Inl
      by (fastforce simp: catchp_def bindp_def sleep_ms_def split: py_error.splits if_splits simp del: lit_Cons)
  qed
qed simp

lemma writes_in_remove_tree: "writes_in P (remove_tree n d)"
proof (induction n arbitrary: d)
  case 0
  show ?case unfolding remove_tree.simps by (intro host_intros)
next
  case (Suc n)
  show ?case unfolding remove_tree.simps stale_entries_def remove_entry_def remove_stale_dir_def
    by (intro host_intros writes_in_iterp Suc)
qed

lemma writes_in_unbind: "writes_in (quiet g) (unbind limit g)"
  unfolding unbind_def
  by (intro host_intros writes_in_remove_tree)
    (simp_all add: quiet_def gadget_paths at_components components_def)

lemma writes_in_roles: "writes_in P (first_role lower ps)" "writes_in P (speed_rank_from lower ps)"
  by (induction ps) (auto intro!: host_intros)

lemma writes_in_select: "writes_in P (select_udc lower g requested)"
  unfolding select_udc_def select_auto_def is_device_capable_def speed_rank_def Let_def
  by (intro host_intros writes_in_roles)

lemma exposed_ok_append: "exposed_ok g medium new \<Longrightarrow> exposed_ok g medium log \<Longrightarrow> exposed_ok g medium (new @ log)"
  by (induction new) auto

definition binds_safely :: "gadget \<Rightarrow> pystr \<Rightarrow> (host, pystr) prog \<Rightarrow> bool" where
  "binds_safely g medium m \<longleftrightarrow> (\<forall>h. \<exists>new. h_writes (snd (m h)) = new @ h_writes h \<and> exposed_ok g medium new \<and>
     (\<forall>chosen. fst (m h) = Inr chosen \<longrightarrow> (\<exists>log. new = (udc_attr g, chosen) # log)))"

lemma binds_safely_after:
  assumes "writes_in (quiet g) m" "\<And>x. binds_safely g medium (f x)"
  shows "binds_safely g medium (bindp m f)"
  unfolding binds_safely_def
proof
  fix h
  obtain r h1 where m: "m h = (r, h1)" by fastforce
  obtain new where n: "h_writes h1 = new @ h_writes h" "list_all (quiet g) new" by (rule writes_inE [OF assms(1) m])
  have q: "exposed_ok g medium new" using exposed_ok_quiet [OF n(2), of medium "[]"] by simp
  show "\<exists>new. h_writes (snd (bindp m f h)) = new @ h_writes h \<and> exposed_ok g medium new \<and>
      (\<forall>chosen. fst (bindp m f h) = Inr chosen \<longrightarrow> (\<exists>log. new = (udc_attr g, chosen) # log))"
  proof (cases r)
    case (Inl e)
    then show ?thesis using m n q by (auto simp: bindp_def)
  next
    case (Inr x)
    obtain new2 where n2: "h_writes (snd (f x h1)) = new2 @ h_writes h1" "exposed_ok g medium new2"
        "\<forall>chosen. fst (f x h1) = Inr chosen \<longrightarrow> (\<exists>log. new2 = (udc_attr g, chosen) # log)"
      using assms(2) [of x] unfolding binds_safely_def by blast
    with exposed_ok_append [OF n2(2) q] show ?thesis
      using m n Inr by (intro exI [of _ "new2 @ new"]) (fastforce simp: bindp_def)
  qed
qed

lemma binds_safely_core:
  "binds_safely g medium (bindp (gadget_write (lun_ro g) (lit ''1'')) (\<lambda>_. bindp (attach_medium g medium) (\<lambda>_.
     bindp (bind_udc n g chosen) (\<lambda>_. ret chosen))))"
  unfolding binds_safely_def
proof
  fix h
  let ?m = "bindp (gadget_write (lun_ro g) (lit ''1'')) (\<lambda>_. bindp (attach_medium g medium) (\<lambda>_.
     bindp (bind_udc n g chosen) (\<lambda>_. ret chosen)))"
  have ne: "udc_attr g \<noteq> lun_ro g" by (simp add: lun_ro_def gadget_paths at_components components_def)
  have ro: "writes_in (\<lambda>w. w = (lun_ro g, lit ''1'')) (gadget_write (lun_ro g) (lit ''1''))"
    by (intro host_intros refl)
  obtain r1 h1 where 1: "gadget_write (lun_ro g) (lit ''1'') h = (r1, h1)" by fastforce
  obtain n1 where n1: "h_writes h1 = n1 @ h_writes h" "list_all (\<lambda>w. w = (lun_ro g, lit ''1'')) n1"
    by (rule writes_inE [OF ro 1])
  have e1: "exposed_ok g medium n1"
    using n1(2) ne by (induction n1) auto
  show "\<exists>new. h_writes (snd (?m h)) = new @ h_writes h \<and> exposed_ok g medium new \<and>
     (\<forall>c. fst (?m h) = Inr c \<longrightarrow> (\<exists>log. new = (udc_attr g, c) # log))"
  proof (cases r1)
    case (Inl e)
    then show ?thesis using 1 n1(1) e1 by (auto simp: bindp_def)
  next
    case (Inr u)
    then have m1: "map_of n1 (lun_ro g) = Some (lit ''1'')"
      using gadget_write_log [of "lun_ro g" "lit ''1''" h u h1] 1 n1(1) by simp
    obtain r2 h2 where 2: "attach_medium g medium h1 = (r2, h2)" by fastforce
    obtain n2 where n2: "h_writes h2 = n2 @ h_writes h1" "list_all (off_lun g) n2"
        "r2 = Inr () \<longrightarrow> map_of n2 (lun_file g) = Some medium"
      by (rule attach_medium_log [OF 2])
    have "list_all (quiet g) n2" using n2(2) by (rule list.pred_mono_strong) (simp add: off_lun_def quiet_def)
    with e1 have e2: "exposed_ok g medium (n2 @ n1)" by (simp add: exposed_ok_quiet)
    show ?thesis
    proof (cases r2)
      case (Inl e)
      then show ?thesis using 1 2 n1(1) n2(1) e2 \<open>r1 = Inr u\<close> by (auto simp: bindp_def)
    next
      case (Inr v)
      have "map_of n2 (lun_ro g) = None"
        using n2(2) by (induction n2) (auto simp: off_lun_def)
      then have m2: "map_of (n2 @ n1) (lun_ro g) = Some (lit ''1'')" "map_of (n2 @ n1) (lun_file g) = Some medium"
        using m1 n2(3) Inr by (simp_all add: map_add_def)
      obtain r3 h3 where 3: "bind_udc n g chosen h2 = (r3, h3)" by fastforce
      obtain n3 where n3: "h_writes h3 = n3 @ h_writes h2" "list_all (\<lambda>w. w = (udc_attr g, chosen)) n3"
        by (rule writes_inE [OF writes_in_bind_udc 3])
      have "\<exists>log. n3 @ n2 @ n1 = (udc_attr g, chosen) # log" if r3: "r3 = Inr w" for w
      proof -
        obtain log where "h_writes h3 = (udc_attr g, chosen) # log" "length (h_writes h2) \<le> length log"
          using bind_udc_log [OF 3 [unfolded r3]] by blast
        then show ?thesis using n3 by (cases n3) auto
      qed
      then show ?thesis using 1 2 3 n1(1) n2(1) n3(1) exposed_ok_bound [OF n3(2) e2 m2] \<open>r1 = Inr u\<close> Inr
        by (cases r3) (auto simp: bindp_def)
    qed
  qed
qed

lemma bind_gadget_log:
  assumes "gd_serial_path g \<noteq> udc_attr g"
  shows "binds_safely g medium (bind_gadget lower fresh limit g medium udc)"
  unfolding bind_gadget_def lun_ro_def [symmetric]
  by (intro binds_safely_after binds_safely_core host_intros writes_in_unbind writes_in_select
      writes_in_describe assms)

section \<open>The automatic choice\<close>

lemma queries_roles: "queries (first_role lower ps)" "queries (speed_rank_from lower ps)"
  by (induction ps) (auto intro!: host_intros)

lemma queries_capable: "queries (is_device_capable lower p)"
  unfolding is_device_capable_def by (intro host_intros queries_roles)

definition usable :: "(pystr \<Rightarrow> pystr) \<Rightarrow> host \<Rightarrow> path \<Rightarrow> bool" where
  "usable lower h p \<longleftrightarrow> answer (andp (is_dir p) (is_device_capable lower p)) h = Some True"

definition choice_key :: "(pystr \<Rightarrow> pystr) \<Rightarrow> host \<Rightarrow> path \<Rightarrow> int \<times> pystr" where
  "choice_key lower h p = (- the (answer (speed_rank lower p) h), path_name p)"

lemma speed_rank_answers: "\<exists>n. fst (speed_rank lower p h) = Inr n"
proof -
  have "\<exists>n. fst (speed_rank_from lower ps h) = Inr n" for ps
  proof (induction ps arbitrary: h)
    case (Cons p ps)
    have "\<exists>val. fst (on_os_error (bindp (read_text p) (\<lambda>s. ret (lower (strip s)))) (\<lambda>_. ret []) h) = Inr val"
      by (auto simp: on_os_error_def catchp_def bindp_def read_text_def syscall_def Let_def
          split: option.splits sum.splits prod.splits fnode.splits)
    with Cons.IH show ?case by (auto simp: bindp_def split: prod.splits)
  qed simp
  then show ?thesis unfolding speed_rank_def .
qed

lemma select_auto_best:
  assumes "steady h" "select_auto lower g h = (Inr name, h')"
  shows "\<exists>es best. answer (list_dir (gd_udc_root g)) h = Some es \<and> best \<in> set es \<and> usable lower h best \<and>
    name = path_name best \<and>
    (\<forall>p\<in>set es. usable lower h p \<longrightarrow> choice_key lower h best \<le> choice_key lower h p)"
proof -
  let ?keyed = "mapp (\<lambda>entry. bindp (speed_rank lower entry) (\<lambda>rank. ret ((- rank, path_name entry), entry)))"
  obtain k where k: "list_dir (gd_udc_root g) h = (fst (list_dir (gd_udc_root g) h), h\<lparr>h_calls := k\<rparr>)"
    by (rule queries_run [OF queries_list assms(1)])
  obtain es where es: "fst (list_dir (gd_udc_root g) h) = Inr es"
    using assms(2) k
    by (cases "fst (list_dir (gd_udc_root g) h)")
      (auto simp: select_auto_def bindp_def on_os_error_def catchp_def split: py_error.splits simp del: lit_Cons)
  obtain r h1 where f: "filterp (\<lambda>entry. andp (is_dir entry) (is_device_capable lower entry)) es (h\<lparr>h_calls := k\<rparr>) = (r, h1)"
    by fastforce
  obtain cs where cs: "r = Inr cs"
    using assms(2) k es f
    by (cases r) (auto simp: select_auto_def bindp_def on_os_error_def catchp_def split: py_error.splits simp del: lit_Cons)
  have "queries (andp (is_dir x) (is_device_capable lower x))" for x by (intro host_intros queries_capable)
  from filterp_answer [OF this assms(1) f [unfolded cs]] obtain j where
    usable: "cs = filter (usable lower h) es" and h1: "h1 = h\<lparr>h_calls := j\<rparr>"
    by (auto simp: usable_def [abs_def])
  have sel: "(if cs = [] then raise_p (GadgetError (lit ''no device-capable USB Device Controller found''))
      else bindp (?keyed cs) (\<lambda>keyed. ret (path_name (snd (hd (sort_key fst keyed)))))) h1 = (Inr name, h')"
    using assms(2) k es f cs by (simp add: select_auto_def bindp_def on_os_error_def catchp_def del: lit_Cons)
  then have ne: "cs \<noteq> []" by (auto simp del: lit_Cons)
  obtain ks h2 where ks: "?keyed cs h1 = (Inr ks, h2)" and name: "name = path_name (snd (hd (sort_key fst ks)))"
    using sel ne by (auto simp: bindp_def split: prod.splits sum.splits)
  have "queries (bindp (speed_rank lower x) (\<lambda>rank. ret ((- rank, path_name x), x)))" for x
    unfolding speed_rank_def by (intro host_intros queries_roles)
  from mapp_answer [OF this assms(1) ks [unfolded h1]]
  have "list_all2 (\<lambda>x y. y = (choice_key lower h x, x)) cs ks"
  proof (rule list_all2_mono)
    fix x y assume "answer (bindp (speed_rank lower x) (\<lambda>rank. ret ((- rank, path_name x), x))) h = Some y"
    with speed_rank_answers [of lower x h] show "y = (choice_key lower h x, x)"
      by (auto simp: answer_def bindp_def choice_key_def split: prod.splits)
  qed
  then have keyed: "ks = map (\<lambda>x. (choice_key lower h x, x)) cs"
    by (induction rule: list_all2_induct) simp_all
  define sorted where "sorted = sort_key fst ks"
  have snd: "sorted_wrt (\<lambda>x y. fst x \<le> fst y) sorted" "set sorted = set ks"
    using sorted_sort_key [of fst ks] by (simp_all add: sorted_def sorted_map)
  obtain b rest where b: "sorted = b # rest" using snd(2) ne keyed by (cases sorted) auto
  have least: "fst b \<le> fst x" if "x \<in> set ks" for x using that snd b by auto
  have "b \<in> set ks" using snd(2) b by auto
  then obtain best where "best \<in> set cs" "b = (choice_key lower h best, best)"
    unfolding keyed by auto
  moreover have "(choice_key lower h x, x) \<in> set ks" if "x \<in> set cs" for x using that by (simp add: keyed)
  ultimately have "name = path_name best" "\<forall>x\<in>set cs. choice_key lower h best \<le> choice_key lower h x"
    using name b least unfolding sorted_def by fastforce+
  with \<open>best \<in> set cs\<close> usable show ?thesis
    by (intro exI [of _ es] exI [of _ best]) (auto simp: answer_def es)
qed

text \<open>
  What sysfs says of a controller, read off the tree. A controller is usable in device mode
  when the first of its role attributes that can be read names a device role, or, without
  such an attribute, when it has a state. The speeds are those of the kernel's
  \<open>usb_speed_string\<close>, in kbit/s.
\<close>

fun first_some :: "'a option list \<Rightarrow> 'a option" where
  "first_some [] = None"
| "first_some (Some x # _) = Some x"
| "first_some (None # xs) = first_some xs"

definition attribute :: "(pystr \<Rightarrow> pystr) \<Rightarrow> host \<Rightarrow> path \<Rightarrow> pystr option" where
  "attribute lower h p = map_option (\<lambda>t. lower (strip t)) (answer (read_text p) h)"

definition device_mode :: "(pystr \<Rightarrow> pystr) \<Rightarrow> host \<Rightarrow> path \<Rightarrow> bool" where
  "device_mode lower h p \<longleftrightarrow> answer (is_dir p) h = Some True \<and>
     (case first_some [attribute lower h (at p ''device/role''), attribute lower h (at p ''device/otg_role''),
         attribute lower h (at p ''role'')] of
        Some role \<Rightarrow> role = lit ''device'' \<or> role = lit ''peripheral'' \<or> role = lit ''gadget''
      | None \<Rightarrow> answer (path_exists (at p ''state'')) h = Some True)"

definition reported_speed :: "(pystr \<Rightarrow> pystr) \<Rightarrow> host \<Rightarrow> path \<Rightarrow> pystr" where
  \<comment> \<open>the maximum speed, else the current one, empty when neither is reported\<close>
  "reported_speed lower h p =
     (let speed = (\<lambda>q. case attribute lower h q of None \<Rightarrow> [] | Some t \<Rightarrow> t)
      in if speed (at p ''maximum_speed'') \<noteq> [] then speed (at p ''maximum_speed'')
         else speed (at p ''current_speed''))"

definition kernel_speeds :: "(pystr \<times> int) list" where
  "kernel_speeds =
     [(lit ''low-speed'', 1500), (lit ''full-speed'', 12000), (lit ''high-speed'', 480000),
      (lit ''wireless'', 480000), (lit ''super-speed'', 5000000), (lit ''super-speed-plus'', 10000000),
      (lit ''unknown'', 0), ([], 0)]"

definition kbit_per_s :: "pystr \<Rightarrow> int" where
  "kbit_per_s speed = (case map_of kernel_speeds speed of Some n \<Rightarrow> n | None \<Rightarrow> 0)"

lemma rank_order:
  assumes "a \<in> fst ` set kernel_speeds" "b \<in> fst ` set kernel_speeds"
  shows "rank_of_speed a \<le> rank_of_speed b \<longleftrightarrow> kbit_per_s a \<le> kbit_per_s b"
proof -
  have "list_all (\<lambda>a. list_all (\<lambda>b. (rank_of_speed a \<le> rank_of_speed b) = (kbit_per_s a \<le> kbit_per_s b))
      (map fst kernel_speeds)) (map fst kernel_speeds)" by code_simp
  with assms show ?thesis by (auto simp: list_all_iff simp del: lit_Cons)
qed

lemma rank_of_nothing: "rank_of_speed [] = 0"
  by code_simp

lemma answer_calls: "queries m \<Longrightarrow> steady h \<Longrightarrow> answer m (h\<lparr>h_calls := k\<rparr>) = answer m h"
  unfolding queries_def answer_def by (metis fst_conv)

lemma answer_ret [simp]: "answer (ret x) h = Some x"
  by (simp add: answer_def)

lemma answer_bindp:
  assumes "queries m" "\<And>x. queries (f x)" "steady h"
  shows "answer (bindp m f) h = (case answer m h of None \<Rightarrow> None | Some x \<Rightarrow> answer (f x) h)"
proof -
  obtain k where "m h = (fst (m h), h\<lparr>h_calls := k\<rparr>)" by (rule queries_run [OF assms(1,3)])
  then have "answer (bindp m f) h = (case fst (m h) of Inl _ \<Rightarrow> None | Inr x \<Rightarrow> answer (f x) (h\<lparr>h_calls := k\<rparr>))"
    by (cases "fst (m h)") (auto simp: answer_def bindp_def)
  then show ?thesis using answer_calls [OF assms(2,3)] by (auto simp: answer_def split: sum.split)
qed

lemma read_text_errors: "fst (read_text p h) = Inl e \<Longrightarrow> \<exists>n. e = OSError n"
  by (auto simp: read_text_def syscall_def Let_def split: option.splits sum.splits prod.splits fnode.splits)

lemma answer_read_or:
  assumes "queries m" "steady h"
  shows "answer (on_os_error (bindp (read_text p) (\<lambda>s. ret (g s))) (\<lambda>_. m)) h =
    (case answer (read_text p) h of Some t \<Rightarrow> Some (g t) | None \<Rightarrow> answer m h)"
proof -
  obtain k where k: "read_text p h = (fst (read_text p h), h\<lparr>h_calls := k\<rparr>)"
    by (rule queries_run [OF queries_read assms(2)])
  show ?thesis
  proof (cases "fst (read_text p h)")
    case (Inl e)
    moreover obtain n where "e = OSError n" using read_text_errors [OF Inl] by blast
    ultimately have "answer (on_os_error (bindp (read_text p) (\<lambda>s. ret (g s))) (\<lambda>_. m)) h = answer m (h\<lparr>h_calls := k\<rparr>)"
      using k by (auto simp: answer_def on_os_error_def catchp_def bindp_def)
    with Inl show ?thesis using answer_calls [OF assms] by (simp add: answer_def)
  next
    case (Inr t)
    with k show ?thesis by (auto simp: answer_def on_os_error_def catchp_def bindp_def)
  qed
qed

lemma first_role_answer:
  "steady h \<Longrightarrow> answer (first_role lower ps) h = Some (first_some (map (attribute lower h) ps))"
  by (induction ps) (auto simp: answer_read_or queries_roles attribute_def split: option.split)

lemma usable_device_mode:
  assumes "steady h"
  shows "usable lower h p = device_mode lower h p"
proof -
  have q: "queries (case role of Some r \<Rightarrow> ret (r \<in> {lit ''device'', lit ''peripheral'', lit ''gadget''})
      | None \<Rightarrow> path_exists (at p ''state''))" for role
    by (cases role) (simp_all add: host_intros del: lit_Cons)
  have "answer (is_device_capable lower p) h =
      (case first_some (map (attribute lower h) [at p ''device/role'', at p ''device/otg_role'', at p ''role'']) of
        Some r \<Rightarrow> Some (r \<in> {lit ''device'', lit ''peripheral'', lit ''gadget''})
      | None \<Rightarrow> answer (path_exists (at p ''state'')) h)"
    unfolding is_device_capable_def answer_bindp [OF queries_roles(1) q assms] first_role_answer [OF assms]
    by (auto split: option.split simp del: lit_Cons)
  moreover have "answer (andp (is_dir p) (is_device_capable lower p)) h =
      (case answer (is_dir p) h of None \<Rightarrow> None
       | Some b \<Rightarrow> if b then answer (is_device_capable lower p) h else Some False)"
    unfolding andp_def
    by (subst answer_bindp [OF _ _ assms]) (auto intro!: host_intros queries_capable split: option.split)
  ultimately show ?thesis
    by (auto simp: usable_def device_mode_def split: option.splits if_splits simp del: lit_Cons)
qed

lemma speed_rank_answer:
  assumes "steady h"
  shows "answer (speed_rank lower p) h = Some (rank_of_speed (reported_speed lower h p))"
proof -
  let ?val = "\<lambda>q. on_os_error (bindp (read_text q) (\<lambda>s. ret (lower (strip s)))) (\<lambda>_. ret [])"
  have val: "answer (?val q) h = Some (case attribute lower h q of None \<Rightarrow> [] | Some t \<Rightarrow> t)" for q
    by (subst answer_read_or [OF queries_ret assms]) (simp add: attribute_def split: option.split)
  have qv: "queries (?val q)" for q by (intro host_intros)
  have step: "answer (speed_rank_from lower (q # qs)) h =
      (let speed = (case attribute lower h q of None \<Rightarrow> [] | Some t \<Rightarrow> t)
       in if speed \<noteq> [] then Some (rank_of_speed speed) else answer (speed_rank_from lower qs) h)" for q qs
    unfolding speed_rank_from.simps
    by (subst answer_bindp [OF qv _ assms]) (auto intro!: host_intros queries_roles simp: val Let_def)
  show ?thesis
    unfolding speed_rank_def reported_speed_def step
    by (simp add: step Let_def rank_of_nothing)
qed

lemma select_fastest:
  assumes "steady h" "fst (select_auto lower g h) = Inr name"
    and "\<And>es p. answer (list_dir (gd_udc_root g)) h = Some es \<Longrightarrow> p \<in> set es \<Longrightarrow> device_mode lower h p \<Longrightarrow>
      reported_speed lower h p \<in> fst ` set kernel_speeds"
  shows "\<exists>es best. answer (list_dir (gd_udc_root g)) h = Some es \<and> best \<in> set es \<and> device_mode lower h best \<and>
    name = path_name best \<and>
    (\<forall>p\<in>set es. device_mode lower h p \<longrightarrow>
      kbit_per_s (reported_speed lower h p) < kbit_per_s (reported_speed lower h best) \<or>
      kbit_per_s (reported_speed lower h p) = kbit_per_s (reported_speed lower h best) \<and> name \<le> path_name p)"
proof -
  have "select_auto lower g h = (Inr name, snd (select_auto lower g h))" using assms(2) by (simp add: prod_eq_iff)
  from select_auto_best [OF assms(1) this] obtain es best where
    es: "answer (list_dir (gd_udc_root g)) h = Some es" "best \<in> set es" "device_mode lower h best" "name = path_name best"
    and least: "\<And>p. p \<in> set es \<Longrightarrow> device_mode lower h p \<Longrightarrow> choice_key lower h best \<le> choice_key lower h p"
    unfolding usable_device_mode [OF assms(1)] by blast
  have "kbit_per_s (reported_speed lower h p) < kbit_per_s (reported_speed lower h best) \<or>
      kbit_per_s (reported_speed lower h p) = kbit_per_s (reported_speed lower h best) \<and> name \<le> path_name p"
    if p: "p \<in> set es" "device_mode lower h p" for p
  proof -
    note kernel = assms(3) [OF es(1) p] assms(3) [OF es(1-3)]
    have "choice_key lower h q = (- rank_of_speed (reported_speed lower h q), path_name q)" for q
      by (simp add: choice_key_def speed_rank_answer [OF assms(1)])
    with least [OF p] show ?thesis
      using rank_order [OF kernel] rank_order [OF kernel(2,1)] es(4) by (auto simp: less_eq_prod_def)
  qed
  with es show ?thesis by blast
qed

section \<open>Tearing down\<close>

lemma keeps_machine_gadget [host_intros]: "keeps_machine (gadget_write p val)"
  unfolding gadget_write_def by (intro host_intros)

lemma keeps_machine_stale [host_intros]:
  "keeps_machine (stale_entries d)" "keeps_machine (remove_stale_dir d)"
  "(\<And>p. keeps_machine (recurse p)) \<Longrightarrow> keeps_machine (remove_entry recurse entry)"
  unfolding stale_entries_def remove_stale_dir_def remove_entry_def by (intro host_intros; simp)+

lemma keeps_machine_remove_tree [host_intros]: "keeps_machine (remove_tree n d)"
proof (induction n arbitrary: d)
  case 0
  show ?case unfolding remove_tree.simps by (intro host_intros)
next
  case (Suc n)
  show ?case unfolding remove_tree.simps by (intro host_intros Suc)
qed

lemma path_exists_lookup:
  assumes "steady h"
  shows "answer (path_exists p) h = Some (case resolve (h_tree h) p of Inl e \<Rightarrow> False | Inr _ \<Rightarrow> True)"
proof -
  have "h_fault h m op p = None" for m op using assms unfolding steady_def by blast
  moreover have "absent (OSError e)" if "resolve t p = Inl e" for t e
    using that by (auto simp: resolve_def absent_def ENOENT_def ELOOP_def split: option.splits)
  ultimately show ?thesis
    by (auto simp: answer_def path_exists_def test_node_def catchp_def bindp_def stat_node_def syscall_def
        Let_def split: sum.splits)
qed

lemma lookup_gone: "lookup t p = None \<Longrightarrow> resolve t p = Inl ENOENT"
  by (simp add: resolve_def numeral_eq_Suc)

lemma list_dir_missing:
  assumes "steady h" "fst (list_dir p h) = Inl (OSError ENOENT)"
  shows "resolve (h_tree h) p = Inl ENOENT"
proof -
  have "h_fault h m op p = None" for m op using assms unfolding steady_def by blast
  with assms(2) show ?thesis
    by (auto simp: list_dir_def syscall_def Let_def ENOENT_def ENOTDIR_def split: sum.splits prod.splits fnode.splits)
qed

lemma remove_dir_outcome:
  assumes "steady h" "\<not> h_virtual h p" "snd p \<noteq> []" "remove_dir p h = (r, h')"
    and "r = Inr () \<or> r = Inl (OSError ENOENT) \<or> r = Inl (OSError EPERM) \<or> r = Inl (OSError EACCES)"
  shows "lookup (h_tree h') p = None \<and> (r = Inr () \<or> r = Inl (OSError ENOENT))"
proof -
  have "h_fault h m op p = None" for m op using assms unfolding steady_def by blast
  moreover have "map_of (filter (\<lambda>(q, _). \<not> below p q) t) p = None" for t :: tree
    by (induction t) (auto simp: below_def)
  ultimately show ?thesis using assms
    by (auto simp: remove_dir_def syscall_def Let_def ENOENT_def ENOTDIR_def EPERM_def EACCES_def ENOTEMPTY_def
        lookup_def split: option.splits fnode.splits if_splits)
qed

lemma on_os_error_cases:
  assumes "on_os_error m f h = (r, h')"
  obtains "m h = (r, h')" "\<And>n. r \<noteq> Inl (OSError n)"
  | n h1 where "m h = (Inl (OSError n), h1)" "f n h1 = (r, h')"
  using assms by (auto simp: on_os_error_def catchp_def split: prod.splits sum.splits py_error.splits)

lemma bindp_Inr_cases:
  assumes "bindp m f h = (Inr x, h')"
  obtains y h1 where "m h = (Inr y, h1)" "f y h1 = (Inr x, h')"
  using assms by (auto simp: bindp_def split: prod.splits sum.splits)

lemma list_dir_state: "list_dir p h = (r, h1) \<Longrightarrow> h1 = h\<lparr>h_calls := Suc (h_calls h)\<rparr>"
  by (auto simp: list_dir_def syscall_def Let_def split: option.splits sum.splits prod.splits fnode.splits)

lemma stale_entries_none:
  assumes "steady h" "stale_entries d h = (Inr None, h')"
  shows "resolve (h_tree h') d = Inl ENOENT"
  using assms(2) unfolding stale_entries_def
proof (cases rule: on_os_error_cases)
  case 1
  then show ?thesis by (auto simp: bindp_def split: prod.splits sum.splits)
next
  case (2 e h2)
  from 2(2) have "e = ENOENT" "h2 = h'" by (auto simp: bindp_def split: if_splits simp del: lit_Cons)
  moreover from 2(1) have ld: "list_dir d h = (Inl (OSError e), h2)"
    by (auto simp: bindp_def split: prod.splits sum.splits)
  moreover have "h_tree h2 = h_tree h" using list_dir_state [OF ld] by simp
  ultimately show ?thesis using list_dir_missing [OF assms(1), of d] by simp
qed

lemma remove_stale_dir_gone:
  assumes "steady h" "\<not> h_virtual h d" "snd d \<noteq> []" "remove_stale_dir d h = (Inr (), h')"
  shows "resolve (h_tree h') d = Inl ENOENT"
proof -
  from assms(4) have "lookup (h_tree h') d = None"
    unfolding remove_stale_dir_def
  proof (cases rule: on_os_error_cases)
    case 1
    from remove_dir_outcome [OF assms(1-3) 1(1)] show ?thesis by simp
  next
    case (2 e h3)
    then have "e = ENOENT \<or> e = EPERM \<or> e = EACCES" "h3 = h'"
      by (auto simp: bindp_def split: if_splits simp del: lit_Cons)
    with remove_dir_outcome [OF assms(1-3) 2(1)] show ?thesis by blast
  qed
  then show ?thesis by (rule lookup_gone)
qed

lemma remove_tree_gone:
  assumes "steady h" "\<not> h_virtual h d" "snd d \<noteq> []" "remove_tree n d h = (Inr (), h')"
  shows "resolve (h_tree h') d = Inl ENOENT"
proof (cases n)
  case 0
  with assms(4) show ?thesis by simp
next
  case (Suc k)
  obtain y h1 where y: "stale_entries d h = (Inr y, h1)" and
    rest: "(case y of None \<Rightarrow> ret () | Some entries \<Rightarrow>
      bindp (iterp (remove_entry (remove_tree k)) entries) (\<lambda>_. remove_stale_dir d)) h1 = (Inr (), h')"
    using assms(4) unfolding Suc remove_tree.simps by (rule bindp_Inr_cases)
  have m1: "machine h1 = machine h" using keeps_machine_stale(1) y by (rule keeps_machineD)
  show ?thesis
  proof (cases y)
    case None
    then show ?thesis using stale_entries_none [OF assms(1)] y rest by simp
  next
    case (Some es)
    from rest obtain u h2 where loop: "iterp (remove_entry (remove_tree k)) es h1 = (Inr u, h2)"
      and rm: "remove_stale_dir d h2 = (Inr (), h')"
      unfolding Some option.case by (rule bindp_Inr_cases)
    have "keeps_machine (iterp (remove_entry (remove_tree k)) es)" by (intro host_intros)
    from keeps_machineD [OF this loop] m1 have m2: "machine h2 = machine h" by (rule trans)
    then have "steady h2" "\<not> h_virtual h2 d"
      using machine_steady [OF m2] assms(1,2) by (simp_all add: machine_def)
    from remove_stale_dir_gone [OF this assms(3) rm] show ?thesis .
  qed
qed

lemma unbind_gone:
  assumes "steady h" "\<not> h_virtual h (gd_root g)" "snd (gd_root g) \<noteq> []" "unbind limit g h = (Inr (), h')"
  shows "answer (path_exists (gd_root g)) h' = Some False"
proof -
  obtain k where k: "path_exists (gd_root g) h = (fst (path_exists (gd_root g) h), h\<lparr>h_calls := k\<rparr>)"
    by (rule queries_run [OF queries_exists(1) assms(1)])
  define before where "before = (\<lambda>rest. bindp (path_exists (udc_attr g)) (\<lambda>udc. bindp (if udc then gadget_write (udc_attr g) [] else ret ()) (\<lambda>_.
     bindp (path_exists (at (lun_dir g) ''file'')) (\<lambda>lun_file.
     bindp (if lun_file then gadget_write (at (lun_dir g) ''file'') [] else ret ()) (\<lambda>_.
     bindp (is_symlink (at (config_dir g) ''mass_storage.0'')) (\<lambda>link.
     bindp (if link then unlink (at (config_dir g) ''mass_storage.0'') else ret ()) (\<lambda>_.
     rest)))))) :: (host, unit) prog)"
  have split: "before rest = bindp (before (ret ())) (\<lambda>_. rest)" for rest
    by (simp add: before_def bindp_assoc)
  obtain b where b: "fst (path_exists (gd_root g) h) = Inr b"
    using path_exists_lookup [OF assms(1), of "gd_root g"] by (auto simp: answer_def split: sum.splits)
  show ?thesis
  proof (cases b)
    case False
    then have "h' = h\<lparr>h_calls := k\<rparr>" using assms(4) k b by (simp add: unbind_def bindp_def)
    moreover have "fst (path_exists (gd_root g) (h\<lparr>h_calls := k\<rparr>)) = Inr b"
      using queriesE [OF queries_exists(1) assms(1), of "gd_root g" k] b by (metis fst_conv)
    ultimately show ?thesis using False by (simp add: answer_def)
  next
    case True
    then have "before (remove_tree limit (gd_root g)) (h\<lparr>h_calls := k\<rparr>) = (Inr (), h')"
      using assms(4) k b by (simp add: unbind_def before_def bindp_def)
    then obtain u h1 where h1: "before (ret ()) (h\<lparr>h_calls := k\<rparr>) = (Inr u, h1)"
      and rm: "remove_tree limit (gd_root g) h1 = (Inr (), h')"
      by (subst (asm) split) (rule bindp_Inr_cases)
    have "keeps_machine (before (ret ()))" unfolding before_def by (intro host_intros)
    from keeps_machineD [OF this h1] have m: "machine h1 = machine h" by (simp add: machine_def)
    from machine_steady [OF m] assms(1,2) m have s1: "steady h1" "\<not> h_virtual h1 (gd_root g)"
      by (simp_all add: machine_def)
    from keeps_machineD [OF keeps_machine_remove_tree rm] m have "steady h'"
      using machine_steady assms(1) by metis
    with path_exists_lookup remove_tree_gone [OF s1 assms(3) rm] show ?thesis by simp
  qed
qed

end
