(* ===== verification/Preloader.thy ===== *)
theory Preloader
  imports SectorMapper ConfigTypes PyStr
begin

text \<open>
  \<open>preloader.py\<close>: warming the cache by reading the hot ranges through nbdsh, once or in a
  background worker. A run of the module happens in real time: the child process of
  \<open>Popen\<close> ends some time after it starts (\<open>nb_exit\<close>), the stop event is set at some time
  (\<open>nb_stop_at\<close>), and every wait that times out may last longer than asked (\<open>nb_late\<close>).
\<close>

section \<open>State\<close>

record nbdsh =
  nb_clock :: int \<comment> \<open>milliseconds\<close>
  nb_count :: nat \<comment> \<open>waits and processes so far\<close>
  nb_late :: "nat \<Rightarrow> nat"
  nb_stop_at :: "int option"
  nb_popen :: "nat \<Rightarrow> pystr list \<Rightarrow> unit result" \<comment> \<open>whether the process can be started\<close>
  nb_exit :: "nat \<Rightarrow> pystr list \<Rightarrow> (int \<times> int) option" \<comment> \<open>how long it runs and its return code\<close>
  nb_run :: "nat \<Rightarrow> pystr list \<Rightarrow> (int \<times> pystr) result" \<comment> \<open>the runner of the synchronous mode\<close>
  nb_child :: "(int \<times> (int \<times> int) option) option" \<comment> \<open>a process not yet reaped: its start and its end\<close>
  nb_passes :: "(int \<times> int) list" \<comment> \<open>calls of \<open>on_pass\<close> with their time, newest first\<close>

definition stop_set :: "nbdsh \<Rightarrow> bool" where
  \<comment> \<open>\<open>stop_event.is_set()\<close>\<close>
  "stop_set s = (case nb_stop_at s of None \<Rightarrow> False | Some t \<Rightarrow> t \<le> nb_clock s)"

definition wait_event :: "int \<Rightarrow> (nbdsh, bool) prog" where
  \<comment> \<open>\<open>stop_event.wait\<close>: at once when set, else until it is set or the time has passed\<close>
  "wait_event ms s =
     (let until = nb_clock s + ms + int (nb_late s (nb_count s));
          s' = s\<lparr>nb_count := Suc (nb_count s)\<rparr>
      in if stop_set s then (Inr True, s')
         else case nb_stop_at s of
                Some t \<Rightarrow> if t \<le> until then (Inr True, s'\<lparr>nb_clock := t\<rparr>) else (Inr False, s'\<lparr>nb_clock := until\<rparr>)
              | None \<Rightarrow> (Inr False, s'\<lparr>nb_clock := until\<rparr>))"

section \<open>One pass\<close>

fun join_text :: "pystr \<Rightarrow> pystr list \<Rightarrow> pystr" where
  \<comment> \<open>\<open>sep.join(xs)\<close>\<close>
  "join_text sep [] = []"
| "join_text sep [x] = x"
| "join_text sep (x # xs) = x @ sep @ join_text sep xs"

definition build_nbdsh_command :: "pystr \<Rightarrow> (int \<times> int) list \<Rightarrow> pystr list" where
  "build_nbdsh_command socket_path ranges =
     (let commands = map (\<lambda>(offset, len). lit ''h.pread('' @ show_int len @ lit '', '' @ show_int offset @ lit '')'') ranges;
          script = (if join_text (lit ''; '') commands = [] then lit ''pass'' else join_text (lit ''; '') commands)
      in [lit ''nbdsh'', lit ''-u'', lit ''nbd+unix:///?socket='' @ socket_path, lit ''-c'', script])"

definition popen :: "pystr list \<Rightarrow> (nbdsh, unit) prog" where
  "popen command s =
     (case nb_popen s (nb_count s) command of
        Inl e \<Rightarrow> (Inl e, s\<lparr>nb_count := Suc (nb_count s)\<rparr>)
      | Inr _ \<Rightarrow> (Inr (), s\<lparr>nb_count := Suc (nb_count s),
          nb_child := Some (nb_clock s, nb_exit s (nb_count s) command)\<rparr>))"

definition poll :: "(nbdsh, int option) prog" where
  \<comment> \<open>a return code reaps the process\<close>
  "poll s =
     (case nb_child s of
        Some (start, Some (duration, code)) \<Rightarrow>
          if start + duration \<le> nb_clock s then (Inr (Some code), s\<lparr>nb_child := None\<rparr>) else (Inr None, s)
      | _ \<Rightarrow> (Inr None, s))"

definition kill_child :: "(nbdsh, unit) prog" where
  \<comment> \<open>\<open>process.kill(); process.wait()\<close>\<close>
  "kill_child = modifyp (\<lambda>s. s\<lparr>nb_child := None\<rparr>)"

fun await_child :: "nat \<Rightarrow> int \<Rightarrow> (nbdsh, int option) prog" where
  \<comment> \<open>the return code, or \<open>None\<close> once stopped\<close>
  "await_child 0 deadline = raise_p OutOfFuel"
| "await_child (Suc n) deadline =
     bindp poll (\<lambda>code. case code of
       Some c \<Rightarrow> ret (Some c)
     | None \<Rightarrow> bindp (wait_event 100) (\<lambda>stopped.
         if stopped then bindp kill_child (\<lambda>_. ret None)
         else bindp getp (\<lambda>s.
           if deadline \<le> nb_clock s
           then bindp kill_child (\<lambda>_. raise_p (PreloadError (lit ''nbdsh metadata preload timed out'')))
           else await_child n deadline)))"

definition total_length :: "(int \<times> int) list \<Rightarrow> int" where
  "total_length ranges = sum_list (map snd ranges)"

definition hot_ranges_for :: "exfat_layout \<Rightarrow> prefetch_config \<Rightarrow> (int \<times> int) list" where
  "hot_ranges_for l policy =
     get_hot_ranges l (pc_enabled (pf_directory_metadata policy)) (pc_enabled (pf_fat policy))"

definition checked_result :: "int \<Rightarrow> pystr \<Rightarrow> (int \<times> int) list \<Rightarrow> int result" where
  "checked_result code stderr ranges =
     (if code \<noteq> 0
      then Inl (PreloadError (if strip stderr = [] then lit ''nbdsh metadata preload failed'' else strip stderr))
      else Inr (total_length ranges))"

definition preload_stoppable :: "exfat_layout \<Rightarrow> pystr \<Rightarrow> prefetch_config \<Rightarrow> (nbdsh, int) prog" where
  \<comment> \<open>\<open>preload\<close> with a stop event and the default time limit of 60 s\<close>
  "preload_stoppable l socket_path policy =
     (let ranges = hot_ranges_for l policy
      in bindp (popen (build_nbdsh_command socket_path ranges)) (\<lambda>_.
         bindp getp (\<lambda>s.
         bindp (await_child 601 (nb_clock s + 60000)) (\<lambda>code.
         case code of
           None \<Rightarrow> ret 0
         | Some c \<Rightarrow> lift_r (checked_result c [] ranges)))))"

definition preload_once :: "exfat_layout \<Rightarrow> pystr \<Rightarrow> prefetch_config option \<Rightarrow> (nbdsh, int) prog" where
  \<comment> \<open>\<open>preload\<close> without a stop event\<close>
  "preload_once l socket_path policy =
     (let ranges = hot_ranges_for l (case policy of None \<Rightarrow> default_prefetch | Some p \<Rightarrow> p)
      in bindp (\<lambda>s. (nb_run s (nb_count s) (build_nbdsh_command socket_path ranges), s\<lparr>nb_count := Suc (nb_count s)\<rparr>))
           (\<lambda>(code, stderr). lift_r (checked_result code stderr ranges)))"

definition preload_caught :: "(nbdsh, int) prog \<Rightarrow> (nbdsh, int) prog" where
  \<comment> \<open>the handler around both modes\<close>
  "preload_caught m = catchp m (\<lambda>e. case e of
     TimeoutExpired \<Rightarrow> raise_p (PreloadError (lit ''nbdsh metadata preload timed out''))
   | _ \<Rightarrow> raise_p e)"

section \<open>The worker\<close>

record prefetch_worker =
  pw_layout :: exfat_layout
  pw_socket_path :: pystr
  pw_policy :: prefetch_config

definition worker_intervals :: "prefetch_config \<Rightarrow> int list" where
  "worker_intervals policy =
     map pc_refresh_interval_seconds (filter pc_enabled [pf_directory_metadata policy, pf_fat policy])"

definition record_pass :: "int \<Rightarrow> (nbdsh, unit) prog" where
  \<comment> \<open>\<open>self.on_pass(requested)\<close>\<close>
  "record_pass requested = modifyp (\<lambda>s. s\<lparr>nb_passes := (nb_clock s, requested) # nb_passes s\<rparr>)"

definition worker_pass :: "prefetch_worker \<Rightarrow> (nbdsh, bool) prog" where
  \<comment> \<open>one turn of the loop up to the wait; \<open>True\<close> when it returns from the loop\<close>
  "worker_pass w = catchp
     (bindp (preload_caught (preload_stoppable (pw_layout w) (pw_socket_path w) (pw_policy w))) (\<lambda>requested.
      bindp getp (\<lambda>s. if stop_set s then ret True else bindp (record_pass requested) (\<lambda>_. ret False))))
     (\<lambda>e. case e of OSError _ \<Rightarrow> ret False | PreloadError _ \<Rightarrow> ret False | _ \<Rightarrow> raise_p e)"

fun worker_loop :: "nat \<Rightarrow> int \<Rightarrow> prefetch_worker \<Rightarrow> (nbdsh, unit) prog" where
  "worker_loop 0 interval w = raise_p OutOfFuel"
| "worker_loop (Suc n) interval w = bindp getp (\<lambda>s.
     if stop_set s then ret ()
     else bindp (worker_pass w) (\<lambda>finished.
       if finished then ret ()
       else bindp (wait_event (1000 * interval)) (\<lambda>stopped.
         if stopped then ret () else worker_loop n interval w)))"

definition worker_run :: "nat \<Rightarrow> prefetch_worker \<Rightarrow> (nbdsh, unit) prog" where
  "worker_run fuel w =
     (case worker_intervals (pw_policy w) of
        [] \<Rightarrow> ret ()
      | i # is \<Rightarrow> worker_loop fuel (foldl min i is) w)"

section \<open>A pass ends and reaps its process\<close>

definition same_run :: "nbdsh \<Rightarrow> nbdsh \<Rightarrow> bool" where
  \<comment> \<open>time only passes\<close>
  "same_run s s' \<longleftrightarrow> nb_stop_at s' = nb_stop_at s \<and> nb_popen s' = nb_popen s \<and> nb_clock s \<le> nb_clock s'"

lemma same_run_refl [simp]: "same_run s s"
  by (simp add: same_run_def)

lemma same_run_trans [trans]: "same_run s t \<Longrightarrow> same_run t u \<Longrightarrow> same_run s u"
  by (simp add: same_run_def)

lemma stop_set_child [simp]: "stop_set (s\<lparr>nb_child := c\<rparr>) = stop_set s" "stop_set (s\<lparr>nb_passes := ps\<rparr>) = stop_set s"
  by (simp_all add: stop_set_def split: option.split)

lemma stop_set_mono: "same_run s t \<Longrightarrow> stop_set s \<Longrightarrow> stop_set t"
  by (auto simp: same_run_def stop_set_def split: option.splits)

lemma wait_event_spec:
  assumes "wait_event ms s = (r, s')" "0 \<le> ms"
  shows "same_run s s' \<and> nb_child s' = nb_child s \<and> nb_passes s' = nb_passes s \<and>
    (r = Inr True \<and> stop_set s' \<or> r = Inr False \<and> \<not> stop_set s' \<and> nb_clock s + ms \<le> nb_clock s')"
  using assms by (auto simp: wait_event_def stop_set_def same_run_def Let_def split: option.splits if_splits)

lemma poll_spec:
  assumes "poll s = (r, s')"
  shows "same_run s s' \<and> nb_clock s' = nb_clock s \<and> nb_passes s' = nb_passes s \<and>
    (r = Inr None \<or> (\<exists>c. r = Inr (Some c) \<and> nb_child s' = None))"
  using assms by (auto simp: poll_def same_run_def split: option.splits if_splits)

lemma await_child_spec:
  assumes "deadline - nb_clock s \<le> 100 * int n" "await_child (Suc n) deadline s = (r, s')"
  shows "same_run s s' \<and> nb_child s' = None \<and> nb_passes s' = nb_passes s \<and>
    (case r of Inl e \<Rightarrow> e = PreloadError (lit ''nbdsh metadata preload timed out'')
     | Inr None \<Rightarrow> stop_set s' | Inr (Some c) \<Rightarrow> True)"
  using assms
proof (induction n arbitrary: s)
  case (0 s)
  obtain c s1 where p: "poll s = (c, s1)" by fastforce
  obtain b s2 where w: "wait_event 100 s1 = (b, s2)" by fastforce
  note ps = poll_spec [OF p] and ws = wait_event_spec [OF w]
  show ?case
  proof (cases "c = Inr None")
    case True
    with ws ps 0 p w show ?thesis
      by (auto simp: bindp_def kill_child_def same_run_def simp del: lit_Cons)
  next
    case False
    with ps 0 p show ?thesis by (auto simp: bindp_def)
  qed
next
  case (Suc n s)
  obtain c s1 where p: "poll s = (c, s1)" by fastforce
  obtain b s2 where w: "wait_event 100 s1 = (b, s2)" by fastforce
  note ps = poll_spec [OF p] and ws = wait_event_spec [OF w]
  note step = await_child.simps(2) [of "Suc n"]
  show ?case
  proof (cases "c = Inr None")
    case False
    with ps Suc.prems p show ?thesis by (auto simp: step bindp_def simp del: await_child.simps)
  next
    case True
    show ?thesis
    proof (cases "b = Inr True \<or> deadline \<le> nb_clock s2")
      case True
      with ws ps \<open>c = Inr None\<close> Suc.prems p w show ?thesis
        by (auto simp: step bindp_def kill_child_def same_run_def simp del: await_child.simps lit_Cons)
    next
      case False
      then have b: "b = Inr False" "nb_clock s1 + 100 \<le> nb_clock s2" using ws by auto
      have "await_child (Suc n) deadline s2 = (r, s')"
        using Suc.prems(2) p w \<open>c = Inr None\<close> b(1) False
        by (simp add: step bindp_def del: await_child.simps)
      moreover have "deadline - nb_clock s2 \<le> 100 * int n" using Suc.prems(1) b(2) ps by simp
      ultimately show ?thesis using Suc.IH [of s2] ps ws by (auto dest: same_run_trans)
    qed
  qed
qed

lemma preload_stoppable_spec:
  assumes "preload_stoppable l socket policy s = (r, s')" "nb_child s = None"
  shows "same_run s s' \<and> nb_child s' = None \<and> nb_passes s' = nb_passes s \<and>
    (case r of
       Inl e \<Rightarrow> (\<exists>m. e = PreloadError m) \<or>
         nb_popen s (nb_count s) (build_nbdsh_command socket (hot_ranges_for l policy)) = Inl e
     | Inr n \<Rightarrow> n = total_length (hot_ranges_for l policy) \<or> stop_set s')"
proof -
  let ?ranges = "hot_ranges_for l policy"
  obtain q s1 where p: "popen (build_nbdsh_command socket ?ranges) s = (q, s1)" by fastforce
  then have ps: "same_run s s1 \<and> nb_passes s1 = nb_passes s \<and>
      (case q of Inl e \<Rightarrow> nb_child s1 = None \<and> nb_popen s (nb_count s) (build_nbdsh_command socket ?ranges) = Inl e
       | Inr _ \<Rightarrow> True)"
    using assms(2) by (auto simp: popen_def same_run_def split: sum.splits)
  show ?thesis
  proof (cases q)
    case (Inl e)
    with ps assms(1) p show ?thesis by (auto simp: preload_stoppable_def Let_def bindp_def)
  next
    case (Inr u)
    obtain c s2 where a: "await_child 601 (nb_clock s1 + 60000) s1 = (c, s2)" by fastforce
    have as: "same_run s1 s2 \<and> nb_child s2 = None \<and> nb_passes s2 = nb_passes s1 \<and>
      (case c of Inl e \<Rightarrow> e = PreloadError (lit ''nbdsh metadata preload timed out'')
       | Inr None \<Rightarrow> stop_set s2 | Inr (Some c) \<Rightarrow> True)"
    proof (rule await_child_spec)
      show "await_child (Suc 600) (nb_clock s1 + 60000) s1 = (c, s2)" using a by (simp del: await_child.simps)
    qed simp
    have "(r, s') = (case c of Inl e \<Rightarrow> (Inl e, s2) | Inr None \<Rightarrow> (Inr 0, s2) | Inr (Some k) \<Rightarrow> (checked_result k [] ?ranges, s2))"
      using assms(1) p Inr a by (auto simp: preload_stoppable_def Let_def bindp_def split: sum.splits option.splits)
    with as ps Inr show ?thesis
      by (auto simp: checked_result_def split: sum.splits option.splits if_splits simp del: lit_Cons
          dest: same_run_trans)
  qed
qed

section \<open>The worker stops, and records nothing once stopped\<close>

definition recorded :: "prefetch_worker \<Rightarrow> nbdsh \<Rightarrow> nbdsh \<Rightarrow> bool" where
  \<comment> \<open>the passes recorded between two states: all before the stop, each for all hot ranges\<close>
  "recorded w s s' \<longleftrightarrow> (\<exists>new. nb_passes s' = new @ nb_passes s \<and>
     list_all (\<lambda>(t, n). (\<forall>stop. nb_stop_at s = Some stop \<longrightarrow> t < stop) \<and>
       n = total_length (hot_ranges_for (pw_layout w) (pw_policy w))) new)"

lemma recorded_refl [simp]: "nb_passes s' = nb_passes s \<Longrightarrow> recorded w s s'"
  by (simp add: recorded_def)

lemma recorded_trans:
  assumes "recorded w s t" "recorded w t u" "nb_stop_at t = nb_stop_at s"
  shows "recorded w s u"
proof -
  obtain a where "nb_passes t = a @ nb_passes s" "list_all (\<lambda>(t, n). (\<forall>stop. nb_stop_at s = Some stop \<longrightarrow> t < stop) \<and>
       n = total_length (hot_ranges_for (pw_layout w) (pw_policy w))) a"
    using assms(1) unfolding recorded_def by blast
  moreover obtain b where "nb_passes u = b @ nb_passes t" "list_all (\<lambda>(t, n). (\<forall>stop. nb_stop_at s = Some stop \<longrightarrow> t < stop) \<and>
       n = total_length (hot_ranges_for (pw_layout w) (pw_policy w))) b"
    using assms(2,3) unfolding recorded_def by auto
  ultimately show ?thesis unfolding recorded_def by (intro exI [of _ "b @ a"]) simp
qed

definition no_marker :: "nbdsh \<Rightarrow> bool" where
  \<comment> \<open>starting a process never answers with the model's own mark\<close>
  "no_marker s \<longleftrightarrow> (\<forall>n c. nb_popen s n c \<noteq> Inl OutOfFuel)"

lemma no_marker_same: "same_run s t \<Longrightarrow> no_marker s \<Longrightarrow> no_marker t"
  by (simp add: same_run_def no_marker_def)

lemma worker_pass_spec:
  assumes "worker_pass w s = (r, s')" "nb_child s = None" "no_marker s"
  shows "same_run s s' \<and> nb_child s' = None \<and> recorded w s s' \<and> r \<noteq> Inl OutOfFuel"
proof -
  obtain q s1 where p: "preload_stoppable (pw_layout w) (pw_socket_path w) (pw_policy w) s = (q, s1)" by fastforce
  note ps = preload_stoppable_spec [OF p assms(2)]
  show ?thesis
  proof (cases q)
    case (Inl e)
    have "e \<noteq> OutOfFuel" using ps Inl assms(3) by (auto simp: no_marker_def)
    then show ?thesis using assms(1) p ps Inl
      by (cases e) (auto simp: worker_pass_def preload_caught_def catchp_def bindp_def simp del: lit_Cons)
  next
    case (Inr n)
    show ?thesis
    proof (cases "stop_set s1")
      case True
      then show ?thesis using assms(1) p ps Inr
        by (auto simp: worker_pass_def preload_caught_def catchp_def bindp_def)
    next
      case False
      then have n: "n = total_length (hot_ranges_for (pw_layout w) (pw_policy w))" using ps Inr by simp
      have s': "s' = s1\<lparr>nb_passes := (nb_clock s1, n) # nb_passes s1\<rparr>" "r = Inr False"
        using assms(1) p Inr False
        by (auto simp: worker_pass_def preload_caught_def catchp_def bindp_def record_pass_def)
      have "recorded w s s'"
        unfolding recorded_def using ps n False s'
        by (intro exI [of _ "[(nb_clock s1, n)]"]) (auto simp: stop_set_def same_run_def)
      then show ?thesis using ps s' by (simp add: same_run_def)
    qed
  qed
qed

lemma worker_loop_spec:
  assumes "worker_loop n interval w s = (r, s')" "nb_child s = None" "no_marker s" "0 \<le> interval"
  shows "same_run s s' \<and> nb_child s' = None \<and> recorded w s s' \<and>
    (\<forall>stop. nb_stop_at s = Some stop \<and> 1 \<le> interval \<and> stop - nb_clock s < 1000 * int n \<and> 0 < n \<longrightarrow> r \<noteq> Inl OutOfFuel)"
  using assms
proof (induction n arbitrary: s)
  case 0
  then show ?case by simp
next
  case (Suc n s)
  show ?case
  proof (cases "stop_set s")
    case True
    then show ?thesis using Suc.prems by (auto simp: bindp_def)
  next
    case ns: False
    obtain f s1 where p: "worker_pass w s = (f, s1)" by fastforce
    note ps = worker_pass_spec [OF p Suc.prems(2,3)]
    show ?thesis
    proof (cases "f = Inr False")
      case False
      with ns p ps Suc.prems(1) show ?thesis by (cases f) (auto simp: bindp_def)
    next
      case True
      obtain b s2 where wt: "wait_event (1000 * interval) s1 = (b, s2)" by fastforce
      have ws: "same_run s1 s2" "nb_child s2 = nb_child s1" "nb_passes s2 = nb_passes s1"
          "b = Inr True \<or> b = Inr False \<and> \<not> stop_set s2 \<and> nb_clock s1 + 1000 * interval \<le> nb_clock s2"
        using wait_event_spec [OF wt] Suc.prems(4) by auto
      have run2: "same_run s s2" using ps ws(1) by (blast intro: same_run_trans)
      have rec2: "recorded w s s2" using ps ws(1,3) recorded_trans [of w s s1 s2] by (simp add: same_run_def)
      show ?thesis
      proof (cases "b = Inr True")
        case True
        then show ?thesis using ns p \<open>f = Inr False\<close> wt Suc.prems(1) run2 rec2 ps ws by (auto simp: bindp_def)
      next
        case False
        then have b: "b = Inr False" "\<not> stop_set s2" "nb_clock s1 + 1000 * interval \<le> nb_clock s2" using ws(4) by auto
        have "worker_loop n interval w s2 = (r, s')"
          using Suc.prems(1) ns p \<open>f = Inr False\<close> wt b(1) by (simp add: bindp_def)
        from Suc.IH [OF this _ no_marker_same [OF run2 Suc.prems(3)] Suc.prems(4)] ps ws(2)
        have ih: "same_run s2 s' \<and> nb_child s' = None \<and> recorded w s2 s' \<and>
          (\<forall>stop. nb_stop_at s2 = Some stop \<and> 1 \<le> interval \<and> stop - nb_clock s2 < 1000 * int n \<and> 0 < n \<longrightarrow> r \<noteq> Inl OutOfFuel)"
          by simp
        have ends: "r \<noteq> Inl OutOfFuel" if "nb_stop_at s = Some stop" "1 \<le> interval" "stop - nb_clock s < 1000 * int (Suc n)" for stop
        proof -
          have "nb_stop_at s2 = Some stop" using that(1) run2 by (simp add: same_run_def)
          moreover from this b(2) have "nb_clock s2 < stop" by (simp add: stop_set_def)
          moreover have "stop - nb_clock s2 < 1000 * int n"
            using that b(3) ps by (simp add: same_run_def)
          ultimately show ?thesis using ih that(2) by auto
        qed
        have "recorded w s s'" using recorded_trans [OF rec2] ih run2 by (simp add: same_run_def)
        moreover have "same_run s s'" using run2 ih by (blast intro: same_run_trans)
        ultimately show ?thesis using ih ends by auto
      qed
    qed
  qed
qed

lemma worker_run_spec:
  assumes "worker_run n w s = (r, s')" "nb_child s = None" "no_marker s"
    and "list_all (\<lambda>i. 0 \<le> i) (worker_intervals (pw_policy w))"
  shows "nb_child s' = None" "recorded w s s'"
    and "nb_stop_at s = Some stop \<Longrightarrow> list_all (\<lambda>i. 1 \<le> i) (worker_intervals (pw_policy w)) \<Longrightarrow>
      stop - nb_clock s < 1000 * int n \<Longrightarrow> 0 < n \<Longrightarrow> r \<noteq> Inl OutOfFuel"
proof -
  have least: "k \<le> foldl min i is" if "list_all (\<lambda>i. k \<le> i) (i # is)" for k i :: int and "is" :: "int list"
    using that by (induction "is" arbitrary: i) auto
  have "nb_child s' = None \<and> recorded w s s' \<and> (nb_stop_at s = Some stop \<longrightarrow>
      list_all (\<lambda>i. 1 \<le> i) (worker_intervals (pw_policy w)) \<longrightarrow> stop - nb_clock s < 1000 * int n \<longrightarrow> 0 < n \<longrightarrow> r \<noteq> Inl OutOfFuel)"
  proof (cases "worker_intervals (pw_policy w)")
    case Nil
    then show ?thesis using assms by (auto simp: worker_run_def)
  next
    case (Cons i "is")
    then have "worker_loop n (foldl min i is) w s = (r, s')" using assms(1) by (simp add: worker_run_def)
    from worker_loop_spec [OF this assms(2,3)] least [of 0 i "is"] least [of 1 i "is"] assms(4) Cons
    show ?thesis by auto
  qed
  then show "nb_child s' = None" "recorded w s s'"
    "nb_stop_at s = Some stop \<Longrightarrow> list_all (\<lambda>i. 1 \<le> i) (worker_intervals (pw_policy w)) \<Longrightarrow>
      stop - nb_clock s < 1000 * int n \<Longrightarrow> 0 < n \<Longrightarrow> r \<noteq> Inl OutOfFuel" by blast+
qed

end
