(* ===== verification/Service.thy ===== *)
theory Service
  imports ConfiguredVolume NbdPlugin MountManager NbdkitManager GadgetFacts Preloader
begin

text \<open>
  \<open>service.py\<close>: generations of compiled configurations, their activation on the hardware,
  and the queries of the control plane. What the service calls but does not define (the YAML
  and JSON parsers, \<open>pickle\<close>, the case mapping of \<open>str\<close>, new UUIDs, the view of the mounted
  trees as a scan sees them) is the record \<^verbatim>\<open>environment\<close>.
\<close>

section \<open>State\<close>

record environment =
  ev_fs :: "tree \<Rightarrow> source_fs"
  ev_limit :: nat
  ev_upper :: "int \<Rightarrow> pystr"
  ev_yaml_load :: "pystr \<Rightarrow> yaml result"
  ev_json_loads :: "pystr \<Rightarrow> yaml result"
  ev_alnum :: "int \<Rightarrow> bool"
  ev_repr :: "yaml \<Rightarrow> pystr"
  ev_lower :: "pystr \<Rightarrow> pystr"
  ev_uuid :: "nat \<Rightarrow> pystr"
  ev_dumps :: "layout_state \<Rightarrow> bytes"
  ev_pid :: int
  ev_text :: "py_error \<Rightarrow> pystr" \<comment> \<open>\<open>str\<close> of a built-in exception\<close>

record generation =
  gen_number :: int
  gen_config :: config
  gen_layout :: exfat_layout \<comment> \<open>the mapper, which never reads a source in this process\<close>
  gen_created_at :: int

record service =
  sv_config_path :: pystr
  sv_state_path :: pystr
  sv_nbd :: nbdkit_manager
  sv_gadget :: gadget
  sv_active :: "generation option"
  sv_compiled :: "(int \<times> generation) list"
  sv_next_generation :: int
  sv_prefetch_bytes_requested :: int
  sv_prefetch_passes :: int
  sv_state :: pystr
  sv_state_detail :: pystr
  sv_locked :: bool \<comment> \<open>\<open>_sync_reload_lock\<close>\<close>
  sv_worker :: "prefetch_worker option"
  sv_started_at :: "int option"
  sv_host :: host

definition default_gadget :: gadget where
  "default_gadget = new_gadget (lit ''/sys/kernel/config/usb_gadget'') (lit ''/sys/class/udc'')
     (lit ''/etc/remotepfs/serial'')"

definition new_service :: "pystr \<Rightarrow> pystr \<Rightarrow> host \<Rightarrow> service" where
  "new_service config_path state_path h =
     \<lparr>sv_config_path = config_path, sv_state_path = state_path,
      sv_nbd = default_nbdkit_manager\<lparr>nm_state_path := state_path\<rparr>, sv_gadget = default_gadget,
      sv_active = None, sv_compiled = [], sv_next_generation = 1, sv_prefetch_bytes_requested = 0,
      sv_prefetch_passes = 0, sv_state = lit ''starting'', sv_state_detail = lit ''not_started'',
      sv_locked = False, sv_worker = None, sv_started_at = None, sv_host = h\<rparr>"

definition on_host :: "(host, 'a) prog \<Rightarrow> (service, 'a) prog" where
  "on_host m s = (case m (sv_host s) of (r, h) \<Rightarrow> (r, s\<lparr>sv_host := h\<rparr>))"

definition now :: "(service, int) prog" where
  "now s = (Inr (h_clock (sv_host s)), s)"

definition on_linux :: "(service, bool) prog" where
  \<comment> \<open>\<open>platform.system() == "Linux"\<close>\<close>
  "on_linux s = (Inr (h_linux (sv_host s)), s)"

definition finallyp :: "('s, 'a) prog \<Rightarrow> ('s \<Rightarrow> 's) \<Rightarrow> ('s, 'a) prog" where
  "finallyp m f s = (case m s of (r, s') \<Rightarrow> (r, f s'))"

definition error_text :: "environment \<Rightarrow> py_error \<Rightarrow> pystr" where
  \<comment> \<open>\<open>str(exc)\<close>\<close>
  "error_text ev e =
     (case e of ConfigError m _ \<Rightarrow> m | MountError m \<Rightarrow> m | NbdkitError m \<Rightarrow> m | GadgetError m \<Rightarrow> m
      | PreloadError m \<Rightarrow> m | RuntimeError m \<Rightarrow> m | _ \<Rightarrow> ev_text ev e)"

section \<open>Compiling\<close>

definition mount_missing :: "source_config \<Rightarrow> (host, unit) prog" where
  "mount_missing source = bindp (is_mounted (sc_mount_point source)) (\<lambda>mounted.
     if mounted then ret () else mount_source source)"

definition check_source :: "entry_config \<Rightarrow> (host, unit) prog" where
  "check_source entry =
     (let source = path_of (ec_source entry);
          bad = (\<lambda>text. raise_p (ConfigError (ec_source entry @ lit text) (Some (lit ''entries.source''))))
      in bindp (path_exists source) (\<lambda>present.
         if \<not> present then bad '': source path does not exist''
         else bindp (if ec_type entry = EntryFile then is_file source else ret True) (\<lambda>file.
         if \<not> file then bad '': expected file''
         else bindp (if ec_type entry = EntryDirectory then is_dir source else ret True) (\<lambda>dir.
         if \<not> dir then bad '': expected directory'' else ret ()))))"

definition prepare_sources :: "config \<Rightarrow> (host, unit) prog" where
  "prepare_sources c = bindp getp (\<lambda>h.
     bindp (if h_linux h then iterp mount_missing (cf_sources c) else ret ()) (\<lambda>_.
     iterp check_source (cf_entries c)))"

definition compile_begin :: "environment \<Rightarrow> config \<Rightarrow> (service, generation) prog" where
  \<comment> \<open>\<open>_compile\<close> up to the new generation object, which carries the number read here\<close>
  "compile_begin ev c =
     bindp (on_host (prepare_sources c)) (\<lambda>_.
     bindp getp (\<lambda>s.
     bindp (lift_r (build_exfat (ev_fs ev (h_tree (sv_host s))) (ev_limit ev) (ev_upper ev) c)) (\<lambda>layout.
     ret \<lparr>gen_number = sv_next_generation s, gen_config = c, gen_layout = layout,
       gen_created_at = h_clock (sv_host s)\<rparr>)))"

definition compile_commit :: "generation \<Rightarrow> (service, unit) prog" where
  \<comment> \<open>the rest: the counter is read again and the generation is stored\<close>
  "compile_commit g = modifyp (\<lambda>s. s\<lparr>sv_next_generation := sv_next_generation s + 1,
     sv_compiled := AList.update (gen_number g) g (sv_compiled s)\<rparr>)"

definition compile :: "environment \<Rightarrow> config \<Rightarrow> (service, generation) prog" where
  "compile ev c = bindp (compile_begin ev c) (\<lambda>g. bindp (compile_commit g) (\<lambda>_. ret g))"

record compiled_info =
  ci_status :: pystr
  ci_generation :: int
  ci_warnings :: "pystr list"
  ci_size_bytes :: int

definition read_config :: "environment \<Rightarrow> pystr \<Rightarrow> config result" where
  "read_config ev text =
     (if prefix [123] (lstrip text)
      then (case ev_json_loads ev text of
              Inl (JSONDecodeError m) \<Rightarrow> Inl (ConfigError (lit ''JSON parse error: '' @ m) None)
            | Inl e \<Rightarrow> Inl e
            | Inr raw \<Rightarrow> validate (ev_alnum ev) (ev_repr ev) raw)
      else parse (ev_yaml_load ev) (ev_alnum ev) (ev_repr ev) text)"

definition compile_config :: "environment \<Rightarrow> pystr \<Rightarrow> (service, compiled_info) prog" where
  "compile_config ev text =
     bindp (lift_r (read_config ev text)) (\<lambda>c.
     bindp (compile ev c) (\<lambda>g.
     ret \<lparr>ci_status = lit ''compiled'', ci_generation = gen_number g, ci_warnings = [], ci_size_bytes = total_bytes (gen_layout g)\<rparr>))"

section \<open>Activating\<close>

definition join_worker :: "(host, unit) prog" where
  \<comment> \<open>\<open>thread.join(timeout=5)\<close>: returns when the thread has ended, or after 5 s\<close>
  "join_worker h =
     (Inr (), h\<lparr>h_calls := Suc (h_calls h), h_clock := h_clock h + min 5000 (int (h_oversleep h (h_calls h))),
        h_tree := h_sleep h (h_calls h) (h_tree h)\<rparr>)"

definition stop_prefetch_worker :: "(service, unit) prog" where
  \<comment> \<open>the thread may outlive the join; its last report is a step of the interleaving\<close>
  "stop_prefetch_worker = bindp getp (\<lambda>s.
     case sv_worker s of
       None \<Rightarrow> ret ()
     | Some _ \<Rightarrow> bindp (on_host join_worker) (\<lambda>_. modifyp (\<lambda>s. s\<lparr>sv_worker := None\<rparr>)))"

definition start_prefetch_worker :: "generation \<Rightarrow> (service, unit) prog" where
  "start_prefetch_worker g =
     bindp stop_prefetch_worker (\<lambda>_.
     modifyp (\<lambda>s. s\<lparr>sv_worker := Some \<lparr>pw_layout = gen_layout g, pw_socket_path = nm_socket_path (sv_nbd s),
       pw_policy = cf_prefetch (gen_config g)\<rparr>\<rparr>))"

definition record_enter :: "service \<Rightarrow> service option" where
  \<comment> \<open>\<open>with self._sync_reload_lock\<close>: the worker's thread waits while the lock is held\<close>
  "record_enter s = (if sv_locked s then None else Some (s\<lparr>sv_locked := True\<rparr>))"

definition record_leave :: "int \<Rightarrow> service \<Rightarrow> service" where
  \<comment> \<open>the body, and the lock released\<close>
  "record_leave requested s =
     s\<lparr>sv_prefetch_bytes_requested := sv_prefetch_bytes_requested s + requested,
       sv_prefetch_passes := sv_prefetch_passes s + 1, sv_locked := False\<rparr>"

definition record_prefetch :: "int \<Rightarrow> service \<Rightarrow> service option" where
  \<comment> \<open>both at once, \<open>None\<close> while the thread has to wait\<close>
  "record_prefetch requested s = map_option (record_leave requested) (record_enter s)"

definition temporary_name :: "int \<Rightarrow> path \<Rightarrow> path" where
  "temporary_name pid p = (fst p, butlast (snd p) @ [path_name p @ lit ''.tmp.'' @ show_int pid])"

definition publish_state :: "int \<Rightarrow> pystr \<Rightarrow> bytes \<Rightarrow> (host, unit) prog" where
  \<comment> \<open>the mapper state goes to a temporary file that then replaces the old one\<close>
  "publish_state pid state_path payload =
     (let state_file = path_of state_path; temporary_state = temporary_name pid state_file
      in bindp (make_dir (parent state_file)) (\<lambda>_.
         if path_name state_file = [] then raise_p (ValueError (lit ''empty name''))
         else bindp (write_bytes temporary_state payload) (\<lambda>_.
         bindp getp (\<lambda>h.
         case h_group h of
           None \<Rightarrow> raise_p (KeyError (lit ''remotepfs''))
         | Some gid \<Rightarrow>
             bindp (chown_group temporary_state gid) (\<lambda>_.
             bindp (chmod temporary_state 0x1A0) (\<lambda>_.
             replace_file temporary_state state_file))))))"

definition teardown :: "environment \<Rightarrow> (service, unit) prog" where
  "teardown ev = bindp getp (\<lambda>s.
     bindp (on_host (unbind (ev_limit ev) (sv_gadget s))) (\<lambda>_.
     on_host (nbdkit_stop (sv_nbd s))))"

definition activate_hardware :: "environment \<Rightarrow> generation \<Rightarrow> bool \<Rightarrow> (service, unit) prog" where
  "activate_hardware ev g cold_start =
     bindp (if cold_start then ret () else teardown ev) (\<lambda>_.
     bindp getp (\<lambda>s.
     bindp (on_host (publish_state (ev_pid ev) (sv_state_path s) (ev_dumps ev (to_state (gen_layout g))))) (\<lambda>_.
     bindp (on_host (nbdkit_start (sv_nbd s) (image_size_bytes (gen_config g)) (sv_state_path s) False)) (\<lambda>_.
     bindp (on_host (nbd_connect (sv_nbd s))) (\<lambda>_.
     bindp (on_host (\<lambda>h. bind_gadget (ev_lower ev) (ev_uuid ev (h_calls h)) (ev_limit ev) (sv_gadget s)
       (lit ''/dev/nbd0'') (Some (cf_usb_port (gen_config g))) h)) (\<lambda>_.
     start_prefetch_worker g))))))"

definition go_live :: "environment \<Rightarrow> generation \<Rightarrow> bool \<Rightarrow> (service, unit) prog" where
  \<comment> \<open>the common part of \<open>startup\<close> and \<open>activate_generation\<close>\<close>
  "go_live ev g cold_start =
     bindp on_linux (\<lambda>linux.
     bindp (if linux then activate_hardware ev g cold_start else ret ()) (\<lambda>_.
     modifyp (\<lambda>s. s\<lparr>sv_active := Some g, sv_state := lit ''running'',
       sv_state_detail := (if linux then lit ''serving'' else lit ''software_only_macos'')\<rparr>)))"

definition load_config :: "environment \<Rightarrow> (service, config) prog" where
  \<comment> \<open>\<open>load(self.config_path)\<close>\<close>
  "load_config ev s =
     (case read_text (path_of (sv_config_path s)) (sv_host s) of (r, h) \<Rightarrow>
        (load (\<lambda>_. r) (\<lambda>n. os_error_text h n (path_of (sv_config_path s))) (ev_yaml_load ev) (ev_alnum ev)
           (ev_repr ev) (sv_config_path s), s\<lparr>sv_host := h\<rparr>))"

definition startup_catches :: "py_error \<Rightarrow> bool" where
  \<comment> \<open>\<open>except (ConfigError, OSError, RuntimeError)\<close>\<close>
  "startup_catches e \<longleftrightarrow>
     is_runtime_error e \<or> (case e of ConfigError _ _ \<Rightarrow> True | OSError _ \<Rightarrow> True | _ \<Rightarrow> False)"

definition startup :: "environment \<Rightarrow> (service, unit) prog" where
  "startup ev =
     bindp (modifyp (\<lambda>s. s\<lparr>sv_started_at := Some (h_clock (sv_host s))\<rparr>)) (\<lambda>_.
     catchp
       (bindp (load_config ev) (\<lambda>c. bindp (compile ev c) (\<lambda>g. go_live ev g True)))
       (\<lambda>e. if startup_catches e
            then modifyp (\<lambda>s. s\<lparr>sv_state := lit ''degraded'', sv_state_detail := error_text ev e\<rparr>)
            else raise_p e))"

record activated_info =
  ai_status :: pystr
  ai_generation :: int
  ai_reload_time_ms :: int
  ai_warnings :: "pystr list"

definition acquire_reload :: "int \<Rightarrow> (service, generation) prog" where
  "acquire_reload generation_id = bindp getp (\<lambda>s.
     case map_of (sv_compiled s) generation_id of
       None \<Rightarrow> raise_p (ConfigError (lit ''unknown generation '' @ show_int generation_id) (Some (lit ''generation'')))
     | Some g \<Rightarrow>
         if sv_locked s then raise_p (RuntimeError (lit ''another reload is already running''))
         else bindp (modifyp (\<lambda>s. s\<lparr>sv_locked := True\<rparr>)) (\<lambda>_. ret g))"

definition cutover :: "environment \<Rightarrow> generation \<Rightarrow> int \<Rightarrow> (service, activated_info) prog" where
  \<comment> \<open>the \<open>try\<close> of \<open>activate_generation\<close> with its \<open>finally\<close>\<close>
  "cutover ev g started = finallyp
     (bindp (go_live ev g False) (\<lambda>_. bindp now (\<lambda>t.
      ret \<lparr>ai_status = lit ''activated'', ai_generation = gen_number g, ai_reload_time_ms = t - started,
        ai_warnings = []\<rparr>)))
     (\<lambda>s. s\<lparr>sv_locked := False\<rparr>)"

definition activate_generation :: "environment \<Rightarrow> int \<Rightarrow> (service, activated_info) prog" where
  "activate_generation ev generation_id =
     bindp (acquire_reload generation_id) (\<lambda>g. bindp now (\<lambda>started. cutover ev g started))"

definition replace_config :: "environment \<Rightarrow> pystr \<Rightarrow> (service, activated_info) prog" where
  "replace_config ev text =
     bindp (compile_config ev text) (\<lambda>result.
     bindp (activate_generation ev (ci_generation result)) (\<lambda>activated.
     ret (activated\<lparr>ai_status := lit ''applied'', ai_warnings := ci_warnings result\<rparr>)))"

definition reload_config :: "environment \<Rightarrow> (service, activated_info) prog" where
  "reload_config ev = bindp getp (\<lambda>s.
     bindp (on_host (read_text (path_of (sv_config_path s)))) (\<lambda>text. replace_config ev text))"

section \<open>Stopping\<close>

definition ignoring :: "('s, unit) prog \<Rightarrow> ('s, unit) prog" where
  \<comment> \<open>\<open>try: m except Exception: pass\<close>\<close>
  "ignoring m = catchp m (\<lambda>_. ret ())"

definition shutdown :: "environment \<Rightarrow> (service, unit) prog" where
  "shutdown ev = bindp stop_prefetch_worker (\<lambda>_. bindp getp (\<lambda>s.
     bindp (ignoring (on_host (unbind (ev_limit ev) (sv_gadget s)))) (\<lambda>_.
     bindp (ignoring (on_host (nbdkit_stop (sv_nbd s)))) (\<lambda>_.
     modifyp (\<lambda>s. s\<lparr>sv_state := lit ''stopped'', sv_state_detail := lit ''shutdown''\<rparr>)))))"

definition eject :: "environment \<Rightarrow> (service, unit) prog" where
  "eject ev = bindp stop_prefetch_worker (\<lambda>_. bindp getp (\<lambda>s.
     bindp (on_host (gadget_eject (sv_gadget s))) (\<lambda>_.
     on_host (unbind (ev_limit ev) (sv_gadget s)))))"

end
