(* ===== verification/ServiceFacts.thy ===== *)
theory ServiceFacts
  imports Service
begin

text \<open>
  Facts about the service: what compiling and activating change and leave alone, in every
  outcome, and the step relation of the control plane, in which requests of several threads
  interleave, with its invariant.
\<close>

section \<open>Frames\<close>

definition same_service :: "service \<Rightarrow> service \<Rightarrow> bool" where
  \<comment> \<open>only the host and the prefetch worker may differ\<close>
  "same_service s s' \<longleftrightarrow> s' = s\<lparr>sv_host := sv_host s', sv_worker := sv_worker s'\<rparr>"

lemma same_service_refl [simp]: "same_service s s"
  by (simp add: same_service_def)

lemma same_service_trans: "same_service s t \<Longrightarrow> same_service t u \<Longrightarrow> same_service s u"
  unfolding same_service_def by (cases s, cases t, cases u) simp

lemma same_service_host [simp]: "same_service s (s\<lparr>sv_host := h\<rparr>)"
  by (simp add: same_service_def)

lemma same_service_fields:
  assumes "same_service s s'"
  shows "sv_active s' = sv_active s" "sv_compiled s' = sv_compiled s"
    "sv_next_generation s' = sv_next_generation s" "sv_state s' = sv_state s"
    "sv_state_detail s' = sv_state_detail s" "sv_locked s' = sv_locked s"
    "sv_prefetch_bytes_requested s' = sv_prefetch_bytes_requested s"
    "sv_prefetch_passes s' = sv_prefetch_passes s"
  using assms unfolding same_service_def by (cases s, cases s', simp)+

definition hardware_only :: "(service, 'a) prog \<Rightarrow> bool" where
  "hardware_only m \<longleftrightarrow> (\<forall>s. same_service s (snd (m s)))"

lemma hardware_onlyD: "hardware_only m \<Longrightarrow> m s = (r, s') \<Longrightarrow> same_service s s'"
  unfolding hardware_only_def by (metis snd_conv)

lemma hardware_only_unit [host_intros]:
  "hardware_only (ret x)" "hardware_only (raise_p e)" "hardware_only (lift_r r)" "hardware_only getp"
  "hardware_only now" "hardware_only on_linux"
  by (simp_all add: hardware_only_def now_def on_linux_def)

lemma hardware_only_on_host [host_intros]: "hardware_only (on_host m)"
  by (simp add: hardware_only_def on_host_def split: prod.split)

lemma hardware_only_bindp [host_intros]:
  assumes "hardware_only m" "\<And>x. hardware_only (f x)"
  shows "hardware_only (bindp m f)"
  unfolding hardware_only_def
proof
  fix s
  obtain r t where m: "m s = (r, t)" by fastforce
  have "same_service s t" by (rule hardware_onlyD [OF assms(1) m])
  moreover have "same_service t (snd (f x t))" for x using assms(2) by (simp add: hardware_only_def)
  ultimately show "same_service s (snd (bindp m f s))"
    using m by (cases r) (auto simp: bindp_def intro: same_service_trans)
qed

lemma hardware_only_if [host_intros]: "hardware_only a \<Longrightarrow> hardware_only b \<Longrightarrow> hardware_only (if c then a else b)"
  by simp

lemma hardware_only_ignoring [host_intros]: "hardware_only m \<Longrightarrow> hardware_only (ignoring m)"
  unfolding ignoring_def
  by (auto simp: hardware_only_def catchp_def split: prod.split sum.split dest: hardware_onlyD [unfolded hardware_only_def])

lemma hardware_only_worker [host_intros]:
  "hardware_only stop_prefetch_worker" "hardware_only (start_prefetch_worker g)"
proof -
  have m: "hardware_only (modifyp (\<lambda>s. s\<lparr>sv_worker := f s\<rparr>))" for f
    by (simp add: hardware_only_def same_service_def)
  show stop: "hardware_only stop_prefetch_worker"
    unfolding stop_prefetch_worker_def
    by (intro host_intros) (auto split: option.split intro!: host_intros m)
  show "hardware_only (start_prefetch_worker g)"
    unfolding start_prefetch_worker_def by (intro host_intros stop m)
qed

lemma stop_prefetch_worker_outcome:
  assumes "stop_prefetch_worker s = (r, s')"
  shows "r = Inr ()" "sv_worker s' = None"
  using assms by (auto simp: stop_prefetch_worker_def bindp_def on_host_def join_worker_def split: option.splits)

lemma hardware_only_activate: "hardware_only (activate_hardware ev g cold)"
  unfolding activate_hardware_def teardown_def by (intro host_intros)

lemma hardware_only_eject: "hardware_only (eject ev)"
  unfolding eject_def by (intro host_intros)

section \<open>Compiling\<close>

lemma build_exfat_size:
  assumes "build_exfat fs limit up c = Inr l"
  shows "total_bytes l = image_size_bytes c"
proof -
  obtain b where b: "new_builder c = Inr b" "build fs limit up b = Inr l"
    using assms by (auto simp: build_exfat_def result_simps)
  from build_parts [OF b(2)] obtain root0 root nxt where "built up b root0 root nxt l" by blast
  then have "total_bytes l = bd_total_bytes b" by (rule builtD)
  with b(1) show ?thesis by (auto simp: new_builder_def Let_def split: if_splits)
qed

lemma compile_begin_outcome:
  assumes "compile_begin ev c s = (r, s')"
  shows "s' = s\<lparr>sv_host := sv_host s'\<rparr> \<and> (\<forall>g. r = Inr g \<longrightarrow>
    gen_number g = sv_next_generation s \<and> gen_config g = c \<and>
    build_exfat (ev_fs ev (h_tree (sv_host s'))) (ev_limit ev) (ev_upper ev) c = Inr (gen_layout g))"
  using assms by (auto simp: compile_begin_def bindp_def on_host_def split: prod.splits sum.splits)

lemma compile_outcome:
  assumes "compile ev c s = (r, s')"
  shows "case r of
      Inl e \<Rightarrow> s' = s\<lparr>sv_host := sv_host s'\<rparr>
    | Inr g \<Rightarrow> gen_number g = sv_next_generation s \<and> gen_config g = c \<and>
        build_exfat (ev_fs ev (h_tree (sv_host s'))) (ev_limit ev) (ev_upper ev) c = Inr (gen_layout g) \<and>
        s' = s\<lparr>sv_host := sv_host s', sv_next_generation := sv_next_generation s + 1,
          sv_compiled := AList.update (gen_number g) g (sv_compiled s)\<rparr>"
  using assms by (auto simp: compile_def compile_begin_def compile_commit_def bindp_def on_host_def
      split: prod.splits sum.splits)

lemma compile_config_outcome:
  assumes "compile_config ev text s = (r, s')"
  shows "case r of
      Inl e \<Rightarrow> s' = s\<lparr>sv_host := sv_host s'\<rparr>
    | Inr i \<Rightarrow> ci_generation i = sv_next_generation s \<and> ci_warnings i = [] \<and>
        (\<exists>g. read_config ev text = Inr (gen_config g) \<and> gen_number g = sv_next_generation s \<and>
          build_exfat (ev_fs ev (h_tree (sv_host s'))) (ev_limit ev) (ev_upper ev) (gen_config g) = Inr (gen_layout g) \<and>
          ci_size_bytes i = total_bytes (gen_layout g) \<and>
          s' = s\<lparr>sv_host := sv_host s', sv_next_generation := sv_next_generation s + 1,
            sv_compiled := AList.update (gen_number g) g (sv_compiled s)\<rparr>)"
proof (cases "read_config ev text")
  case (Inl e)
  then show ?thesis using assms by (auto simp: compile_config_def bindp_def)
next
  case (Inr c)
  obtain q t where q: "compile ev c s = (q, t)" by fastforce
  show ?thesis
  proof (cases q)
    case (Inl e)
    then show ?thesis using assms Inr q compile_outcome [OF q] by (auto simp: compile_config_def bindp_def)
  next
    case g: (Inr g)
    have "s' = t" "r = Inr \<lparr>ci_status = lit ''compiled'', ci_generation = gen_number g, ci_warnings = [], ci_size_bytes = total_bytes (gen_layout g)\<rparr>"
      using assms Inr q g by (simp_all add: compile_config_def bindp_def)
    with compile_outcome [OF q] g Inr show ?thesis
      by (simp, intro exI [of _ g]) metis
  qed
qed

lemma writes_in_mounts: "writes_in P (prepare_sources c)"
proof -
  have run: "writes_in P (run_command cmd)" for cmd
    by (rule writes_in_same) (simp add: run_command_def split: prod.split)
  have credentials: "writes_in P (credentials_path s)" for s
    by (rule writes_in_same)
      (auto simp: credentials_path_def bindp_def Let_def split: option.splits sum.splits py_error.splits)
  have mount: "writes_in P (mount_missing s)" for s
    unfolding mount_missing_def mount_source_def checked_run_def mount_command_def is_mounted_def Let_def case_prod_beta
    by (intro host_intros run credentials) (auto split: py_error.split intro: host_intros)
  have check: "writes_in P (check_source e)" for e
    unfolding check_source_def Let_def by (intro host_intros)
  show ?thesis
    unfolding prepare_sources_def by (intro host_intros writes_in_iterp mount check)
qed

lemma compile_writes:
  assumes "compile_config ev text s = (r, s')"
  shows "h_writes (sv_host s') = h_writes (sv_host s)"
proof (cases "read_config ev text")
  case (Inl e)
  then show ?thesis using assms by (auto simp: compile_config_def bindp_def)
next
  case (Inr c)
  obtain q h where q: "prepare_sources c (sv_host s) = (q, h)" by fastforce
  obtain new where "h_writes h = new @ h_writes (sv_host s)" "list_all (\<lambda>_. False) new"
    by (rule writes_inE [OF writes_in_mounts q])
  then have "h_writes h = h_writes (sv_host s)" by (cases new) simp_all
  moreover have "sv_host s' = h"
    using assms Inr q
    by (auto simp: compile_config_def compile_def compile_begin_def compile_commit_def bindp_def on_host_def split: sum.splits prod.splits)
  ultimately show ?thesis by simp
qed

section \<open>Mounts\<close>

definition mounts_only :: "pystr list \<Rightarrow> bool" where
  \<comment> \<open>a mount command with the option \<open>ro\<close> and without \<open>rw\<close>\<close>
  "mounts_only cmd \<longleftrightarrow> take 1 cmd = [lit ''mount''] \<and> read_only_options (cmd ! 4)"

definition plain_credentials :: "source_config \<Rightarrow> bool" where
  \<comment> \<open>the credentials path has no comma\<close>
  "plain_credentials s \<longleftrightarrow>
     list_all (\<lambda>f. 44 \<notin> set (path_str (path_of f))) (case sc_credentials_file s of None \<Rightarrow> [] | Some f \<Rightarrow> [f])"

lemma syscall_commands:
  assumes "\<And>h x h'. f h = Inr (x, h') \<Longrightarrow> h_commands h' = h_commands h"
  shows "h_commands (snd (syscall op p f h)) = h_commands h"
  by (auto simp: syscall_def Let_def split: option.splits sum.splits prod.splits dest!: assms)

lemma test_node_commands: "h_commands (snd (test_node f p h)) = h_commands h"
proof -
  have "h_commands (snd (stat_node p h)) = h_commands h"
    unfolding stat_node_def by (rule syscall_commands) (auto split: sum.splits prod.splits)
  then show ?thesis
    by (auto simp: test_node_def catchp_def bindp_def split: prod.splits sum.splits)
qed

lemma check_source_commands: "h_commands (snd (check_source e h)) = h_commands h"
proof -
  have t: "h_commands h' = h_commands h" if "test_node f p h = (r, h')" for f p h r h'
    using test_node_commands [of f p h] that by simp
  show ?thesis
    unfolding check_source_def Let_def path_exists_def is_file_def is_dir_def
    by (auto simp: bindp_def split: prod.split sum.split dest!: t)
qed

lemma mount_missing_commands:
  assumes "source_ok alnum s" "plain_credentials s" "mount_missing s h = (r, h')"
  shows "\<exists>new. h_commands h' = new @ h_commands h \<and> list_all mounts_only new"
proof -
  obtain b h1 where m: "is_mounted (sc_mount_point s) h = (b, h1)" by fastforce
  have c: "h_commands h1 = h_commands h"
    using m by (auto simp: is_mounted_def catchp_def bindp_def read_text_def syscall_def Let_def
        split: option.splits sum.splits prod.splits fnode.splits py_error.splits)
  show ?thesis
  proof (cases "b = Inr False")
    case True
    then have "mount_source s h1 = (r, h')" using assms(3) m by (simp add: mount_missing_def bindp_def)
    from mount_source_commands [OF assms(1) assms(2) [unfolded plain_credentials_def] this] show ?thesis
      by (auto simp: c mounts_only_def intro: exI [of _ "[_]"])
  next
    case False
    then have "h' = h1" using assms(3) m by (cases b) (auto simp: mount_missing_def bindp_def)
    with c show ?thesis by simp
  qed
qed

lemma iterp_commands:
  assumes "\<And>x h r h'. x \<in> set xs \<Longrightarrow> f x h = (r, h') \<Longrightarrow> \<exists>new. h_commands h' = new @ h_commands h \<and> list_all P new"
    and "iterp f xs h = (r, h')"
  shows "\<exists>new. h_commands h' = new @ h_commands h \<and> list_all P new"
  using assms
proof (induction xs arbitrary: h)
  case (Cons x xs)
  obtain q h1 where q: "f x h = (q, h1)" by fastforce
  from Cons.prems(1) [OF _ q] obtain n1 where n1: "h_commands h1 = n1 @ h_commands h" "list_all P n1" by auto
  show ?case
  proof (cases q)
    case (Inl e)
    then show ?thesis using Cons.prems(2) q n1 by (auto simp: bindp_def)
  next
    case (Inr u)
    then have "iterp f xs h1 = (r, h')" using Cons.prems(2) q by (simp add: bindp_def)
    from Cons.IH [OF _ this] Cons.prems(1) obtain n2 where "h_commands h' = n2 @ h_commands h1" "list_all P n2"
      by (metis list.set_intros(2))
    with n1 show ?thesis by (intro exI [of _ "n2 @ n1"]) simp
  qed
qed simp

lemma prepare_sources_commands:
  assumes "config_ok alnum c" "list_all plain_credentials (cf_sources c)" "prepare_sources c h = (r, h')"
  shows "\<exists>new. h_commands h' = new @ h_commands h \<and> list_all mounts_only new"
proof -
  let ?mount = "if h_linux h then iterp mount_missing (cf_sources c) else ret ()"
  obtain q h1 where q: "?mount h = (q, h1)" by fastforce
  have "list_all (source_ok alnum) (cf_sources c)" using assms(1) by (simp add: config_ok_def sources_ok_def)
  then have step: "\<exists>new. h_commands h' = new @ h_commands h \<and> list_all mounts_only new"
    if "s \<in> set (cf_sources c)" "mount_missing s h = (r, h')" for s h r h'
    using mount_missing_commands that assms(2) unfolding list_all_iff by blast
  have 1: "\<exists>new. h_commands h1 = new @ h_commands h \<and> list_all mounts_only new"
    using iterp_commands [OF step] q by (cases "h_linux h") auto
  show ?thesis
  proof (cases q)
    case (Inl e)
    then show ?thesis using assms(3) q 1 by (auto simp: prepare_sources_def bindp_def)
  next
    case (Inr u)
    then have "iterp check_source (cf_entries c) h1 = (r, h')" using assms(3) q by (simp add: prepare_sources_def bindp_def)
    moreover have "\<exists>new. h_commands h2 = new @ h_commands h \<and> list_all (\<lambda>_. False) new" if "check_source e h = (r, h2)"
      for e h h2 and r :: "unit result"
      using check_source_commands [of e h] that by simp
    ultimately obtain new where "h_commands h' = new @ h_commands h1" "list_all (\<lambda>_. False) new"
      using iterp_commands [of "cf_entries c" check_source "\<lambda>_. False" h1 r h'] by blast
    then have "h_commands h' = h_commands h1" by (cases new) simp_all
    with 1 show ?thesis by simp
  qed
qed

section \<open>Activating\<close>

lemma go_live_outcome:
  assumes "go_live ev g cold s = (r, s')"
  shows "\<exists>t. same_service s t \<and>
    (case r of
       Inl e \<Rightarrow> s' = t
     | Inr _ \<Rightarrow> s' = t\<lparr>sv_active := Some g, sv_state := lit ''running'',
         sv_state_detail := (if h_linux (sv_host s) then lit ''serving'' else lit ''software_only_macos'')\<rparr>)"
proof -
  let ?m = "if h_linux (sv_host s) then activate_hardware ev g cold else ret ()"
  obtain q t where q: "?m s = (q, t)" by fastforce
  have "hardware_only ?m" by (intro host_intros hardware_only_activate)
  from hardware_onlyD [OF this q] show ?thesis
    using assms q by (intro exI [of _ t]) (auto simp: go_live_def bindp_def on_linux_def split: sum.splits simp del: lit_Cons)
qed

lemma cutover_outcome:
  assumes "cutover ev g started s = (r, s')"
  shows "sv_locked s' = False" "sv_compiled s' = sv_compiled s" "sv_next_generation s' = sv_next_generation s"
    "sv_prefetch_bytes_requested s' = sv_prefetch_bytes_requested s" "sv_prefetch_passes s' = sv_prefetch_passes s"
    "case r of
       Inl e \<Rightarrow> sv_active s' = sv_active s \<and> sv_state s' = sv_state s \<and> sv_state_detail s' = sv_state_detail s
     | Inr i \<Rightarrow> sv_active s' = Some g \<and> sv_state s' = lit ''running'' \<and> ai_generation i = gen_number g \<and>
         ai_status i = lit ''activated'' \<and> ai_warnings i = []"
proof -
  obtain q t where q: "go_live ev g False s = (q, t)" by fastforce
  obtain u where u: "same_service s u" "case q of Inl e \<Rightarrow> t = u
     | Inr _ \<Rightarrow> t = u\<lparr>sv_active := Some g, sv_state := lit ''running'',
         sv_state_detail := (if h_linux (sv_host s) then lit ''serving'' else lit ''software_only_macos'')\<rparr>"
    using go_live_outcome [OF q] by blast
  have "s' = t\<lparr>sv_locked := False\<rparr> \<and> (case q of Inl e \<Rightarrow> r = Inl e | Inr _ \<Rightarrow> r =
      Inr \<lparr>ai_status = lit ''activated'', ai_generation = gen_number g,
        ai_reload_time_ms = h_clock (sv_host t) - started, ai_warnings = []\<rparr>)"
    using assms q by (auto simp: cutover_def finallyp_def bindp_def now_def split: sum.splits prod.splits simp del: lit_Cons)
  with u same_service_fields [OF u(1)] show "sv_locked s' = False" "sv_compiled s' = sv_compiled s" "sv_next_generation s' = sv_next_generation s"
    "sv_prefetch_bytes_requested s' = sv_prefetch_bytes_requested s" "sv_prefetch_passes s' = sv_prefetch_passes s"
    "case r of
       Inl e \<Rightarrow> sv_active s' = sv_active s \<and> sv_state s' = sv_state s \<and> sv_state_detail s' = sv_state_detail s
     | Inr i \<Rightarrow> sv_active s' = Some g \<and> sv_state s' = lit ''running'' \<and> ai_generation i = gen_number g \<and>
         ai_status i = lit ''activated'' \<and> ai_warnings i = []"
    by (auto split: sum.splits simp del: lit_Cons)
qed

lemma acquire_outcome:
  assumes "acquire_reload n s = (r, s')"
  shows "case r of Inl e \<Rightarrow> s' = s
    | Inr g \<Rightarrow> \<not> sv_locked s \<and> map_of (sv_compiled s) n = Some g \<and> s' = s\<lparr>sv_locked := True\<rparr>"
  using assms by (auto simp: acquire_reload_def bindp_def split: option.splits if_splits)

lemma activate_outcome:
  assumes "activate_generation ev n s = (r, s')" "\<not> sv_locked s"
  shows "\<not> sv_locked s' \<and> sv_compiled s' = sv_compiled s \<and> sv_next_generation s' = sv_next_generation s \<and>
    (case r of
       Inl e \<Rightarrow> sv_active s' = sv_active s \<and> sv_state s' = sv_state s \<and> sv_state_detail s' = sv_state_detail s
     | Inr i \<Rightarrow> sv_active s' = map_of (sv_compiled s) n \<and> sv_active s' \<noteq> None \<and> sv_state s' = lit ''running'')"
proof -
  obtain q t where q: "acquire_reload n s = (q, t)" by fastforce
  show ?thesis
  proof (cases q)
    case (Inl e)
    then show ?thesis using assms q acquire_outcome [OF q] by (auto simp: activate_generation_def bindp_def)
  next
    case (Inr g)
    have a: "map_of (sv_compiled s) n = Some g" "t = s\<lparr>sv_locked := True\<rparr>"
      using acquire_outcome [OF q] Inr by simp_all
    have c: "cutover ev g (h_clock (sv_host t)) t = (r, s')"
      using assms(1) q Inr by (simp add: activate_generation_def bindp_def now_def)
    show ?thesis using cutover_outcome [OF c] a by (auto split: sum.splits simp del: lit_Cons)
  qed
qed

section \<open>Interleaved requests\<close>

text \<open>
  The requests of the control plane run in threads of a pool. Between two of its steps a
  thread may be held up for any time: a compilation between the creation of its generation
  and the moment the counter and the table are updated, an activation while it holds the
  reload lock and before its cutover, a thread of a prefetch worker (the current one or one
  that has outlived its join) while it records a pass under the same lock. \<open>pn_compiles\<close>,
  \<open>pn_cutovers\<close> and \<open>pn_records\<close> are the threads that are held up there.
\<close>

record pending =
  pn_compiles :: "generation list"
  pn_cutovers :: "(generation \<times> int) list"
  pn_records :: "int list" \<comment> \<open>the bytes that are being recorded\<close>

definition no_pending :: pending where
  "no_pending = \<lparr>pn_compiles = [], pn_cutovers = [], pn_records = []\<rparr>"

inductive svc_step :: "environment \<Rightarrow> service \<times> pending \<Rightarrow> service \<times> pending \<Rightarrow> bool" for ev where
  begin_compile: "compile_begin ev c s = (Inr g, s') \<Longrightarrow>
    svc_step ev (s, p) (s', p\<lparr>pn_compiles := g # pn_compiles p\<rparr>)"
| fail_compile: "compile_begin ev c s = (Inl e, s') \<Longrightarrow> svc_step ev (s, p) (s', p)"
| commit_compile: "pn_compiles p = gs @ g # hs \<Longrightarrow> compile_commit g s = (Inr u, s') \<Longrightarrow>
    svc_step ev (s, p) (s', p\<lparr>pn_compiles := gs @ hs\<rparr>)"
| acquire: "acquire_reload n s = (Inr g, s') \<Longrightarrow>
    svc_step ev (s, p) (s', p\<lparr>pn_cutovers := (g, h_clock (sv_host s)) # pn_cutovers p\<rparr>)"
| refuse: "acquire_reload n s = (Inl e, s') \<Longrightarrow> svc_step ev (s, p) (s', p)"
| finish_cutover: "pn_cutovers p = js @ (g, started) # ks \<Longrightarrow> cutover ev g started s = (r, s') \<Longrightarrow>
    svc_step ev (s, p) (s', p\<lparr>pn_cutovers := js @ ks\<rparr>)"
| enter_record: "record_enter s = Some s' \<Longrightarrow> 0 \<le> n \<Longrightarrow>
    svc_step ev (s, p) (s', p\<lparr>pn_records := n # pn_records p\<rparr>)"
| leave_record: "pn_records p = ms @ n # ns \<Longrightarrow>
    svc_step ev (s, p) (record_leave n s, p\<lparr>pn_records := ms @ ns\<rparr>)"
| eject_request: "eject ev s = (r, s') \<Longrightarrow> svc_step ev (s, p) (s', p)"
| shut_down: "shutdown ev s = (r, s') \<Longrightarrow> svc_step ev (s, p) (s', p)"
| host_change: "svc_step ev (s, p) (s\<lparr>sv_host := h\<rparr>, p)"

inductive_cases svc_stepE: "svc_step ev (s, p) (s', p')"

inductive reachable :: "environment \<Rightarrow> service \<Rightarrow> service \<times> pending \<Rightarrow> bool" for ev s0 where
  start: "startup ev s0 = (r, s) \<Longrightarrow> reachable ev s0 (s, no_pending)"
| step: "reachable ev s0 x \<Longrightarrow> svc_step ev x y \<Longrightarrow> reachable ev s0 y"

definition good_generation :: "int \<Rightarrow> generation \<Rightarrow> bool" where
  "good_generation bound g \<longleftrightarrow> 1 \<le> gen_number g \<and> gen_number g < bound \<and>
     total_bytes (gen_layout g) = image_size_bytes (gen_config g)"

definition svc_inv :: "service \<times> pending \<Rightarrow> bool" where
  "svc_inv = (\<lambda>(s, p).
     1 \<le> sv_next_generation s \<and> distinct (map fst (sv_compiled s)) \<and>
     list_all (\<lambda>(n, g). gen_number g = n \<and> good_generation (sv_next_generation s) g) (sv_compiled s) \<and>
     (\<forall>g. sv_active s = Some g \<longrightarrow> good_generation (sv_next_generation s) g) \<and>
     list_all (\<lambda>g. 1 \<le> gen_number g \<and> gen_number g \<le> sv_next_generation s \<and>
       total_bytes (gen_layout g) = image_size_bytes (gen_config g)) (pn_compiles p) \<and>
     list_all (\<lambda>(g, t). good_generation (sv_next_generation s) g) (pn_cutovers p) \<and>
     length (pn_cutovers p) + length (pn_records p) = (if sv_locked s then 1 else 0) \<and>
     list_all (\<lambda>n. 0 \<le> n) (pn_records p) \<and>
     (sv_state s = lit ''running'' \<longrightarrow> sv_active s \<noteq> None) \<and>
     0 \<le> sv_prefetch_passes s \<and> 0 \<le> sv_prefetch_bytes_requested s)"

lemma good_generation_grows: "good_generation m g \<Longrightarrow> m \<le> n \<Longrightarrow> good_generation n g"
  by (simp add: good_generation_def)

lemma svc_inv_frame:
  assumes "svc_inv (s, p)" "sv_active s' = sv_active s" "sv_compiled s' = sv_compiled s"
    "sv_next_generation s' = sv_next_generation s" "sv_locked s' = sv_locked s"
    "sv_state s' = sv_state s \<or> sv_state s' \<noteq> lit ''running''"
    "sv_prefetch_bytes_requested s \<le> sv_prefetch_bytes_requested s'"
    "sv_prefetch_passes s \<le> sv_prefetch_passes s'"
  shows "svc_inv (s', p)"
  using assms unfolding svc_inv_def by (auto simp del: lit_Cons)

lemma svc_inv_same:
  assumes "svc_inv (s, p)" "same_service s s'"
  shows "svc_inv (s', p)"
  by (rule svc_inv_frame [OF assms(1)]) (simp_all only: same_service_fields [OF assms(2)] order_refl simp_thms)

lemma svc_inv_commit:
  assumes "svc_inv (s, p)" "pn_compiles p = gs @ g # hs" "compile_commit g s = (Inr u, s')"
  shows "svc_inv (s', p\<lparr>pn_compiles := gs @ hs\<rparr>)"
proof -
  have s': "s' = s\<lparr>sv_next_generation := sv_next_generation s + 1,
      sv_compiled := AList.update (gen_number g) g (sv_compiled s)\<rparr>"
    using assms(3) by (simp add: compile_commit_def)
  have good: "good_generation (sv_next_generation s') g" using assms(1,2) s' by (simp add: svc_inv_def good_generation_def)
  have grow: "good_generation (sv_next_generation s) h \<Longrightarrow> good_generation (sv_next_generation s') h" for h
    using s' by (simp add: good_generation_def)
  have table: "list_all (\<lambda>(n, h). gen_number h = n \<and> good_generation (sv_next_generation s') h) (sv_compiled s)"
    using assms(1) grow unfolding svc_inv_def list_all_iff by fastforce
  have "list_all (\<lambda>(n, h). gen_number h = n \<and> good_generation (sv_next_generation s') h) (sv_compiled s')"
    using list_all_update [OF table] good s' by simp
  moreover have "distinct (map fst (sv_compiled s'))"
    using assms(1) s' by (simp add: svc_inv_def distinct_update)
  moreover have "list_all (\<lambda>(g, t). good_generation (sv_next_generation s') g) (pn_cutovers p)"
    using assms(1) grow unfolding svc_inv_def list_all_iff by fastforce
  moreover have "list_all (\<lambda>g. 1 \<le> gen_number g \<and> gen_number g \<le> sv_next_generation s' \<and>
      total_bytes (gen_layout g) = image_size_bytes (gen_config g)) (gs @ hs)"
  proof -
    have "list_all (\<lambda>g. 1 \<le> gen_number g \<and> gen_number g \<le> sv_next_generation s \<and>
      total_bytes (gen_layout g) = image_size_bytes (gen_config g)) (gs @ hs)"
      using assms(1,2) unfolding svc_inv_def by simp
    then show ?thesis by (rule list.pred_mono_strong) (use s' in auto)
  qed
  moreover have "\<forall>h. sv_active s' = Some h \<longrightarrow> good_generation (sv_next_generation s') h"
    using assms(1) grow s' by (simp add: svc_inv_def)
  moreover have "1 \<le> sv_next_generation s'"
    "length (pn_cutovers p) + length (pn_records p) = (if sv_locked s' then 1 else 0)"
    "list_all (\<lambda>n. 0 \<le> n) (pn_records p)"
    "sv_state s' = lit ''running'' \<longrightarrow> sv_active s' \<noteq> None"
    "0 \<le> sv_prefetch_passes s'" "0 \<le> sv_prefetch_bytes_requested s'"
    using assms(1) s' unfolding svc_inv_def prod.case by (simp_all del: lit_Cons)
  ultimately show ?thesis unfolding svc_inv_def prod.case by simp
qed

lemma svc_inv_cutover:
  assumes "svc_inv (s, p)" "pn_cutovers p = js @ (g, started) # ks" "cutover ev g started s = (r, s')"
  shows "svc_inv (s', p\<lparr>pn_cutovers := js @ ks\<rparr>)"
proof -
  note out = cutover_outcome [OF assms(3)]
  have one: "js = []" "ks = []" "pn_records p = []" "good_generation (sv_next_generation s) g"
    using assms(1,2) by (auto simp: svc_inv_def split: if_splits)
  have "svc_inv (s'\<lparr>sv_active := sv_active s, sv_state := sv_state s, sv_locked := sv_locked s\<rparr>, p)"
    using svc_inv_frame [OF assms(1), of "s'\<lparr>sv_active := sv_active s, sv_state := sv_state s, sv_locked := sv_locked s\<rparr>"]
      out by (simp del: lit_Cons)
  moreover have "sv_active s' = Some g \<or> sv_active s' = sv_active s \<and> sv_state s' = sv_state s"
    using out(6) by (cases r) simp_all
  ultimately show ?thesis
    using out(1) one unfolding svc_inv_def prod.case
    by (auto simp: out(3) simp del: lit_Cons)
qed

lemma shutdown_outcome:
  assumes "shutdown ev s = (r, s')"
  shows "r = Inr ()" "\<exists>t. same_service s t \<and>
    s' = t\<lparr>sv_state := lit ''stopped'', sv_state_detail := lit ''shutdown''\<rparr>" "sv_worker s' = None"
proof -
  let ?before = "bindp stop_prefetch_worker (\<lambda>_. bindp getp (\<lambda>s.
     bindp (ignoring (on_host (unbind (ev_limit ev) (sv_gadget s)))) (\<lambda>_.
     ignoring (on_host (nbdkit_stop (sv_nbd s))))))"
  obtain q t where q: "?before s = (q, t)" by fastforce
  have "hardware_only ?before" by (intro host_intros)
  from hardware_onlyD [OF this q] have same: "same_service s t" .
  have ok: "fst (ignoring m u) = Inr ()" for m :: "(service, unit) prog" and u
    by (auto simp: ignoring_def catchp_def split: prod.split sum.split)
  obtain u where u: "stop_prefetch_worker s = (Inr (), u)" "sv_worker u = None"
    using stop_prefetch_worker_outcome by (metis surj_pair)
  then have "q = Inr ()" "sv_worker t = None"
    using q ok
    by (auto simp: bindp_def ignoring_def catchp_def on_host_def split: prod.splits sum.splits)
  moreover have "shutdown ev s = bindp ?before (\<lambda>_. modifyp (\<lambda>s. s\<lparr>sv_state := lit ''stopped'', sv_state_detail := lit ''shutdown''\<rparr>)) s"
    by (simp add: shutdown_def bindp_assoc del: lit_Cons)
  ultimately have "r = Inr ()" "s' = t\<lparr>sv_state := lit ''stopped'', sv_state_detail := lit ''shutdown''\<rparr>"
    using assms q by (simp_all add: bindp_def [of ?before] del: lit_Cons)
  with same \<open>sv_worker t = None\<close> show "r = Inr ()" "\<exists>t. same_service s t \<and>
    s' = t\<lparr>sv_state := lit ''stopped'', sv_state_detail := lit ''shutdown''\<rparr>" "sv_worker s' = None"
    by (blast, blast, simp del: lit_Cons)
qed

lemma svc_inv_shutdown:
  assumes "svc_inv (s, p)" "shutdown ev s = (r, s')"
  shows "svc_inv (s', p)"
proof -
  obtain t where t: "same_service s t" "s' = t\<lparr>sv_state := lit ''stopped'', sv_state_detail := lit ''shutdown''\<rparr>"
    using shutdown_outcome(2) [OF assms(2)] by blast
  have "svc_inv (t, p)" by (rule svc_inv_same [OF assms(1) t(1)])
  then show ?thesis by (rule svc_inv_frame) (simp_all add: t(2))
qed

lemma svc_inv_step:
  assumes "svc_step ev x y" "svc_inv x"
  shows "svc_inv y"
  using assms
proof (cases rule: svc_step.cases)
  case (begin_compile c s g s' p)
  have s': "same_service s s'" "gen_number g = sv_next_generation s" "gen_config g = c"
    "total_bytes (gen_layout g) = image_size_bytes c"
    using compile_begin_outcome [OF begin_compile(3)] by (auto simp: same_service_def intro: build_exfat_size)
  have "svc_inv (s', p)" using svc_inv_same [OF _ s'(1)] assms(2) begin_compile(1) by simp
  then show ?thesis
    using begin_compile(2) s'(2-4) same_service_fields(3) [OF s'(1)]
    by (simp add: svc_inv_def del: lit_Cons)
next
  case (fail_compile c s e s' p)
  have "same_service s s'"
    using compile_begin_outcome [OF fail_compile(3)] unfolding same_service_def by (cases s, cases s') simp
  then show ?thesis using svc_inv_same assms(2) fail_compile(1,2) by blast
next
  case (commit_compile p gs g hs s u s')
  then show ?thesis using svc_inv_commit assms(2) by blast
next
  case (acquire n s g s' p)
  have a: "\<not> sv_locked s" "(n, g) \<in> set (sv_compiled s)" "s' = s\<lparr>sv_locked := True\<rparr>"
    using acquire_outcome [OF acquire(3)] by (auto dest: map_of_SomeD)
  then have "good_generation (sv_next_generation s) g" using assms(2) acquire(1) by (auto simp: svc_inv_def list_all_iff)
  then show ?thesis using assms(2) acquire(1,2) a
    by (auto simp: svc_inv_def simp del: lit_Cons)
next
  case (refuse n s e s' p)
  then show ?thesis using acquire_outcome [OF refuse(3)] assms(2) by simp
next
  case (finish_cutover p js g started ks s r s')
  then show ?thesis using svc_inv_cutover assms(2) by blast
next
  case (enter_record s s' n p)
  then have "\<not> sv_locked s" "s' = s\<lparr>sv_locked := True\<rparr>" by (auto simp: record_enter_def split: if_splits)
  then show ?thesis using assms(2) enter_record(1,2,4) by (auto simp: svc_inv_def simp del: lit_Cons)
next
  case (leave_record p ms n ns s)
  then show ?thesis using assms(2) by (auto simp: svc_inv_def record_leave_def simp del: lit_Cons split: if_splits)
next
  case (eject_request s r s' p)
  then show ?thesis using svc_inv_same assms(2) hardware_onlyD [OF hardware_only_eject] by blast
next
  case (shut_down s r s' p)
  then show ?thesis using svc_inv_shutdown assms(2) by blast
next
  case (host_change s p h)
  then show ?thesis using svc_inv_same [of s p "s\<lparr>sv_host := h\<rparr>"] assms(2) by simp
qed

section \<open>Reachable states\<close>

lemma svc_inv_go_live:
  assumes "svc_inv (s, p)" "good_generation (sv_next_generation s) g" "go_live ev g cold s = (r, s')"
  shows "svc_inv (s', p)"
proof -
  obtain t where t: "same_service s t" "case r of Inl e \<Rightarrow> s' = t
     | Inr _ \<Rightarrow> s' = t\<lparr>sv_active := Some g, sv_state := lit ''running'',
         sv_state_detail := (if h_linux (sv_host s) then lit ''serving'' else lit ''software_only_macos'')\<rparr>"
    using go_live_outcome [OF assms(3)] by blast
  have "svc_inv (t, p)" by (rule svc_inv_same [OF assms(1) t(1)])
  with t(2) assms(2) same_service_fields(3) [OF t(1)] show ?thesis
    by (cases r) (auto simp: svc_inv_def simp del: lit_Cons)
qed

lemma svc_inv_compile:
  assumes "svc_inv (s, p)" "compile ev c s = (Inr g, s')"
  shows "svc_inv (s', p)" "good_generation (sv_next_generation s') g"
proof -
  obtain t where t: "compile_begin ev c s = (Inr g, t)" "compile_commit g t = (Inr (), s')"
    using assms(2) by (auto simp: compile_def bindp_def compile_commit_def split: prod.splits sum.splits)
  have "svc_inv (t, p\<lparr>pn_compiles := g # pn_compiles p\<rparr>)"
    using svc_inv_step [OF svc_step.begin_compile [OF t(1)] assms(1)] .
  from svc_inv_commit [OF this _ t(2), of "[]"] show "svc_inv (s', p)" by simp
  moreover have "(gen_number g, g) \<in> set (sv_compiled s')"
    using t(2) by (auto simp: compile_commit_def update_conv intro: map_of_SomeD)
  ultimately show "good_generation (sv_next_generation s') g"
    by (auto simp: svc_inv_def list_all_iff)
qed

lemma svc_inv_startup:
  assumes "svc_inv (s, p)" "startup ev s = (r, s')"
  shows "svc_inv (s', p)"
proof -
  let ?s = "s\<lparr>sv_started_at := Some (h_clock (sv_host s))\<rparr>"
  let ?body = "bindp (load_config ev) (\<lambda>c. bindp (compile ev c) (\<lambda>g. go_live ev g True))"
  have s: "svc_inv (?s, p)" by (rule svc_inv_frame [OF assms(1)]) simp_all
  obtain q t where body: "?body ?s = (q, t)" by fastforce
  have t: "svc_inv (t, p)"
  proof -
    obtain c u where u: "load_config ev ?s = (c, u)" by fastforce
    then have "same_service ?s u" by (auto simp: load_config_def split: prod.splits)
    from svc_inv_same [OF s this] have iu: "svc_inv (u, p)" .
    show ?thesis
    proof (cases c)
      case (Inl e)
      then show ?thesis using body u iu by (simp add: bindp_def)
    next
      case (Inr cfg)
      obtain g v where v: "compile ev cfg u = (g, v)" by fastforce
      show ?thesis
      proof (cases g)
        case (Inl e)
        have "same_service u v" using compile_outcome [OF v] Inl unfolding same_service_def by (cases u, cases v) simp
        then show ?thesis using body u v Inl \<open>c = Inr cfg\<close> svc_inv_same [OF iu] by (simp add: bindp_def)
      next
        case (Inr gen)
        note iv = svc_inv_compile [OF iu v [unfolded Inr]]
        have "go_live ev gen True v = (q, t)" using body u v Inr \<open>c = Inr cfg\<close> by (simp add: bindp_def)
        then show ?thesis by (rule svc_inv_go_live [OF iv])
      qed
    qed
  qed
  have "s' = t \<or> s' = t\<lparr>sv_state := lit ''degraded'', sv_state_detail := sv_state_detail s'\<rparr>"
    using assms(2) body by (auto simp: startup_def bindp_def catchp_def split: sum.splits if_splits simp del: lit_Cons)
  then show ?thesis
  proof
    assume "s' = t\<lparr>sv_state := lit ''degraded'', sv_state_detail := sv_state_detail s'\<rparr>"
    then obtain d where "s' = t\<lparr>sv_state := lit ''degraded'', sv_state_detail := d\<rparr>" by blast
    then show ?thesis using svc_inv_frame [OF t] by simp
  qed (use t in simp)
qed

lemma svc_inv_new: "svc_inv (new_service config_path state_path h, no_pending)"
  by (simp add: svc_inv_def new_service_def no_pending_def)

lemma locked_refuses: "sv_locked s \<Longrightarrow> \<exists>e. fst (acquire_reload n s) = Inl e"
  by (auto simp: acquire_reload_def bindp_def split: option.split)

lemma reachable_inv:
  assumes "reachable ev (new_service config_path state_path h) x"
  shows "svc_inv x"
  using assms
proof (induction rule: reachable.induct)
  case (start r s)
  show ?case by (rule svc_inv_startup [OF svc_inv_new start])
next
  case (step x y)
  then show ?case using svc_inv_step by blast
qed

section \<open>Two compilations at once\<close>

lemma overlapping_compiles:
  assumes "compile_begin ev c1 s = (Inr g1, s1)" "compile_begin ev c2 s1 = (Inr g2, s2)"
  shows "\<exists>s'. svc_step ev (s, p) (s1, p\<lparr>pn_compiles := g1 # pn_compiles p\<rparr>) \<and>
    (svc_step ev)\<^sup>*\<^sup>* (s, p) (s', p) \<and> gen_number g1 = gen_number g2 \<and> gen_config g1 = c1 \<and>
    map_of (sv_compiled s') (gen_number g1) = Some g2"
proof -
  let ?p1 = "p\<lparr>pn_compiles := g1 # pn_compiles p\<rparr>"
  let ?p2 = "p\<lparr>pn_compiles := g2 # g1 # pn_compiles p\<rparr>"
  let ?p3 = "p\<lparr>pn_compiles := g2 # pn_compiles p\<rparr>"
  have n: "gen_number g1 = sv_next_generation s" "gen_number g2 = sv_next_generation s" "gen_config g1 = c1"
    using compile_begin_outcome [OF assms(1)] compile_begin_outcome [OF assms(2)]
    by (metis same_service_fields(3) same_service_host)+
  obtain s3 where s3: "compile_commit g1 s2 = (Inr (), s3)" by (simp add: compile_commit_def)
  obtain s4 where s4: "compile_commit g2 s3 = (Inr (), s4)" by (simp add: compile_commit_def)
  have 1: "svc_step ev (s, p) (s1, ?p1)" by (rule svc_step.begin_compile [OF assms(1)])
  have 2: "svc_step ev (s1, ?p1) (s2, ?p2)" using svc_step.begin_compile [OF assms(2), of ?p1] by simp
  have 3: "svc_step ev (s2, ?p2) (s3, ?p3)"
    using svc_step.commit_compile [of ?p2 "[g2]" g1 "pn_compiles p" s2 "()" s3 ev] s3 by simp
  have 4: "svc_step ev (s3, ?p3) (s4, p)"
    using svc_step.commit_compile [of ?p3 "[]" g2 "pn_compiles p" s3 "()" s4 ev] s4 by simp
  have "(svc_step ev)\<^sup>*\<^sup>* (s, p) (s4, p)" 
    using rtranclp.rtrancl_into_rtrancl [OF rtranclp.rtrancl_into_rtrancl [OF
      rtranclp.rtrancl_into_rtrancl [OF r_into_rtranclp [where r = "svc_step ev", OF 1] 2] 3] 4] .
  moreover have "map_of (sv_compiled s4) (gen_number g2) = Some g2"
    using s4 by (auto simp: compile_commit_def update_conv)
  ultimately show ?thesis using 1 n by auto
qed

section \<open>The state file\<close>

lemma lookup_put: "snd p \<noteq> [] \<Longrightarrow> lookup (put p n t) q = (if q = p then Some n else lookup t q)"
  by (auto simp: lookup_def put_def update_conv)

lemma lookup_filter: "lookup (filter (\<lambda>(q, _). q \<noteq> p) t) q = (if q = p \<and> snd q \<noteq> [] then None else lookup t q)"
  by (induction t) (auto simp: lookup_def)

lemma make_dirs_lookup:
  assumes "make_dirs attributes a done cs t = Inr t'" "length (done @ cs) < length (snd q)"
    and "\<And>d. prefix d (done @ cs) \<Longrightarrow> attributes (a, d) = []"
  shows "lookup t' q = lookup t q"
  using assms
proof (induction attributes a "done" cs t rule: make_dirs.induct)
  case (2 attributes a "done" c cs t)
  have "attributes (a, done @ [c]) = []" using "2.prems"(3) [of "done @ [c]"] by simp
  moreover have "q \<noteq> (a, done @ [c])" using "2.prems"(2) by auto
  ultimately show ?case using 2
    by (auto simp: Let_def lookup_put split: option.splits fnode.splits if_splits)
qed simp

lemma follow_self: "\<forall>q. lookup t p \<noteq> Some (Link q) \<Longrightarrow> follow (Suc n) t p = Some p"
  by (auto split: option.split fnode.split)

lemma temporary_differs: "snd p \<noteq> [] \<Longrightarrow> temporary_name pid p \<noteq> p"
  by (cases p rule: prod.exhaust; cases "snd p" rule: rev_cases)
    (auto simp: temporary_name_def path_name_def)

lemma write_bytes_outcome:
  assumes "write_bytes p bs h = (r, h')" "\<forall>q. lookup (h_tree h) p \<noteq> Some (Link q)" "snd p \<noteq> []"
  shows "machine h' = machine h \<and> (case r of Inl e \<Rightarrow> h_tree h' = h_tree h | Inr _ \<Rightarrow>
    \<exists>g m. h_tree h' = put p (Blob bs g m) (h_tree h))"
proof -
  have "follow 41 (h_tree h) p = Some p" using follow_self [OF assms(2), of 40] by simp
  with assms(1) show ?thesis
    by (auto simp: write_bytes_def syscall_def writable_def machine_def Let_def
        split: option.splits sum.splits if_splits fnode.splits) blast+
qed

lemma set_mode_outcome:
  assumes "lookup (h_tree h) p = Some (Blob bs g m)"
  shows "chown_group p gid h = (r, h') \<Longrightarrow> machine h' = machine h \<and>
      (case r of Inl e \<Rightarrow> h_tree h' = h_tree h | Inr _ \<Rightarrow> h_tree h' = put p (Blob bs gid m) (h_tree h))"
    and "chmod p mode h = (r, h') \<Longrightarrow> machine h' = machine h \<and>
      (case r of Inl e \<Rightarrow> h_tree h' = h_tree h | Inr _ \<Rightarrow> h_tree h' = put p (Blob bs g mode) (h_tree h))"
  using assms
  by (auto simp: chown_group_def chmod_def syscall_def machine_def Let_def split: option.splits sum.splits)

lemma replace_outcome:
  assumes "lookup (h_tree h) p = Some n" "replace_file p q h = (r, h')" "snd q \<noteq> []"
  shows "case r of Inl e \<Rightarrow> h_tree h' = h_tree h | Inr _ \<Rightarrow> lookup (h_tree h') q = Some n"
  using assms by (auto simp: replace_file_def syscall_def Let_def lookup_put split: option.splits sum.splits if_splits)

definition published :: "bytes \<Rightarrow> path \<Rightarrow> host \<Rightarrow> unit result \<Rightarrow> host \<Rightarrow> bool" where
  \<comment> \<open>the file is untouched, or replaced as a whole with the right group and mode\<close>
  "published payload p h r h' \<longleftrightarrow>
     (case r of Inl e \<Rightarrow> lookup (h_tree h') p = lookup (h_tree h) p
      | Inr _ \<Rightarrow> \<exists>gid. h_group h = Some gid \<and> lookup (h_tree h') p = Some (Blob payload gid 0x1A0))"

lemma swap_in_outcome:
  assumes "bindp (write_bytes q payload) (\<lambda>_. bindp getp (\<lambda>h. case h_group h of
           None \<Rightarrow> raise_p (KeyError (lit ''remotepfs''))
         | Some gid \<Rightarrow> bindp (chown_group q gid) (\<lambda>_. bindp (chmod q 0x1A0) (\<lambda>_. replace_file q p)))) h = (r, h')"
    and "\<forall>x. lookup (h_tree h) q \<noteq> Some (Link x)" "snd q \<noteq> []" "snd p \<noteq> []" "q \<noteq> p"
  shows "published payload p h r h'"
proof -
  have same: "lookup (put q n t) p = lookup t p" for n t using assms(3,5) by (simp add: lookup_put)
  obtain r1 h1 where 1: "write_bytes q payload h = (r1, h1)" by fastforce
  note w = write_bytes_outcome [OF 1 assms(2,3)]
  show ?thesis
  proof (cases r1)
    case (Inl e)
    then show ?thesis using assms(1) 1 w by (auto simp: bindp_def published_def)
  next
    case (Inr u)
    then obtain g m where t1: "h_tree h1 = put q (Blob payload g m) (h_tree h)" using w by auto
    have group: "h_group h1 = h_group h" using w by (simp add: machine_def)
    show ?thesis
    proof (cases "h_group h")
      case None
      then show ?thesis using assms(1) 1 Inr group t1 same by (auto simp: bindp_def published_def simp del: lit_Cons)
    next
      case (Some gid)
      obtain r2 h2 where 2: "chown_group q gid h1 = (r2, h2)" by fastforce
      have q1: "lookup (h_tree h1) q = Some (Blob payload g m)" using t1 assms(3) by (simp add: lookup_put)
      note c = set_mode_outcome(1) [OF q1 2]
      show ?thesis
      proof (cases r2)
        case (Inl e)
        then show ?thesis using assms(1) 1 2 \<open>r1 = Inr u\<close> Some group t1 same c
          by (auto simp: bindp_def published_def simp del: lit_Cons)
      next
        case (Inr v)
        obtain r3 h3 where 3: "chmod q 0x1A0 h2 = (r3, h3)" by fastforce
        have q2: "lookup (h_tree h2) q = Some (Blob payload gid m)" using c Inr assms(3) by (simp add: lookup_put)
        note d = set_mode_outcome(2) [OF q2 3]
        show ?thesis
        proof (cases r3)
          case (Inl e)
          then show ?thesis using assms(1) 1 2 3 \<open>r1 = Inr u\<close> \<open>r2 = Inr v\<close> Some group t1 same c d
            by (auto simp: bindp_def published_def simp del: lit_Cons)
        next
          case (Inr x)
          have q3: "lookup (h_tree h3) q = Some (Blob payload gid 0x1A0)" using d Inr assms(3) by (simp add: lookup_put)
          have "replace_file q p h3 = (r, h')"
            using assms(1) 1 2 3 \<open>r1 = Inr u\<close> \<open>r2 = Inr v\<close> Inr Some group by (simp add: bindp_def del: lit_Cons)
          from replace_outcome [OF q3 this assms(4)] show ?thesis
            using Some t1 same c d \<open>r2 = Inr v\<close> Inr by (auto simp: published_def split: sum.splits)
        qed
      qed
    qed
  qed
qed

lemma publish_state_atomic:
  assumes "publish_state pid state_path payload h = (r, h')"
    and "\<forall>q. lookup (h_tree h) (temporary_name pid (path_of state_path)) \<noteq> Some (Link q)"
    and "\<forall>d. below d (path_of state_path) \<longrightarrow> h_attributes h d = []"
  shows "published payload (path_of state_path) h r h'"
proof -
  define p where "p = path_of state_path"
  define q where "q = temporary_name pid p"
  obtain r0 h0 where 0: "make_dir (parent p) h = (r0, h0)" by fastforce
  show ?thesis
  proof (cases "snd p = [] \<or> r0 \<noteq> Inr ()")
    case True
    have root: "lookup t p = Some Dir" if "snd p = []" for t using that by (simp add: lookup_def)
    have name: "path_name p = []" if "snd p = []" using that by (simp add: path_name_def)
    have keep: "h_tree h0 = h_tree h" if "r0 = Inl e" for e
      using 0 that by (auto simp: make_dir_def syscall_def Let_def split: option.splits sum.splits)
    have "(\<exists>e. r = Inl e) \<and> h' = h0"
      using assms(1) 0 True name
      by (cases r0) (auto simp: publish_state_def p_def [symmetric] Let_def bindp_def simp del: lit_Cons)
    then show ?thesis using True root keep
      by (cases r0) (auto simp: published_def p_def [symmetric])
  next
    case False
    then have ne: "snd p \<noteq> []" "r0 = Inr ()" by auto
    have qp: "q \<noteq> p" "snd q \<noteq> []" "length (snd q) = length (snd p)"
      using temporary_differs [OF ne(1)] ne(1) by (auto simp: q_def temporary_name_def)
    obtain t0 where t0: "make_dirs (h_attributes h) (fst p) [] (butlast (snd p)) (h_tree h) = Inr t0" "h_tree h0 = t0"
        "machine h0 = machine h"
      using 0 ne(2)
      by (auto simp: make_dir_def syscall_def Let_def parent_def machine_def split: option.splits sum.splits)
    have dirs: "h_attributes h (fst p, d) = []" if "prefix d (butlast (snd p))" for d
      using assms(3) that prefix_order.trans [OF that prefixeq_butlast]
      by (simp add: below_def p_def [symmetric])
    have short: "length ([] @ butlast (snd p)) < length (snd p)" using ne(1) by simp
    have keep0: "lookup (h_tree h0) x = lookup (h_tree h) x" if "length (snd x) = length (snd p)" for x
      unfolding t0(2) by (rule make_dirs_lookup [OF t0(1)]) (use short that dirs in simp_all)
    have group: "h_group h0 = h_group h" using t0(3) by (simp add: machine_def)
    have "c \<noteq> []" if "c \<in> set (snd p)" for c
      using that by (auto simp: p_def path_of_def components_def Let_def)
    then have name: "path_name p \<noteq> []" using ne(1) by (simp add: path_name_def)
    have "bindp (write_bytes q payload) (\<lambda>_. bindp getp (\<lambda>h. case h_group h of
           None \<Rightarrow> raise_p (KeyError (lit ''remotepfs''))
         | Some gid \<Rightarrow> bindp (chown_group q gid) (\<lambda>_. bindp (chmod q 0x1A0) (\<lambda>_. replace_file q p)))) h0 = (r, h')"
      unfolding q_def using assms(1) 0 ne(2) name
      by (simp add: publish_state_def p_def [symmetric] Let_def bindp_def [of "make_dir (parent p)"]
          del: lit_Cons)
    from swap_in_outcome [OF this _ qp(2) ne(1) qp(1)] keep0 [of q] keep0 [of p] assms(2) qp(3)
    show ?thesis by (simp add: published_def group p_def [symmetric] q_def [symmetric] split: sum.splits)
  qed
qed

end
