(* ===== verification/ControlPlane.thy ===== *)
theory ControlPlane
  imports ServiceFacts
begin

text \<open>
  The queries of \<open>service.py\<close> and \<open>api.py\<close>: the endpoints of the HTTP control plane, with the
  translation of exceptions into responses. The response models are records with the models'
  fields and defaults; FastAPI's routing and its JSON encoding are not modelled, and a body is
  the bytes of the request.
\<close>

section \<open>Queries of the service\<close>

definition uptime :: "(service, int) prog" where
  "uptime s = (case sv_started_at s of
     None \<Rightarrow> (Inl AttributeError, s)
   | Some t \<Rightarrow> (Inr ((h_clock (sv_host s) - t) div 1000), s))"

definition get_health :: "(service, pystr \<times> int) prog" where
  "get_health = bindp uptime (\<lambda>t. ret (lit ''healthy'', t))"

record config_view =
  cv_generation :: int
  cv_loaded_at :: "int option"
  cv_global :: "(int \<times> int \<times> pystr \<times> pystr) option"
  cv_sources :: "source_config list"
  cv_entries :: "entry_config list"

definition get_config_json :: "(service, config_view) prog" where
  "get_config_json = bindp getp (\<lambda>s. ret
     (case sv_active s of
        None \<Rightarrow> \<lparr>cv_generation = 0, cv_loaded_at = None, cv_global = None, cv_sources = [], cv_entries = []\<rparr>
      | Some g \<Rightarrow>
          (let c = gen_config g
           in \<lparr>cv_generation = gen_number g, cv_loaded_at = Some (gen_created_at g),
               cv_global = Some (cf_image_size_gib c, cf_cluster_size_kib c, cf_label c, cf_oem_name c),
               cv_sources = cf_sources c, cv_entries = cf_entries c\<rparr>)))"

record game =
  gm_virtual_path :: pystr
  gm_type :: entry_type
  gm_size_bytes :: "int option option" \<comment> \<open>absent for a directory\<close>

definition node_size :: "int \<Rightarrow> fnode \<Rightarrow> int" where
  \<comment> \<open>\<open>st_size\<close>, where \<open>dir_size\<close> is that of a directory\<close>
  "node_size dir_size n = (case n of
     Text s \<Rightarrow> int (length (concat (map utf8_point s))) | Blob bs _ _ \<Rightarrow> int (length bs) | _ \<Rightarrow> dir_size)"

definition game_item :: "int \<Rightarrow> entry_config \<Rightarrow> (host, game) prog" where
  "game_item dir_size e =
     bindp (on_os_error
        (if ec_type e = EntryFile
         then bindp (stat_node (path_of (ec_source e))) (\<lambda>n. ret (Some (node_size dir_size n)))
         else ret None)
        (\<lambda>_. ret None)) (\<lambda>size_bytes.
     ret \<lparr>gm_virtual_path = ec_virtual_path e, gm_type = ec_type e,
       gm_size_bytes = (if ec_type e = EntryFile then Some size_bytes else None)\<rparr>)"

definition get_games :: "int \<Rightarrow> (service, game list) prog" where
  "get_games dir_size = bindp getp (\<lambda>s.
     case sv_active s of
       None \<Rightarrow> ret []
     | Some g \<Rightarrow> on_host (mapp (game_item dir_size) (cf_entries (gen_config g))))"

record service_info =
  si_version :: pystr
  si_uptime_seconds :: int
  si_state :: pystr
  si_state_detail :: pystr

record gadget_info =
  gi_udc_bound :: bool
  gi_udc_name :: "pystr option"
  gi_lun_file :: "pystr option"
  gi_lun_ro :: bool
  gi_lun_size_bytes :: "int option"

record cache_info =
  ca_backend :: pystr
  ca_cache_on_read :: bool
  ca_max_size_bytes :: int
  ca_min_block_size_bytes :: int
  ca_high_threshold_percent :: int
  ca_low_threshold_percent :: int
  ca_prefetch_bytes_requested :: int
  ca_prefetch_passes :: int

record config_info =
  co_path :: pystr
  co_last_loaded :: int
  co_generation :: int
  co_game_count :: int
  co_valid :: bool

record service_status =
  ss_service :: service_info
  ss_gadget :: gadget_info
  ss_nbd :: "bool \<times> pystr \<times> int" \<comment> \<open>connected, socket path, connections\<close>
  ss_cache :: cache_info
  ss_mounts :: "mount_status list"
  ss_config :: config_info

definition get_status :: "(service, service_status) prog" where
  "get_status = bindp getp (\<lambda>s.
     bindp (on_host (gadget_status_of (sv_gadget s))) (\<lambda>gadget.
     bindp uptime (\<lambda>up.
     bindp (on_host (nbd_is_ready (sv_nbd s))) (\<lambda>connected.
     bindp (on_host (nbd_is_ready (sv_nbd s))) (\<lambda>ready.
     bindp (case sv_active s of None \<Rightarrow> ret [] | Some g \<Rightarrow> on_host (mapp mount_status_of (cf_sources (gen_config g))))
       (\<lambda>mounts.
     bindp now (\<lambda>t.
     ret \<lparr>ss_service = \<lparr>si_version = lit ''0.1.0'', si_uptime_seconds = up, si_state = sv_state s,
         si_state_detail = sv_state_detail s\<rparr>,
       ss_gadget = \<lparr>gi_udc_bound = gs_udc_bound gadget, gi_udc_name = gs_udc_name gadget,
         gi_lun_file = gs_lun_file gadget, gi_lun_ro = gs_lun_ro gadget,
         gi_lun_size_bytes = map_option (\<lambda>g. total_bytes (gen_layout g)) (sv_active s)\<rparr>,
       ss_nbd = (connected, nm_socket_path (sv_nbd s), if ready then 1 else 0),
       ss_cache = \<lparr>ca_backend = lit ''nbdkit-cache-filter'', ca_cache_on_read = True,
         ca_max_size_bytes = CACHE_MAX_SIZE_BYTES, ca_min_block_size_bytes = CACHE_MIN_BLOCK_SIZE_BYTES,
         ca_high_threshold_percent = CACHE_HIGH_THRESHOLD_PERCENT,
         ca_low_threshold_percent = CACHE_LOW_THRESHOLD_PERCENT,
         ca_prefetch_bytes_requested = sv_prefetch_bytes_requested s,
         ca_prefetch_passes = sv_prefetch_passes s\<rparr>,
       ss_mounts = mounts,
       ss_config = \<lparr>co_path = sv_config_path s,
         co_last_loaded = (case sv_active s of None \<Rightarrow> t | Some g \<Rightarrow> gen_created_at g),
         co_generation = (case sv_active s of None \<Rightarrow> 0 | Some g \<Rightarrow> gen_number g),
         co_game_count = (case sv_active s of None \<Rightarrow> 0 | Some g \<Rightarrow> int (length (cf_entries (gen_config g)))),
         co_valid = (sv_active s \<noteq> None)\<rparr>\<rparr>)))))))"

section \<open>Request bodies\<close>

definition continuation :: "int \<Rightarrow> bool" where
  "continuation b \<longleftrightarrow> 0x80 \<le> b \<and> b < 0xC0"

fun decode_units :: "int list \<Rightarrow> pystr option" where
  \<comment> \<open>strict UTF-8: shortest forms, no surrogates, nothing above U+10FFFF\<close>
  "decode_units [] = Some []"
| "decode_units (a # as) =
     (if a < 0x80 then map_option ((#) a) (decode_units as)
      else if a < 0xE0
      then (case as of
              b # as \<Rightarrow> if 0xC2 \<le> a \<and> continuation b
                then map_option ((#) ((a - 0xC0) * 64 + (b - 0x80))) (decode_units as) else None
            | _ \<Rightarrow> None)
      else if a < 0xF0
      then (case as of
              b # c # as \<Rightarrow>
                (let point = (a - 0xE0) * 4096 + (b - 0x80) * 64 + (c - 0x80)
                 in if continuation b \<and> continuation c \<and> 0x800 \<le> point \<and> scalar point
                    then map_option ((#) point) (decode_units as) else None)
            | _ \<Rightarrow> None)
      else (case as of
              b # c # d # as \<Rightarrow>
                (let point = (a - 0xF0) * 262144 + (b - 0x80) * 4096 + (c - 0x80) * 64 + (d - 0x80)
                 in if continuation b \<and> continuation c \<and> continuation d \<and> 0x10000 \<le> point \<and> scalar point
                    then map_option ((#) point) (decode_units as) else None)
            | _ \<Rightarrow> None))"

definition utf8_decode :: "bytes \<Rightarrow> pystr result" where
  \<comment> \<open>\<open>body.decode("utf-8")\<close>\<close>
  "utf8_decode bs = (case decode_units (map uint bs) of None \<Rightarrow> Inl UnicodeDecodeError | Some s \<Rightarrow> Inr s)"

section \<open>Response models\<close>

record validation_error_detail =
  ve_field :: pystr
  ve_message :: pystr

record config_invalid_response =
  cr_status :: pystr
  cr_errors :: "validation_error_detail list"

record config_replace_response =
  rp_status :: pystr
  rp_generation :: int
  rp_warnings :: "pystr list"
  rp_reload_time_ms :: int

record compile_response =
  cp_status :: pystr
  cp_generation :: int
  cp_warnings :: "pystr list"
  cp_size_bytes :: int

record activate_request =
  aq_generation :: int

record activate_response =
  av_status :: pystr
  av_generation :: int
  av_reload_time_ms :: int

record health_response =
  he_status :: pystr
  he_uptime_seconds :: int

record games_response =
  gr_games :: "game list"

text \<open>What the service returns, as the models of the endpoints render it.\<close>

definition compile_response_of :: "compiled_info \<Rightarrow> compile_response" where
  "compile_response_of i = \<lparr>cp_status = ci_status i, cp_generation = ci_generation i,
     cp_warnings = ci_warnings i, cp_size_bytes = ci_size_bytes i\<rparr>"

definition replace_response_of :: "activated_info \<Rightarrow> config_replace_response" where
  "replace_response_of i = \<lparr>rp_status = ai_status i, rp_generation = ai_generation i,
     rp_warnings = ai_warnings i, rp_reload_time_ms = ai_reload_time_ms i\<rparr>"

definition activate_response_of :: "activated_info \<Rightarrow> activate_response" where
  "activate_response_of i = \<lparr>av_status = ai_status i, av_generation = ai_generation i,
     av_reload_time_ms = ai_reload_time_ms i\<rparr>"

section \<open>Endpoints\<close>

datatype 'a response =
    Success 'a
  | Rejected config_invalid_response
  | HTTPError int pystr pystr \<comment> \<open>status, code and message\<close>
  | InternalError pystr

fun status_code :: "'a response \<Rightarrow> int" where
  "status_code (Success _) = 200"
| "status_code (Rejected _) = 422"
| "status_code (HTTPError n _ _) = n"
| "status_code (InternalError _) = 500"

definition config_error_response :: "pystr \<Rightarrow> pystr option \<Rightarrow> 'a response" where
  "config_error_response message fld =
     Rejected \<lparr>cr_status = lit ''rejected'', cr_errors = [\<lparr>
       ve_field = (case fld of None \<Rightarrow> lit ''<root>'' | Some f \<Rightarrow> if f = [] then lit ''<root>'' else f),
       ve_message = message\<rparr>]\<rparr>"

definition unhandled :: "environment \<Rightarrow> py_error \<Rightarrow> 'a response" where
  \<comment> \<open>the two exception handlers of the application\<close>
  "unhandled ev e = (case e of ConfigError m f \<Rightarrow> config_error_response m f | _ \<Rightarrow> InternalError (error_text ev e))"

definition respond :: "(py_error \<Rightarrow> 'a response) \<Rightarrow> (service, 'a) prog \<Rightarrow> service \<Rightarrow> 'a response \<times> service" where
  \<comment> \<open>run a handler's body; the exceptions it raises become a response\<close>
  "respond handle m s = (case m s of (Inr x, s') \<Rightarrow> (Success x, s') | (Inl e, s') \<Rightarrow> (handle e, s'))"

definition modelled :: "('a \<Rightarrow> 'b) \<Rightarrow> (service, 'a) prog \<Rightarrow> (service, 'b) prog" where
  \<comment> \<open>what a handler returns, rendered by its response model\<close>
  "modelled f m = bindp m (\<lambda>x. ret (f x))"

definition too_large :: "'a response" where
  "too_large = HTTPError 413 (lit ''PAYLOAD_TOO_LARGE'') (lit ''Config body exceeds 1 MiB limit'')"

definition api_compile :: "environment \<Rightarrow> bytes \<Rightarrow> service \<Rightarrow> compile_response response \<times> service" where
  "api_compile ev body s =
     (if MAX_CONFIG_BYTES < int (length body) then (too_large, s)
      else respond (unhandled ev)
        (modelled compile_response_of (bindp (lift_r (utf8_decode body)) (compile_config ev))) s)"

definition api_activate :: "environment \<Rightarrow> activate_request \<Rightarrow> service \<Rightarrow> activate_response response \<times> service" where
  "api_activate ev payload = respond
     (\<lambda>e. if is_runtime_error e then HTTPError 423 (lit ''RELOAD_IN_PROGRESS'') (error_text ev e) else unhandled ev e)
     (modelled activate_response_of (activate_generation ev (aq_generation payload)))"

definition api_put :: "environment \<Rightarrow> pystr \<Rightarrow> bytes \<Rightarrow> service \<Rightarrow> config_replace_response response \<times> service" where
  "api_put ev content_type body s =
     (if MAX_CONFIG_BYTES < int (length body) then (too_large, s)
      else if \<not> list_ex (\<lambda>kind. contains kind content_type) [lit ''yaml'', lit ''yml'', lit ''json'']
      then (HTTPError 415 (lit ''UNSUPPORTED_MEDIA_TYPE'')
              (lit ''Content-Type must be application/yaml or application/json''), s)
      else respond (unhandled ev)
        (modelled replace_response_of (bindp (lift_r (utf8_decode body)) (replace_config ev))) s)"

definition api_reload :: "environment \<Rightarrow> service \<Rightarrow> config_replace_response response \<times> service" where
  "api_reload ev = respond (unhandled ev) (modelled replace_response_of (reload_config ev))"

definition api_eject :: "environment \<Rightarrow> service \<Rightarrow> pystr response \<times> service" where
  "api_eject ev = respond (unhandled ev) (bindp (eject ev) (\<lambda>_. ret (lit ''ejected'')))"

record nbd_info =
  ni_connected :: bool
  ni_socket_path :: pystr
  ni_connections :: int
  ni_requests_total :: int
  ni_bytes_served :: int
  ni_read_errors :: int

record system_info =
  sy_page_cache_mib :: int
  sy_cpu_percent :: int

record status_response =
  sr_service :: service_info
  sr_gadget :: gadget_info
  sr_nbd :: nbd_info
  sr_cache :: cache_info
  sr_mounts :: "mount_status list"
  sr_config :: config_info
  sr_system :: system_info

definition status_response_of :: "service_status \<Rightarrow> status_response" where
  \<comment> \<open>the response model fills in the counters the service does not report\<close>
  "status_response_of st =
     (let (connected, socket_path, connections) = ss_nbd st
      in \<lparr>sr_service = ss_service st, sr_gadget = ss_gadget st,
          sr_nbd = \<lparr>ni_connected = connected, ni_socket_path = socket_path, ni_connections = connections,
            ni_requests_total = 0, ni_bytes_served = 0, ni_read_errors = 0\<rparr>,
          sr_cache = ss_cache st, sr_mounts = ss_mounts st, sr_config = ss_config st,
          sr_system = \<lparr>sy_page_cache_mib = 0, sy_cpu_percent = 0\<rparr>\<rparr>)"

definition api_get :: "environment \<Rightarrow> (service, 'a) prog \<Rightarrow> service \<Rightarrow> 'a response \<times> service" where
  "api_get ev query = respond (unhandled ev) query"

definition api_status :: "environment \<Rightarrow> service \<Rightarrow> status_response response \<times> service" where
  "api_status ev = api_get ev (modelled status_response_of get_status)"

definition api_config :: "environment \<Rightarrow> service \<Rightarrow> config_view response \<times> service" where
  "api_config ev = api_get ev get_config_json"

definition api_health :: "environment \<Rightarrow> service \<Rightarrow> health_response response \<times> service" where
  "api_health ev = api_get ev
     (modelled (\<lambda>(st, t). \<lparr>he_status = st, he_uptime_seconds = t\<rparr>) get_health)"

definition api_games :: "environment \<Rightarrow> int \<Rightarrow> service \<Rightarrow> games_response response \<times> service" where
  "api_games ev dir_size = api_get ev (modelled (\<lambda>games. \<lparr>gr_games = games\<rparr>) (get_games dir_size))"

definition lifespan :: "environment \<Rightarrow> (service, unit) prog \<Rightarrow> (service, unit) prog" where
  \<comment> \<open>the requests served run between \<open>startup\<close> and \<open>shutdown\<close>\<close>
  "lifespan ev serve = bindp (startup ev) (\<lambda>_. bindp serve (\<lambda>_. shutdown ev))"

section \<open>Decoding inverts encoding\<close>

lemma decode_two:
  assumes "2 \<le> a" "a < 32" "0 \<le> b" "b < 64"
  shows "decode_units ((0xC0 + a) # (0x80 + b) # as) = map_option ((#) (a * 64 + b)) (decode_units as)"
  using assms by (simp add: continuation_def)

lemma decode_three:
  assumes "0 \<le> a" "a < 16" "0 \<le> b" "b < 64" "0 \<le> c" "c < 64"
    and "0x800 \<le> a * 4096 + b * 64 + c" "scalar (a * 4096 + b * 64 + c)"
  shows "decode_units ((0xE0 + a) # (0x80 + b) # (0x80 + c) # as) =
    map_option ((#) (a * 4096 + b * 64 + c)) (decode_units as)"
  using assms by (simp add: continuation_def Let_def)

lemma decode_four:
  assumes "0 \<le> a" "a < 8" "0 \<le> b" "b < 64" "0 \<le> c" "c < 64" "0 \<le> d" "d < 64"
    and "0x10000 \<le> a * 262144 + b * 4096 + c * 64 + d" "scalar (a * 262144 + b * 4096 + c * 64 + d)"
  shows "decode_units ((0xF0 + a) # (0x80 + b) # (0x80 + c) # (0x80 + d) # as) =
    map_option ((#) (a * 262144 + b * 4096 + c * 64 + d)) (decode_units as)"
  using assms by (simp add: continuation_def Let_def add.assoc)

lemma decode_point:
  assumes "scalar c"
  shows "decode_units (map uint (utf8_point c) @ as) = map_option ((#) c) (decode_units as)"
proof -
  have c: "0 \<le> c" "c < 0x110000" using assms by (simp_all add: scalar_def)
  have low: "0 \<le> c mod 64" "c mod 64 < 64" "0 \<le> c div 64 mod 64" "c div 64 mod 64 < 64"
    "0 \<le> c div 4096 mod 64" "c div 4096 mod 64 < 64" by simp_all
  have "c div 4096 = c div 64 div 64" "c div 262144 = c div 4096 div 64"
    using zdiv_zmult2_eq [of 64 c 64] zdiv_zmult2_eq [of 64 c 4096] by simp_all
  then have digits: "c div 64 * 64 + c mod 64 = c" "c div 4096 * 64 + c div 64 mod 64 = c div 64"
    "c div 262144 * 64 + c div 4096 mod 64 = c div 4096"
    using div_mult_mod_eq [of c 64] div_mult_mod_eq [of "c div 64" 64] div_mult_mod_eq [of "c div 4096" 64] by simp_all
  consider "c < 0x80" | "0x80 \<le> c" "c < 0x800" | "0x800 \<le> c" "c < 0x10000" | "0x10000 \<le> c" by linarith
  then show ?thesis
  proof cases
    case 1
    then show ?thesis using c by (simp add: utf8_point_def uint_byte)
  next
    case 2
    then have a: "2 \<le> c div 64" "c div 64 < 32" "c div 64 * 64 + c mod 64 = c" by presburger+
    then have "map uint (utf8_point c) = [0xC0 + c div 64, 0x80 + c mod 64]"
      using 2 low by (simp add: utf8_point_def uint_byte del: of_int_add)
    then show ?thesis using decode_two [OF a(1,2) low(1,2)] a(3) by simp
  next
    case 3
    then have a: "0 \<le> c div 4096" "c div 4096 < 16"
      using c by (simp_all add: pos_imp_zdiv_nonneg_iff int_div_less_iff)
    have e: "c div 4096 * 4096 + c div 64 mod 64 * 64 + c mod 64 = c" using digits(1,2) by linarith
    have "map uint (utf8_point c) = [0xE0 + c div 4096, 0x80 + c div 64 mod 64, 0x80 + c mod 64]"
      using 3 low a by (simp add: utf8_point_def uint_byte del: of_int_add)
    then show ?thesis using decode_three [OF a low(3,4) low(1,2), unfolded e, OF 3(1) assms]
      by (simp only: append.simps)
  next
    case 4
    then have a: "0 \<le> c div 262144" "c div 262144 < 8"
      using c by (simp_all add: pos_imp_zdiv_nonneg_iff int_div_less_iff)
    have e: "c div 262144 * 262144 + c div 4096 mod 64 * 4096 + c div 64 mod 64 * 64 + c mod 64 = c"
      using digits by linarith
    have "map uint (utf8_point c) = [0xF0 + c div 262144, 0x80 + c div 4096 mod 64, 0x80 + c div 64 mod 64, 0x80 + c mod 64]"
      using 4 low a by (simp add: utf8_point_def uint_byte del: of_int_add)
    then show ?thesis using decode_four [OF a low(5,6) low(3,4) low(1,2), unfolded e, OF 4 assms]
      by (simp only: append.simps)
  qed
qed

lemma decode_encode: "list_all scalar s \<Longrightarrow> decode_units (map uint (concat (map utf8_point s))) = Some s"
  by (induction s) (simp_all add: decode_point)

lemma utf8_roundtrip: "utf8 s = Inr bs \<Longrightarrow> utf8_decode bs = Inr s"
  by (auto simp: utf8_def utf8_decode_def decode_encode split: if_splits)

section \<open>What a failed request leaves alone\<close>

lemma compile_config_fields:
  assumes "compile_config ev text s = (r, t)"
  shows "sv_active t = sv_active s" "sv_state t = sv_state s" "sv_state_detail t = sv_state_detail s"
    "sv_locked t = sv_locked s"
proof -
  have "\<exists>h n table. t = s\<lparr>sv_host := h, sv_next_generation := n, sv_compiled := table\<rparr>"
  proof (cases r)
    case (Inl e)
    then obtain h where "t = s\<lparr>sv_host := h\<rparr>" using compile_config_outcome [OF assms] by auto
    then have "t = s\<lparr>sv_host := h, sv_next_generation := sv_next_generation s, sv_compiled := sv_compiled s\<rparr>"
      by (cases s) simp
    then show ?thesis by blast
  next
    case (Inr i)
    then show ?thesis using compile_config_outcome [OF assms] by auto
  qed
  then show "sv_active t = sv_active s" "sv_state t = sv_state s" "sv_state_detail t = sv_state_detail s"
    "sv_locked t = sv_locked s" by auto
qed

lemma replace_config_failure:
  assumes "replace_config ev text s = (Inl e, s')" "\<not> sv_locked s"
  shows "sv_active s' = sv_active s" "sv_state s' = sv_state s" "sv_state_detail s' = sv_state_detail s" "\<not> sv_locked s'"
    and "fst (compile_config ev text s) = Inl e' \<Longrightarrow>
      s' = s\<lparr>sv_host := sv_host s'\<rparr> \<and> h_writes (sv_host s') = h_writes (sv_host s)"
proof -
  obtain q t where q: "compile_config ev text s = (q, t)" by fastforce
  note out = compile_config_outcome [OF q]
  have "sv_active s' = sv_active s \<and> sv_state s' = sv_state s \<and> sv_state_detail s' = sv_state_detail s \<and> \<not> sv_locked s' \<and>
    (fst (compile_config ev text s) = Inl e' \<longrightarrow>
      s' = s\<lparr>sv_host := sv_host s'\<rparr> \<and> h_writes (sv_host s') = h_writes (sv_host s))"
  proof (cases q)
    case (Inl x)
    then have s': "s' = t" using assms(1) q by (simp add: replace_config_def bindp_def)
    have t: "same_service s t" using out Inl unfolding same_service_def by (cases s, cases t) simp
    show ?thesis unfolding s' same_service_fields [OF t] using out Inl assms(2) compile_writes [OF q] by simp
  next
    case (Inr i)
    note t = compile_config_fields [OF q]
    obtain r u where a: "activate_generation ev (ci_generation i) t = (r, u)" by fastforce
    have "s' = u" "\<exists>e. r = Inl e"
      using assms(1) q Inr a by (auto simp: replace_config_def bindp_def split: sum.splits)
    then show ?thesis using activate_outcome [OF a] t assms(2) q Inr by auto
  qed
  then show "sv_active s' = sv_active s" "sv_state s' = sv_state s" "sv_state_detail s' = sv_state_detail s" "\<not> sv_locked s'"
    and "fst (compile_config ev text s) = Inl e' \<Longrightarrow>
      s' = s\<lparr>sv_host := sv_host s'\<rparr> \<and> h_writes (sv_host s') = h_writes (sv_host s)" by blast+
qed

lemma replace_config_success:
  assumes "replace_config ev text s = (Inr i, s')" "\<not> sv_locked s"
  shows "\<exists>g. read_config ev text = Inr (gen_config g) \<and> sv_active s' = Some g \<and>
    gen_number g = sv_next_generation s \<and> ai_generation i = gen_number g \<and> sv_state s' = lit ''running'' \<and>
    \<not> sv_locked s' \<and> total_bytes (gen_layout g) = image_size_bytes (gen_config g)"
proof -
  obtain q t where q: "compile_config ev text s = (q, t)" by fastforce
  obtain ci where ci: "q = Inr ci" using assms(1) q by (cases q) (auto simp: replace_config_def bindp_def)
  obtain g where g: "read_config ev text = Inr (gen_config g)" "gen_number g = sv_next_generation s"
      "ci_generation ci = sv_next_generation s" "\<not> sv_locked t"
      "map_of (sv_compiled t) (gen_number g) = Some g" "total_bytes (gen_layout g) = image_size_bytes (gen_config g)"
  proof -
    from compile_config_outcome [OF q] ci obtain g where
      g: "ci_generation ci = sv_next_generation s" "read_config ev text = Inr (gen_config g)"
        "gen_number g = sv_next_generation s"
        "build_exfat (ev_fs ev (h_tree (sv_host t))) (ev_limit ev) (ev_upper ev) (gen_config g) = Inr (gen_layout g)"
        "t = s\<lparr>sv_host := sv_host t, sv_next_generation := sv_next_generation s + 1,
            sv_compiled := AList.update (gen_number g) g (sv_compiled s)\<rparr>" by auto
    have "sv_locked t = sv_locked s" "sv_compiled t = AList.update (gen_number g) g (sv_compiled s)"
      using arg_cong [OF g(5), of sv_locked] arg_cong [OF g(5), of sv_compiled] by simp_all
    then show thesis using that g assms(2) build_exfat_size [OF g(4)] by (simp add: update_conv)
  qed
  obtain r u where a: "activate_generation ev (ci_generation ci) t = (r, u)" by fastforce
  then obtain j where "r = Inr j" "u = s'" "ai_generation i = ai_generation j"
    using assms(1) q ci by (auto simp: replace_config_def bindp_def split: sum.splits)
  moreover have "ai_generation j = gen_number g" if "r = Inr j" for j
  proof -
    obtain p v where p: "acquire_reload (ci_generation ci) t = (p, v)" by fastforce
    then have "p = Inr g" using acquire_outcome [OF p] a that g(2,3,5)
      by (cases p) (auto simp: activate_generation_def bindp_def)
    then have "cutover ev g (h_clock (sv_host v)) v = (Inr j, u)"
      using a p that by (simp add: activate_generation_def bindp_def now_def)
    from cutover_outcome(6) [OF this] show ?thesis by simp
  qed
  ultimately show ?thesis using activate_outcome [OF a g(4)] g by auto
qed

lemma replace_while_locked:
  assumes "sv_locked s" "fst (compile_config ev text s) = Inr i"
  shows "fst (replace_config ev text s) = Inl (RuntimeError (lit ''another reload is already running''))"
proof -
  obtain t where t: "compile_config ev text s = (Inr i, t)" using assms(2) by (metis prod.collapse)
  from compile_config_outcome [OF t] obtain g where g: "ci_generation i = sv_next_generation s"
      "gen_number g = sv_next_generation s"
      "t = s\<lparr>sv_host := sv_host t, sv_next_generation := sv_next_generation s + 1,
        sv_compiled := AList.update (gen_number g) g (sv_compiled s)\<rparr>" by auto
  have "sv_compiled t = AList.update (gen_number g) g (sv_compiled s)"
    using arg_cong [OF g(3), of sv_compiled] by simp
  then have "map_of (sv_compiled t) (ci_generation i) = Some g" "sv_locked t"
    using g(1,2) assms(1) compile_config_fields(4) [OF t] by (simp_all add: update_conv)
  then show ?thesis
    by (simp add: replace_config_def bindp_def t activate_generation_def acquire_reload_def del: lit_Cons)
qed

section \<open>Status codes\<close>

lemma status_code_unhandled: "status_code (unhandled ev e) = (case e of ConfigError _ _ \<Rightarrow> 422 | _ \<Rightarrow> 500)"
  by (simp add: unhandled_def config_error_response_def split: py_error.split)

lemma respond_status:
  "status_code (fst (respond handle m s)) = (case fst (m s) of Inr _ \<Rightarrow> 200 | Inl e \<Rightarrow> status_code (handle e))"
  by (simp add: respond_def split: prod.split sum.split)

lemma modelled_result:
  "fst (modelled f m s) = (case fst (m s) of Inl e \<Rightarrow> Inl e | Inr x \<Rightarrow> Inr (f x))"
  by (simp add: modelled_def bindp_def ret_def split: prod.split sum.split)

lemma respond_modelled_status:
  "status_code (fst (respond handle (modelled f m) s)) =
     (case fst (m s) of Inr _ \<Rightarrow> 200 | Inl e \<Rightarrow> status_code (handle e))"
  by (simp add: respond_status modelled_result split: sum.split)

end
