(* ===== verification/SampleHost.thy ===== *)
theory SampleHost
  imports ControlPlane Sample
begin

text \<open>
  A concrete machine and environment for the sample configuration: a host on which nothing
  fails, with the sources mounted, two USB controllers and a gadget left over from an earlier
  run; the parsers answer every text with the sample document.
\<close>

definition dir_at :: "string \<Rightarrow> path \<times> fnode" where "dir_at s = (path_of (lit s), Dir)"
definition text_at :: "string \<Rightarrow> string \<Rightarrow> path \<times> fnode" where "text_at s t = (path_of (lit s), Text (lit t))"

definition sample_tree :: tree where
  "sample_tree =
     [dir_at ''/m'', text_at ''/m/a'' ''hello'', dir_at ''/m/d'', text_at ''/m/d/b'' ''b'',
      dir_at ''/var'', dir_at ''/var/lib'', dir_at ''/var/lib/remotepfs'',
      dir_at ''/sys'', dir_at ''/sys/class'', dir_at ''/sys/class/udc'',
      dir_at ''/sys/class/udc/a'', text_at ''/sys/class/udc/a/state'' ''not attached'',
      text_at ''/sys/class/udc/a/maximum_speed'' ''high-speed'',
      dir_at ''/sys/class/udc/b'', text_at ''/sys/class/udc/b/state'' ''not attached'',
      text_at ''/sys/class/udc/b/maximum_speed'' ''super-speed'',
      dir_at ''/sys/class/udc/c'', dir_at ''/sys/class/udc/c/device'',
      text_at ''/sys/class/udc/c/device/role'' ''host'',
      text_at ''/sys/class/udc/c/maximum_speed'' ''super-speed-plus'',
      dir_at ''/sys/kernel'', dir_at ''/sys/kernel/config'', dir_at ''/sys/kernel/config/usb_gadget'',
      dir_at ''/sys/kernel/config/usb_gadget/remotepfs'',
      text_at ''/sys/kernel/config/usb_gadget/remotepfs/UDC'' ''a'',
      dir_at ''/sys/kernel/config/usb_gadget/remotepfs/configs'',
      dir_at ''/sys/kernel/config/usb_gadget/remotepfs/configs/c.1'',
      (path_of (lit ''/sys/kernel/config/usb_gadget/remotepfs/configs/c.1/mass_storage.0''), Link (path_of (lit ''/x'')))]"

definition sample_host :: host where
  "sample_host = \<lparr>h_tree = sample_tree, h_fault = (\<lambda>_ _ _. None), h_calls = 0,
     h_virtual = (\<lambda>p. path_name p = lit ''UDC''), h_attributes = (\<lambda>_. []), h_clock = 0,
     h_sleep = (\<lambda>_ t. t), h_oversleep = (\<lambda>_. 0), h_run = (\<lambda>_ _ t. (Inr (0, []), t)),
     h_stat = (\<lambda>_. Inr (0, 0x8180)), h_strerror = (\<lambda>_. []), h_linux = False, h_group = Some 990,
     h_new_mode = 0x1A4, h_writes = [], h_commands = []\<rparr>"

definition sample_env :: environment where
  "sample_env = \<lparr>ev_fs = (\<lambda>_. sample_fs), ev_limit = 1000, ev_upper = sample_upper,
     ev_yaml_load = (\<lambda>s. if s = [] then Inl (YamlError []) else Inr (config_yaml sample_config)),
     ev_json_loads = (\<lambda>_. Inl (JSONDecodeError [])),
     ev_alnum = (\<lambda>_. True), ev_repr = (\<lambda>_. []), ev_lower = (\<lambda>s. s), ev_uuid = (\<lambda>_. []),
     ev_dumps = (\<lambda>_. []), ev_pid = 1, ev_text = (\<lambda>_. [])\<rparr>"

definition sample_service :: service where
  "sample_service = new_service (lit ''/etc/remotepfs/remotepfs.yaml'') (lit ''/var/lib/remotepfs/mapper.state'') sample_host"

lemma sample_steady: "steady sample_host"
  by (simp add: steady_def sample_host_def)

lemma sample_config_ok: "config_ok (\<lambda>_. True) sample_config"
proof -
  have "sources_ok (\<lambda>_. True) (cf_sources sample_config)"
      "entries_ok (mount_points sample_config) (cf_entries sample_config)"
      "label_ok (\<lambda>n. n \<le> 11) (cf_label sample_config)" "label_ok (\<lambda>n. n = 8) (cf_oem_name sample_config)"
    by code_simp+
  then show ?thesis
    by (simp add: config_ok_def sample_config_def size_ok_def prefetch_ok_def default_prefetch_def)
qed

lemma sample_validate: "validate (\<lambda>_. True) (\<lambda>_. []) (config_yaml sample_config) = Inr sample_config"
  by (rule validate_complete [OF sample_config_ok])

lemma sample_read_config: "read_config sample_env [97] = Inr sample_config"
proof -
  have "lstrip [97] = ([97] :: pystr)" "utf8 [97] = Inr [97]" by code_simp+
  then show ?thesis
    by (simp add: read_config_def parse_def sample_env_def sample_validate MAX_CONFIG_BYTES_def del: lit_Cons)
qed

lemma queries_check: "queries (iterp check_source es)"
proof -
  have "queries (check_source e)" for e unfolding check_source_def Let_def by (intro host_intros)
  then show ?thesis by (induction es) (auto intro!: host_intros)
qed

lemma sample_prepare:
  obtains n where "prepare_sources sample_config (sample_host\<lparr>h_calls := k\<rparr>) = (Inr (), sample_host\<lparr>h_calls := n\<rparr>)"
proof -
  have "fst (iterp check_source (cf_entries sample_config) sample_host) = Inr ()" by code_simp
  with queriesE [OF queries_check sample_steady, of "cf_entries sample_config" k] obtain n where
    "iterp check_source (cf_entries sample_config) (sample_host\<lparr>h_calls := k\<rparr>) = (Inr (), sample_host\<lparr>h_calls := n\<rparr>)"
    by metis
  then have "prepare_sources sample_config (sample_host\<lparr>h_calls := k\<rparr>) = (Inr (), sample_host\<lparr>h_calls := n\<rparr>)"
    by (simp add: prepare_sources_def bindp_def sample_host_def)
  then show thesis by (rule that)
qed

lemma sample_begin:
  assumes "sv_host s = sample_host\<lparr>h_calls := k\<rparr>"
  obtains l n where "build sample_fs 1000 sample_upper sample_builder = Inr l"
    "compile_begin sample_env sample_config s =
       (Inr \<lparr>gen_number = sv_next_generation s, gen_config = sample_config, gen_layout = l, gen_created_at = 0\<rparr>,
        s\<lparr>sv_host := sample_host\<lparr>h_calls := n\<rparr>\<rparr>)"
proof -
  obtain l where l: "build sample_fs 1000 sample_upper sample_builder = Inr l" using sample_build by blast
  then have "build_exfat sample_fs 1000 sample_upper sample_config = Inr l"
    by (simp add: build_exfat_def sample_new_builder)
  moreover obtain n where "prepare_sources sample_config (sv_host s) = (Inr (), sample_host\<lparr>h_calls := n\<rparr>)"
    unfolding assms by (rule sample_prepare)
  ultimately show thesis using that [OF l]
    by (simp add: compile_begin_def bindp_def on_host_def sample_env_def) (simp add: sample_host_def)
qed

lemma sample_replace:
  "\<exists>i s'. replace_config sample_env [97] sample_service = (Inr i, s')"
proof -
  have "sv_host sample_service = sample_host\<lparr>h_calls := 0\<rparr>"
    by (simp add: sample_service_def new_service_def) (simp add: sample_host_def)
  then obtain l n where c: "compile_begin sample_env sample_config sample_service =
       (Inr \<lparr>gen_number = sv_next_generation sample_service, gen_config = sample_config, gen_layout = l, gen_created_at = 0\<rparr>,
        sample_service\<lparr>sv_host := sample_host\<lparr>h_calls := n\<rparr>\<rparr>)" by (rule sample_begin)
  define g where "g = \<lparr>gen_number = sv_next_generation sample_service, gen_config = sample_config, gen_layout = l,
    gen_created_at = 0\<rparr>"
  define t where "t = sample_service\<lparr>sv_host := sample_host\<lparr>h_calls := n\<rparr>, sv_next_generation := 2,
    sv_compiled := [(1, g)]\<rparr>"
  have n: "gen_number g = 1" by (simp add: g_def sample_service_def new_service_def)
  have t: "compile_config sample_env [97] sample_service = (Inr \<lparr>ci_status = lit ''compiled'', ci_generation = 1, ci_warnings = [], ci_size_bytes = total_bytes l\<rparr>, t)"
    using c unfolding g_def [symmetric]
    by (simp add: compile_config_def sample_read_config compile_def bindp_def compile_commit_def n)
      (simp add: t_def sample_service_def new_service_def g_def)
  have "\<not> h_linux (sv_host t)" "\<not> sv_locked t" "map_of (sv_compiled t) 1 = Some g"
    by (simp_all add: t_def sample_host_def sample_service_def new_service_def)
  then show ?thesis
    by (simp add: replace_config_def t activate_generation_def acquire_reload_def bindp_def now_def cutover_def
        finallyp_def go_live_def on_linux_def)
qed

end
