(* ===== verification/CommandLine.thy ===== *)
theory CommandLine
  imports ControlPlane
begin

text \<open>
  \<open>run_server\<close> and \<open>main\<close> of \<open>service.py\<close>. What \<open>argparse\<close> makes of the arguments
  (\<open>parse_args\<close>, \<open>Inl\<close> the exit status of a usage error) and what uvicorn does with the
  application (\<open>serve\<close>) are parameters.
\<close>

section \<open>The commands\<close>

datatype command =
    Serve
  | CompileFile "pystr option"
  | StatusCommand
  | ShutdownCommand

record arguments =
  ar_config :: pystr
  ar_command :: command

definition DEFAULT_SERVICE_STATE_PATH :: pystr where
  "DEFAULT_SERVICE_STATE_PATH = lit ''/var/lib/remotepfs/mapper.state''"

fun command_name :: "command \<Rightarrow> pystr" where
  "command_name Serve = lit ''serve''"
| "command_name (CompileFile _) = lit ''compile''"
| "command_name StatusCommand = lit ''status''"
| "command_name ShutdownCommand = lit ''shutdown''"

definition load_file :: "environment \<Rightarrow> pystr \<Rightarrow> (host, config) prog" where
  "load_file ev p h =
     (case read_text (path_of p) h of (r, h') \<Rightarrow>
        (load (\<lambda>_. r) (\<lambda>n. os_error_text h' n (path_of p)) (ev_yaml_load ev) (ev_alnum ev) (ev_repr ev) p, h'))"

definition run_server :: "(service, unit) prog \<Rightarrow> pystr \<Rightarrow> (host, unit) prog" where
  "run_server serve config_path h =
     (case serve (new_service config_path DEFAULT_SERVICE_STATE_PATH h) of (r, s) \<Rightarrow> (r, sv_host s))"

definition main ::
  "environment \<Rightarrow> (pystr list \<Rightarrow> int + arguments) \<Rightarrow> (service, unit) prog \<Rightarrow> pystr list \<Rightarrow>
     (host, int \<times> pystr list) prog" where
  \<comment> \<open>the exit status and the lines printed\<close>
  "main ev parse_args serve argv =
     (case parse_args argv of
        Inl status \<Rightarrow> ret (status, [])
      | Inr args \<Rightarrow>
          (case ar_command args of
             Serve \<Rightarrow> bindp (run_server serve (ar_config args)) (\<lambda>_. ret (0, []))
           | CompileFile p \<Rightarrow>
               bindp (load_file ev (case p of Some q \<Rightarrow> if q = [] then ar_config args else q | None \<Rightarrow> ar_config args))
                 (\<lambda>c. ret (0, [lit ''valid: image_size='' @ show_int (image_size_bytes c) @ lit '' bytes, entries='' @
                    show_int (int (length (cf_entries c)))]))
           | other \<Rightarrow> ret (0, [command_name other @ lit '': use systemd or HTTP API for lifecycle operations''])))"

section \<open>What the commands do\<close>

lemma load_file_outcome:
  assumes "load_file ev p h = (r, h')"
  shows "h_tree h' = h_tree h" "h_writes h' = h_writes h" "h_commands h' = h_commands h"
    "r = Inr c \<Longrightarrow> config_ok (ev_alnum ev) c"
proof -
  have "h_tree h' = h_tree h \<and> h_writes h' = h_writes h \<and> h_commands h' = h_commands h"
    using assms by (auto simp: load_file_def read_text_def syscall_def Let_def
      split: prod.splits option.splits sum.splits fnode.splits)
  then show "h_tree h' = h_tree h" "h_writes h' = h_writes h" "h_commands h' = h_commands h" by simp_all
  show "config_ok (ev_alnum ev) c" if "r = Inr c"
    using assms that
    by (auto simp: load_file_def load_def parse_def rbind_Inr_iff simp del: lit_Cons
      split: prod.splits if_splits intro: validate_sound)
qed

text \<open>
  \<open>compile\<close> reports a file as valid only when it holds a configuration of the contract, and
  it mounts, writes and starts nothing.
\<close>

lemma compile_command_sound:
  assumes "parse_args argv = Inr args" "ar_command args = CompileFile p"
    and "main ev parse_args serve argv h = (Inr (status, lines), h')"
  shows "h_tree h' = h_tree h" "h_commands h' = h_commands h"
    "\<exists>c. config_ok (ev_alnum ev) c \<and> status = 0 \<and>
       lines = [lit ''valid: image_size='' @ show_int (image_size_bytes c) @ lit '' bytes, entries='' @
         show_int (int (length (cf_entries c)))]"
proof -
  let ?p = "case p of Some q \<Rightarrow> if q = [] then ar_config args else q | None \<Rightarrow> ar_config args"
  obtain r k where l: "load_file ev ?p h = (r, k)" by fastforce
  obtain c where c: "r = Inr c" "k = h'" "status = 0"
      "lines = [lit ''valid: image_size='' @ show_int (image_size_bytes c) @ lit '' bytes, entries='' @
         show_int (int (length (cf_entries c)))]"
    using assms l by (cases r) (auto simp: main_def bindp_def ret_def simp del: lit_Cons)
  show "h_tree h' = h_tree h" "h_commands h' = h_commands h"
    using load_file_outcome(1,3) [OF l] by (simp_all add: c(2))
  show "\<exists>c. config_ok (ev_alnum ev) c \<and> status = 0 \<and>
       lines = [lit ''valid: image_size='' @ show_int (image_size_bytes c) @ lit '' bytes, entries='' @
         show_int (int (length (cf_entries c)))]"
    using load_file_outcome(4) [OF l c(1)] c(3,4) by blast
qed

end
