(* ===== verification/Spec2Isabelle.thy ===== *)
theory Spec2Isabelle
  imports EagerFat MapperRanges SampleHost CommandLine
begin

text \<open>
  RemotePFS serves a read-only exFAT volume, made of files on network shares, to a console
  over USB. A YAML configuration (\<^verbatim>\<open>config.py\<close>) names the shares and what to expose; the
  service (\<^verbatim>\<open>service.py\<close>, driven over HTTP by \<^verbatim>\<open>api.py\<close>) mounts the shares
  (\<^verbatim>\<open>mount_manager.py\<close>), has \<^verbatim>\<open>exfat_builder.py\<close> scan them and lay out a volume, and
  publishes the layout to an nbdkit plugin (\<^verbatim>\<open>remotepfs_nbd.py\<close>) that answers block reads
  with the lazy \<^verbatim>\<open>sector_mapper.py\<close>. \<^verbatim>\<open>nbdkit_manager.py\<close> runs nbdkit and the NBD client,
  \<^verbatim>\<open>gadget_manager.py\<close> binds the block device to a USB controller, and \<^verbatim>\<open>preloader.py\<close> warms
  nbdkit's cache. All of it is under \<^verbatim>\<open>src/src/remotepfs/\<close>.

  Conventions (\<^verbatim>\<open>Prelude\<close>). A Python \<open>int\<close> is an \<open>int\<close>, a \<open>bytes\<close> a list of 8-bit words, a
  \<open>str\<close> the list of its code points, a \<open>dict\<close> an association list, an exception a
  \<open>py_error\<close>. Pure code returns \<open>py_error + 'a\<close>; methods that change their object are
  functions from a state to a result and the state left behind, which an exception does not
  roll back. 32-bit and 16-bit checksums and all stored fields are proved to stay in range.

  Theories, bottom up:
  \<^item> \<^verbatim>\<open>Consts\<close>, \<^verbatim>\<open>Bytes\<close> (\<open>struct\<close> and buffers; locale \<open>fixed_codec\<close>), \<^verbatim>\<open>Checksum\<close> (locale
    \<open>rotating_checksum\<close>), \<^verbatim>\<open>Timestamp\<close>, \<^verbatim>\<open>Sha256\<close>, \<^verbatim>\<open>Unicode\<close>, \<^verbatim>\<open>PyStr\<close>: the parts of the language
    and its library the program computes with.
  \<^item> \<^verbatim>\<open>exfat_builder.py\<close>: \<^verbatim>\<open>Layout\<close> (the dataclasses and the pickled state), \<^verbatim>\<open>SourceTree\<close>
    (snapshots, nodes, scan, walks), \<^verbatim>\<open>Geometry\<close>, \<^verbatim>\<open>Directory\<close> (entry sets, up-case table),
    \<^verbatim>\<open>Builder\<close> (placement, boot regions, metadata, \<open>build\<close>), \<^verbatim>\<open>EagerFat\<close> (\<open>_fat_bytes\<close>).
  \<^item> \<^verbatim>\<open>sector_mapper.py\<close>: \<^verbatim>\<open>World\<close> (descriptors and storage), \<^verbatim>\<open>SectorMapper\<close>.
  \<^item> \<^verbatim>\<open>config.py\<close>: \<^verbatim>\<open>ConfigTypes\<close>, \<^verbatim>\<open>ConfigValidate\<close>.
  \<^item> \<^verbatim>\<open>remotepfs_nbd.py\<close>: \<^verbatim>\<open>NbdPlugin\<close>. The managers: \<^verbatim>\<open>Host\<close> (files, commands and a clock),
    \<^verbatim>\<open>MountManager\<close>, \<^verbatim>\<open>NbdkitManager\<close>, \<^verbatim>\<open>GadgetManager\<close>. \<^verbatim>\<open>preloader.py\<close>: \<^verbatim>\<open>Preloader\<close>.
  \<^item> \<^verbatim>\<open>service.py\<close>: \<^verbatim>\<open>Service\<close> and, for its queries, \<^verbatim>\<open>ControlPlane\<close>, which also holds
    \<^verbatim>\<open>api.py\<close>. \<^verbatim>\<open>CommandLine\<close>: \<open>run_server\<close> and \<open>main\<close>.
  \<^item> \<^verbatim>\<open>Sample\<close> and \<^verbatim>\<open>SampleHost\<close>: a concrete tree, configuration, machine and environment, at
    which the witnesses apply the theorems.

  What the lemmas show:
  \<^item> \<^verbatim>\<open>TreeWalk\<close>: the scan returns exactly the tree the file system presents, in name order,
    and the two walks agree. \<^verbatim>\<open>DirectoryRead\<close>, \<^verbatim>\<open>DirectorySize\<close>: an exFAT reader gets the
    children back from the encoded directory, and how many clusters an encoding takes.
  \<^item> \<^verbatim>\<open>BuilderAlloc\<close>, \<^verbatim>\<open>BuilderMetadata\<close>, \<^verbatim>\<open>BuilderTotal\<close>, \<^verbatim>\<open>BuilderImage\<close>, \<^verbatim>\<open>VolumeImage\<close>,
    \<^verbatim>\<open>VolumeContents\<close>, \<^verbatim>\<open>VolumeFacts\<close>: allocation tiles the heap, no two stores overlap,
    \<open>build\<close> raises nothing but its ValueErrors, and the sectors of a volume hold the boot
    regions, FAT, bitmap, directories and files they should.
  \<^item> \<^verbatim>\<open>MapperMetadata\<close>, \<^verbatim>\<open>MapperRead\<close> (locale \<open>sector_source\<close>), \<^verbatim>\<open>MapperExtents\<close> (locale
    \<open>sector_probe\<close>), \<^verbatim>\<open>MapperRanges\<close>, \<^verbatim>\<open>Descriptors\<close> (locale \<open>kept_by_open\<close>), \<^verbatim>\<open>VolumeReads\<close>:
    reads refine an abstract image, a function from sectors to 512 bytes, for every alignment,
    length and history of calls; extents and prefetch ranges are exact; no descriptor leaks.
  \<^item> \<^verbatim>\<open>ConfigFacts\<close>, \<^verbatim>\<open>ConfiguredVolume\<close>: validation accepts exactly the configurations of the
    contract \<open>config_ok\<close>, and what building one can still raise.
  \<^item> \<^verbatim>\<open>HostLogic\<close> (judgements derived from the shape of a program), \<^verbatim>\<open>GadgetFacts\<close>,
    \<^verbatim>\<open>ServiceFacts\<close>: order of the writes to ConfigFS, choice of a controller, teardown; frames
    of compiling and activating, atomic publication of the state file, and the invariant of the
    step relation in which the requests of several threads interleave.

  Premises. The theorems on volumes assume \<open>valid_build\<close>: the build succeeded, the image has
  more than 24 sectors and at most 2047 GiB (\<open>builder_ok\<close>), and every directory of the scanned
  tree fits the clusters that \<open>_directory_cluster_count\<close> reserves for it (\<open>all_fit\<close>). The builder
  checks the lower bound of the size, validation gives the upper one; C10 shows a directory that
  does not fit, and C11 says exactly when one does. \<open>well_served\<close> adds that every source file can be opened and read
  without error. \<open>tree_fine\<close> means scanned names of valid Unicode and at most 255 UTF-16 units.

  Bounds and fuel. The scan, \<open>remove_tree\<close> and the builder's recursion take Python's recursion
  limit as fuel and raise RecursionError at 0, as Python does. \<open>extents_loop\<close> gets the length of
  its window, one unit per byte, and advances 512 bytes per turn. The wait for nbdkit's socket
  gets 201 rounds of at least 50 ms for its 10 s, the wait for nbdsh 601 rounds of at least
  100 ms for its 60 s; both are shown never to run out. The prefetch worker runs until it is
  stopped, so its fuel is a parameter, and C33 says how much is enough.

  Parameters. Not under \<^verbatim>\<open>src/\<close>, hence arguments of the definitions that use them: the mounted
  file systems (\<open>source_fs\<close>, \<open>world\<close>), PyYAML and \<open>json.loads\<close>, \<open>pickle\<close>, nbdkit's constants,
  what commands do (\<open>h_run\<close>), what the kernel keeps in ConfigFS (\<open>h_virtual\<close>,
  \<open>h_attributes\<close>), the tables of Unicode (\<open>str.upper\<close>, \<open>str.lower\<close>, \<open>str.isalnum\<close>), \<open>repr\<close>, new
  UUIDs, which system call fails (\<open>h_fault\<close>), what argparse makes of the arguments, and uvicorn.

  Not modelled: \<open>_load_statx\<close> (finding libc's \<open>statx\<close>; whether it exists is a parameter),
  logging, FastAPI's routing and JSON, the position that PyYAML appends to the message of an
  error, and the blocking of a child process on full pipes. In \<open>svc_step\<close> a compilation is one
  step up to the new generation and one step from there on, an activation one step for the lock
  and one for the cutover, the recording of a prefetch pass one step for the lock and one for
  the counters. Stopping a worker lets up to five seconds pass; since its thread may outlive
  that, a pass can be recorded in any state.
\<close>

section \<open>A volume holds its sources\<close>

text \<open>
  C1. Reading a file through the sector mapper. Let a layout be built for an image of supported
  size (more than 24 sectors, at most 2047 GiB) from a scanned tree in which every directory
  fits the clusters reserved for it (C11 says when, C10 when not), let every source file be
  openable and readable without error, and let the size recorded for a file be its length.
  Then a read of any range inside that file returns exactly its bytes, whatever the alignment
  of the range to sectors and clusters.
\<close>

theorem mapper_reads_file:
  assumes "valid_build fs limit up b root0 l" "serves w files" "fds_ok w"
    and "list_all (\<lambda>fm. files (fm_source_path fm) \<noteq> None) (file_mappings l)"
    and "fm \<in> set (file_mappings l)" "files (fm_source_path fm) = Some content"
    and "int (length content) = fm_size_bytes fm"
    and "0 \<le> off" "off + int (length out) \<le> int (length content)"
  shows "fst (mapper_read (512 * file_start_sector l fm + off) (Some out) (new_mapper l w)) =
    Inr (slice (nat off) (length out) content)"
proof (rule valid_build_volume [OF assms(1)])
  fix root nxt assume v: "volume up b root0 root nxt l"
  note inside = file_in_image [OF v assms(5)]
  have inv: "mapper_inv l files (new_mapper l w)"
    using new_mapper_inv volume_layout_ok [OF v] assms(2-4) by blast
  have "0 \<le> 512 * file_start_sector l fm + off"
    "512 * file_start_sector l fm + off + int (length out) \<le> total_bytes l"
    using inside assms(7-9) layout_fields(1) [OF v] by simp_all
  moreover have "length (slice (nat off) (length out) content) = length out"
    using assms(8,9) by simp
  ultimately show ?thesis
    using mapper_read_window [OF inv] inside(3) assms(7,9)
      file_contents [where files = files and n = "int (length out)", OF v assms(5,6,8)]
    by fastforce
qed

theorem mapper_reads_file_witness:
  "\<exists>l. build sample_fs 1000 sample_upper sample_builder = Inr l \<and>
     fst (mapper_read (512 * file_start_sector l sample_mapping_a + 1) (Some [0, 0, 0])
       (new_mapper l sample_world)) = Inr [101, 108, 108]"
proof -
  obtain l where l: "build sample_fs 1000 sample_upper sample_builder = Inr l"
      "built sample_upper sample_builder sample_scanned sample_placed 9 l"
    using sample_build by blast
  note fm = sample_volume(3) [OF l(2)]
  have "fst (mapper_read (512 * file_start_sector l sample_mapping_a + 1) (Some [0, 0, 0])
      (new_mapper l sample_world)) = Inr (slice (nat 1) (length [0 :: byte, 0, 0]) [104, 101, 108, 108, 111])"
    by (rule mapper_reads_file [OF sample_valid [OF l(1)] sample_serves])
      (simp_all add: fm sample_sources [simplified] sample_files_def sample_mapping_a_def
        sample_mapping_b_def mapping_of_def sample_info_def)
  with l(1) show ?thesis by (simp add: slice_def)
qed

text \<open>
  C2. Reading a file without the mapper's knowledge. Again for a layout of supported size in
  which every directory fits its clusters, and for a file whose clusters all have a slot in the
  FAT (which C9 does not guarantee for the last ones): a reader that has only the image and
  follows the FAT from the first cluster of the file until an end mark, however long it is
  prepared to go on, collects the file's clusters and no more, and they hold exactly the source
  file (zero padded, should the source have shrunk since the scan).
\<close>

theorem chain_reads_file:
  assumes "valid_build fs limit up b root0 l" "fm \<in> set (file_mappings l)"
    and "files (fm_source_path fm) = Some content" "0 \<le> fm_size_bytes fm"
    and "fm_start_cluster fm + fm_cluster_count fm \<le> 128 * fat_length l"
    and "fm_cluster_count fm \<le> int fuel"
  shows "case read_chain l (image_sector l files) fuel (fm_start_cluster fm) of bytes \<Rightarrow>
    int (length bytes) = fm_cluster_count fm * 131072 \<and>
    take (nat (fm_size_bytes fm)) bytes = ljust (nat (fm_size_bytes fm)) (take (nat (fm_size_bytes fm)) content)"
proof (rule valid_build_volume [OF assms(1)])
  fix root nxt assume v: "volume up b root0 root nxt l"
  show ?thesis using read_file_chain [where files = files, OF v assms(2,3,5,4,6)] by simp
qed

theorem chain_reads_file_witness:
  "\<exists>l. build sample_fs 1000 sample_upper sample_builder = Inr l \<and>
     take 200000 (read_chain l (image_sector l sample_files) 9 7) = replicate 200000 7"
proof -
  obtain l where l: "build sample_fs 1000 sample_upper sample_builder = Inr l"
      "built sample_upper sample_builder sample_scanned sample_placed 9 l"
    using sample_build by blast
  note fm = sample_volume(2,3) [OF l(2)]
  have "case read_chain l (image_sector l sample_files) 9 (fm_start_cluster sample_mapping_b) of bytes \<Rightarrow>
    int (length bytes) = fm_cluster_count sample_mapping_b * 131072 \<and>
    take (nat (fm_size_bytes sample_mapping_b)) bytes =
    ljust (nat (fm_size_bytes sample_mapping_b)) (take (nat (fm_size_bytes sample_mapping_b)) (replicate 200000 7))"
    by (rule chain_reads_file [OF sample_valid [OF l(1)]])
      (simp_all add: fm sample_files_def sample_mapping_b_def mapping_of_def sample_info_def)
  then show ?thesis using l(1)
    by (simp add: sample_mapping_b_def mapping_of_def sample_info_def)
qed

text \<open>
  C3. Reading a directory. In a volume of supported size all of whose directories fit the
  clusters reserved for them (C10 and C11), the clusters of every directory, the root included,
  hold entry sets that a reader accepts (types, set checksums and name hashes verified) and
  that name exactly its children, with their kind, size, first cluster and times, in name order.
\<close>

theorem volume_directory:
  assumes "valid_build fs limit up b root0 l" "built up b root0 root nxt l"
    and "n \<in> set (walk [root])" "n_is_directory (info n)"
  shows "\<exists>d. image_window (image_sector l files)
      (512 * region_start (cluster_heap_offset l) (n_first_cluster (info n))) (int (length d)) = d \<and>
    int (length d) \<le> n_cluster_count (info n) * 131072 \<and>
    read_directory (simple_upper up) d = Some (map (\<lambda>c. record_of (info c)) (sorted_children n))"
proof (rule valid_build_volume [OF assms(1)])
  fix root' nxt' assume v: "volume up b root0 root' nxt' l"
  have "root' = root" by (rule built_unique(1) [OF assms(2) volumeD(1) [OF v]])
  with v show ?thesis using directory_contents assms(3,4) by blast
qed

theorem volume_directory_witness:
  "\<exists>l d. build sample_fs 1000 sample_upper sample_builder = Inr l \<and>
     image_window (image_sector l sample_files) (512 * region_start (cluster_heap_offset l) 4) (int (length d)) = d \<and>
     map_option (map dr_units) (read_directory (simple_upper sample_upper) d) = Some [[97], [100]]"
proof -
  obtain l where l: "build sample_fs 1000 sample_upper sample_builder = Inr l"
      "built sample_upper sample_builder sample_scanned sample_placed 9 l"
    using sample_build by blast
  have root: "sample_placed \<in> set (walk [sample_placed])" "n_is_directory (info sample_placed)"
      "n_first_cluster (info sample_placed) = 4"
      "map (\<lambda>c. dr_units (record_of (info c))) (sorted_children sample_placed) = [[97], [100]]"
    by (code_simp)+
  from volume_directory [OF sample_valid [OF l(1)] l(2) root(1,2), where files = sample_files]
  show ?thesis using l(1) root(3,4) by (auto simp: comp_def)
qed

text \<open>
  C4. Reads refine an image. For a layout of supported size all of whose directories fit their
  clusters, and as long as every source file can be opened and read without error: whatever
  calls were made on a mapper before (reads, extents, failing ones included), a read answers
  exactly as the stateless image of the volume does, and fails exactly for a negative offset, a
  missing buffer or a range past the end.
\<close>

theorem reads_refine_image:
  assumes "well_served fs limit up b root0 l w files"
  shows "fst (mapper_read off dest (run_calls cs (new_mapper l w))) =
    (if off < 0 then Inl (ValueError (lit ''offset must be non-negative''))
     else case dest of None \<Rightarrow> Inl (ValueError (lit ''destination buffer is required''))
       | Some out \<Rightarrow>
           if total_bytes l < off + int (length out) then Inl (ValueError (lit ''read exceeds image size''))
           else Inr (image_window (image_sector l files) off (int (length out))))"
  by (rule mapper_read_total [OF well_served_inv [OF assms]])

theorem reads_refine_image_witness:
  "\<exists>l. build sample_fs 1000 sample_upper sample_builder = Inr l \<and>
     fst (mapper_read 1000 (Some [1, 2, 3]) (run_calls [CallRead 0 None, CallExtents 5 70000]
       (new_mapper l sample_world))) = Inr (image_window (image_sector l sample_files) 1000 3)"
proof (rule sample_layout)
  fix l assume l: "build sample_fs 1000 sample_upper sample_builder = Inr l" "total_bytes l = 1073741824"
    and ws: "well_served sample_fs 1000 sample_upper sample_builder sample_scanned l sample_world sample_files"
  show ?thesis using l reads_refine_image [OF ws, of 1000 "Some [1, 2, 3]" "[CallRead 0 None, CallExtents 5 70000]"]
    by (simp del: lit_Cons)
qed

text \<open>
  C5. Extents. The extents of a range tile the sectors that cover it, alternate between data
  and zero, and an extent marked zero really reads as zeros, so that a client may skip it.
\<close>

theorem extents_are_sound:
  assumes "well_served fs limit up b root0 l w files" "0 \<le> off" "0 < count"
  shows "\<exists>xs. fst (mapper_extents off count (run_calls cs (new_mapper l w))) = Inr xs \<and>
    tiles (off - off mod 512) (min (total_bytes l) ((off + count + 511) div 512 * 512)) xs \<and>
    successively (\<lambda>(_, _, z) (_, _, z'). z \<noteq> z') xs \<and>
    list_all (\<lambda>(s, n, z). z = False \<or> image_window (image_sector l files) s n = replicate (nat n) 0) xs"
proof -
  obtain xs m' where xs: "mapper_extents off count (run_calls cs (new_mapper l w)) = (Inr xs, m')"
      "tiles (off - off mod 512) (min (total_bytes l) ((off + count + 511) div 512 * 512)) xs"
      "runs_of (sector_is_zero l) xs"
    using mapper_extents_spec [OF well_served_inv [OF assms(1)] assms(2,3)] by blast
  have "(off - off mod 512) mod 512 = 0" by (simp add: minus_mod_eq_mult_div)
  then have "list_all (\<lambda>(s, n, z). z = False \<or> image_window (image_sector l files) s n = replicate (nat n) 0) xs"
    using zero_extents_read_zero [OF xs(2,3)] by (auto simp: list_all_iff)
  with xs show ?thesis by (simp add: runs_of_def)
qed

theorem extents_are_sound_witness:
  "\<exists>l xs. build sample_fs 1000 sample_upper sample_builder = Inr l \<and>
     fst (mapper_extents 5 70000 (run_calls [] (new_mapper l sample_world))) = Inr xs \<and> tiles 0 70144 xs"
proof (rule sample_layout)
  fix l assume l: "build sample_fs 1000 sample_upper sample_builder = Inr l" "total_bytes l = 1073741824"
    and ws: "well_served sample_fs 1000 sample_upper sample_builder sample_scanned l sample_world sample_files"
  show ?thesis using l extents_are_sound [OF ws, of 5 70000 "[]"] by auto
qed

text \<open>
  C6. Allocation. The cluster runs of a built volume (bitmap, up-case table, directories,
  files) follow one another from cluster 2 without gap or overlap and end within the heap;
  every file has the clusters its size needs.
\<close>

theorem allocation_tiles_heap:
  assumes "valid_build fs limit up b root0 l"
  shows "\<exists>nxt. contiguous 2 (allocated_ranges l) nxt \<and> nxt - 2 \<le> cluster_count l \<and>
    disjoint_runs (allocated_ranges l) \<and>
    list_all (\<lambda>fm. (fm_start_cluster fm, fm_cluster_count fm) \<in> set (allocated_ranges l) \<and>
      fm_cluster_count fm = max 1 ((fm_size_bytes fm + 131071) div 131072)) (file_mappings l)"
proof (rule valid_build_volume [OF assms])
  fix root nxt assume v: "volume up b root0 root nxt l"
  note alloc = built_allocation [OF volumeD(1,2) [OF v]]
  have "list_all (\<lambda>fm. (fm_start_cluster fm, fm_cluster_count fm) \<in> set (allocated_ranges l) \<and>
      fm_cluster_count fm = max 1 ((fm_size_bytes fm + 131071) div 131072)) (file_mappings l)"
    using alloc(5) file_in_image(4) [OF v] by (auto simp: list_all_iff clusters_of_def)
  with alloc volume_room(5) [OF v] show ?thesis by blast
qed

theorem allocation_tiles_heap_witness:
  "\<exists>l nxt. build sample_fs 1000 sample_upper sample_builder = Inr l \<and>
     contiguous 2 (allocated_ranges l) nxt \<and> nxt - 2 \<le> 8176"
  by (rule sample_layout) (use allocation_tiles_heap in metis)

text \<open>
  C7. Every build ends in a layout or in one error. For a scanned tree with valid names, an
  image within the size limits and an ASCII label, \<open>build\<close> either returns a layout or raises
  the ValueError that the files do not fit; no other exception is possible.
\<close>

theorem build_is_total:
  assumes "build_tree fs limit (cf_entries (bd_config b)) = Inr root0" "tree_fine root0"
    and "builder_ok b" "upper_ok up" "list_all (\<lambda>c. 0 \<le> c \<and> c < 128) (cf_label (bd_config b))"
  shows "(\<exists>l. build fs limit up b = Inr l) \<noteq>
    (build fs limit up b = Inl (ValueError (lit ''configured files do not fit virtual image'')))"
proof -
  obtain fo fl ho cc where g: "geometry b = (fo, fl, ho, cc)" by (cases "geometry b")
  from build_outcome [OF assms g] show ?thesis by (auto split: if_splits simp del: lit_Cons)
qed

theorem build_is_total_witness:
  "(\<exists>l. build sample_fs 1000 sample_upper sample_builder = Inr l) \<noteq>
    (build sample_fs 1000 sample_upper sample_builder =
       Inl (ValueError (lit ''configured files do not fit virtual image'')))"
  by (rule build_is_total [OF _ sample_fine sample_builder_ok sample_upper_ok sample_label])
    (simp add: sample_entries sample_build_tree)

text \<open>
  C8. Geometry. Whatever the image size, the eight rounds of \<open>_geometry\<close> end in a FAT at
  sector 2048 that ends before the aligned heap, is a multiple of 256 sectors, and is the one
  its cluster count asks for.
\<close>

theorem geometry_consistent:
  "case geometry b of (fat_off, fat_len, heap_off, clusters) \<Rightarrow>
     fat_off = 2048 \<and> fat_off + fat_len \<le> heap_off \<and> heap_off mod 2048 = 0 \<and>
     fat_len mod 256 = 0 \<and> 256 \<le> fat_len \<and>
     clusters = (bd_total_sectors b - heap_off) div 256 \<and> fat_len = fat_for clusters \<and>
     clusters * 4 \<le> fat_len * 512"
proof -
  obtain fo fl ho cc where g: "geometry b = (fo, fl, ho, cc)" by (cases "geometry b")
  from geometry_spec [OF g] g show ?thesis by simp
qed

text \<open>
  C9. The FAT is one entry short for some sizes. exFAT numbers clusters from 2, so a FAT needs
  two slots more than there are clusters; \<open>_geometry\<close> does not count them. The slots suffice
  exactly when the cluster count is neither 0 nor -1 modulo 32768, and there are legal image
  sizes where they do not.
\<close>

theorem fat_slots_shortage:
  assumes "geometry b = (fat_off, fat_len, heap_off, clusters)" "0 < clusters"
  shows "128 * fat_len < clusters + 2 \<longleftrightarrow> clusters mod 32768 = 0 \<or> clusters mod 32768 = 32767"
  using fat_for_slots [OF assms(2)] geometry_spec(7) [OF assms(1)] by auto

definition short_fat_builder :: builder where
  "short_fat_builder = \<lparr>bd_config = sample_config\<lparr>cf_image_size_bytes_override := Some 4297064448\<rparr>,
     bd_total_bytes = 4297064448, bd_total_sectors = 8392704\<rparr>"

theorem fat_slots_shortage_witness:
  "geometry short_fat_builder = (2048, 256, 4096, 32768) \<and> builder_ok short_fat_builder \<and>
     128 * 256 < (32768 :: int) + 2"
proof -
  have g: "geometry short_fat_builder = (2048, 256, 4096, 32768)" by code_simp
  with fat_slots_shortage [OF g] show ?thesis by (simp add: builder_ok_def short_fat_builder_def)
qed

text \<open>
  C10. Directories can outgrow their clusters. \<open>_directory_cluster_count\<close> counts one entry
  too few per child: a subdirectory with between 1366 and 2047 short names is given one
  cluster, while its entry sets fill two, so it runs into the cluster that follows.
\<close>

theorem directory_overflow:
  assumes "list_all (\<lambda>c. name_ok (n_name (info c)) \<and> length (name_units (n_name (info c))) \<le> 15) (children n)"
    and "1366 \<le> length (children n)" "length (children n) \<le> 2047" "n_virtual_path (info n) \<noteq> []"
    and "directory_bytes up label n False bc bl uc ul = Inr d"
  shows "directory_cluster_count n = Inr 1 \<and> length d = 2 * 131072"
  using short_names_overflow [OF assms(1-4)] directory_bytes_spec(2) [OF assms(5)]
  by (simp add: mult.commute [of _ 32])

definition crowded :: node where
  \<comment> \<open>a directory of 1366 files with distinct names of one character\<close>
  "crowded = Node (new_info [100] [100] [] True)
     (map (\<lambda>i. Node (new_info [256 + int i] [100, 47, 256 + int i] [] False) []) [0..<1366])"

theorem directory_overflow_witness:
  "\<exists>d. directory_bytes sample_upper [] crowded False 0 0 0 0 = Inr d \<and>
     directory_cluster_count crowded = Inr 1 \<and> length d = 262144"
proof -
  have one: "scalar (256 + int i) \<and> utf16_units (256 + int i) = [256 + int i]" if "i < 1366" for i
    using that by (simp add: scalar_def surrogate_def utf16_units_def)
  have names: "list_all (\<lambda>c. name_ok (n_name (info c)) \<and> length (name_units (n_name (info c))) \<le> 15) (children crowded)"
    by (auto simp: crowded_def list_all_iff new_info_def name_ok_def name_units_def one)
  have "list_all (\<lambda>c. encodable (info c)) (children crowded)"
    by (auto simp: crowded_def list_all_iff new_info_def encodable_def one data_length_of_def)
  then obtain d where d: "directory_bytes sample_upper [] crowded False 0 0 0 0 = Inr d"
    using directory_bytes_total [OF sample_upper_ok, of crowded False] by blast
  have "length (children crowded) = 1366" "n_virtual_path (info crowded) \<noteq> []"
    by (simp_all add: crowded_def new_info_def)
  with directory_overflow [OF names _ _ _ d] d show ?thesis by simp
qed

text \<open>
  C11. How many clusters a directory gets and takes. For children with valid names,
  \<open>_directory_cluster_count\<close> reserves the clusters of one entry less per child than
  \<open>_directory_bytes\<close> writes, so the directory fits exactly when these entries do not start
  another cluster; with at most 4096 entries it gets and takes one.
\<close>

theorem directory_clusters:
  assumes "list_all (\<lambda>c. name_ok (n_name (info c))) (children n)"
    and "directory_bytes up label n (n_virtual_path (info n) = []) bc bl uc ul = Inr d"
  shows "\<exists>k. directory_cluster_count n = Inr k \<and>
    (let entries = int (total_entries n (n_virtual_path (info n) = [])); names = int (length (children n))
     in k = (entries - names + 4095) div 4096 \<and> int (length d) = (entries + 4095) div 4096 * 131072 \<and>
        (int (length d) \<le> k * 131072) = ((entries - names + 4095) div 4096 = (entries + 4095) div 4096) \<and>
        (entries \<le> 4096 \<longrightarrow> k = 1 \<and> int (length d) = 131072))"
proof -
  let ?e = "int (total_entries n (n_virtual_path (info n) = []))" and ?c = "int (length (children n))"
  note room = directory_room [OF assms(1)]
  have "int (length d) = (?e + 4095) div 4096 * 131072"
    using directory_bytes_spec(2) [OF assms(2)] ceil_entries [of ?e] room(1) by (simp add: mult.commute [of _ 32])
  moreover have "(?e - ?c + 4095) div 4096 \<le> (?e + 4095) div 4096" by (intro zdiv_mono1) auto
  moreover have "(?e - ?c + 4095) div 4096 = 1 \<and> (?e + 4095) div 4096 = 1" if "?e \<le> 4096"
    using that room(1) by auto
  ultimately show ?thesis using room(2) by (auto simp: Let_def)
qed

theorem directory_clusters_witness:
  "\<exists>d. directory_bytes sample_upper [] (children sample_placed ! 1) False 0 0 0 0 = Inr d \<and>
     int (length d) = 131072"
proof -
  let ?n = "children sample_placed ! 1"
  have names: "list_all (\<lambda>c. name_ok (n_name (info c))) (children ?n)"
      and small: "total_entries ?n (n_virtual_path (info ?n) = []) \<le> 4096"
      and enc: "list_all (\<lambda>c. encodable (info c)) (children ?n)"
      and vp: "n_virtual_path (info ?n) = [100]"
    by code_simp+
  obtain d where d: "directory_bytes sample_upper [] ?n False 0 0 0 0 = Inr d"
    using directory_bytes_total [OF sample_upper_ok enc, of False] by blast
  then have "directory_bytes sample_upper [] ?n (n_virtual_path (info ?n) = []) 0 0 0 0 = Inr d" unfolding vp by simp
  from directory_clusters [OF names this] small d show ?thesis by (auto simp: Let_def)
qed

text \<open>
  C12. Entry sets round trip. What \<open>_file_entry_set\<close> writes for a file or directory is
  accepted by a reader that verifies entry types, the set checksum and the name hash, and
  yields the node's name, kind, first cluster, length and times.
\<close>

theorem entry_set_roundtrip:
  assumes "file_entry_set up i = Inr es"
  shows "list_all (\<lambda>d. length d = 32) es \<and>
    (\<exists>p rest. es = p # rest \<and> p ! 0 = ENTRY_FILE \<and> nat (uint (p ! 1)) = length rest \<and>
       read_set (simple_upper up) p rest = Some (record_of i))"
  using file_entry_set_read [OF assms] by blast

theorem entry_set_roundtrip_witness:
  "\<exists>p rest. file_entry_set sample_upper (info (children sample_placed ! 0)) = Inr (p # rest) \<and>
     map_option dr_units (read_set (simple_upper sample_upper) p rest) = Some [97]"
proof -
  let ?i = "info (children sample_placed ! 0)"
  have "encodable ?i" by code_simp
  then obtain es where es: "file_entry_set sample_upper ?i = Inr es"
    using file_entry_set_total [OF sample_upper_ok] by blast
  moreover have "dr_units (record_of ?i) = [97]" by code_simp
  ultimately show ?thesis using entry_set_roundtrip [OF es] by auto
qed

text \<open>
  C13. Scanning. When the file systems answer consistently for a tree no deeper than the
  recursion limit, \<open>_scan\<close> returns exactly its files and directories with their snapshots,
  children in name order, symbolic links and special files left out.
\<close>

theorem scan_is_faithful:
  assumes "presents fs (n_source_path i) (FDir st es)" "depth (FDir st es) \<le> limit"
  shows "\<exists>n. scan fs limit i None = Inr n \<and> [n] = expected i (FDir st es)"
  by (rule scan_expected [OF assms]) simp

theorem scan_is_faithful_witness:
  "\<exists>n. scan sample_fs 1000 (new_info (lit ''d'') (lit ''d'') (lit ''/m/d'') True) None = Inr n \<and>
     map (\<lambda>c. n_name (info c)) (children n) = [lit ''b'']"
proof -
  let ?i = "new_info (lit ''d'') (lit ''d'') (lit ''/m/d'') True"
  let ?t = "FDir (snapshot_of_stat (sample_stat 4096)) [(lit ''b'', FFile (snapshot_of_stat (sample_stat 200000)))]"
  have p: "presents sample_fs (n_source_path ?i) ?t" and d: "depth ?t \<le> 1000"
    and e: "map (\<lambda>n. map (\<lambda>c. n_name (info c)) (children n)) (expected ?i ?t) = [[lit ''b'']]"
    by code_simp+
  from scan_is_faithful [OF p d] e show ?thesis by (auto simp del: lit_Cons)
qed

text \<open>
  C14. FAT and bitmap agree. For every cluster of the heap that has a FAT slot, the bitmap bit
  the image holds is set exactly when the FAT slot the image holds is in use, and both hold
  exactly for the clusters handed out.
\<close>

theorem fat_and_bitmap_agree:
  assumes "valid_build fs limit up b root0 l"
    and "2 \<le> c" "c < cluster_count l + 2" "c < 128 * fat_length l"
  shows "bitmap_bit l (image_sector l files) c = (fat_slot (image_sector l files) c \<noteq> 0) \<and>
    bitmap_bit l (image_sector l files) c = list_ex (\<lambda>(s, n). s \<le> c \<and> c < s + n) (allocated_ranges l)"
proof (rule valid_build_volume [OF assms(1)])
  fix root nxt assume v: "volume up b root0 root nxt l"
  have "bitmap_bit l (image_sector l files) c = (c < nxt)" by (rule bitmap_bit_allocated [OF v assms(2,3)])
  moreover have "(fat_slot (image_sector l files) c = 0) = (nxt \<le> c)" by (rule fat_slot_free [OF v assms(2,4)])
  moreover have "list_ex (\<lambda>(s, n). s \<le> c \<and> c < s + n) (allocated_ranges l) = (c < nxt)"
    using contiguous_covers [OF built_allocation(2) [OF volumeD(1,2) [OF v]], of c] assms(2)
    by (auto simp: allocated_def list_ex_iff)
  ultimately show ?thesis by auto
qed

theorem fat_and_bitmap_agree_witness:
  "\<exists>l. build sample_fs 1000 sample_upper sample_builder = Inr l \<and>
     bitmap_bit l (image_sector l sample_files) 8 = (fat_slot (image_sector l sample_files) 8 \<noteq> 0)"
proof (rule sample_layout)
  fix l assume l: "build sample_fs 1000 sample_upper sample_builder = Inr l"
      "valid_build sample_fs 1000 sample_upper sample_builder sample_scanned l"
      "fat_length l = 256" "cluster_count l = 8176"
  then show ?thesis using fat_and_bitmap_agree [OF l(2), of 8 sample_files] by auto
qed



section \<open>Prefetch ranges\<close>

text \<open>
  C16. Bounded ranges. \<open>_bounded_ranges\<close> covers the same bytes as its input, in ascending
  ranges that do not overlap, none empty and none above the 64 KiB request limit.
\<close>

theorem bounded_ranges_cover:
  "covered (bounded_ranges rs) = covered rs \<and> ascending (bounded_ranges rs) \<and>
   list_all (\<lambda>(_, m). 0 < m \<and> m \<le> MAX_METADATA_PREFETCH_BYTES) (bounded_ranges rs)"
  using bounded_ranges_spec [of rs] by (simp add: MAX_METADATA_PREFETCH_BYTES_def)

text \<open>
  C17. Full FAT prefetch. With only the full FAT selected, the ranges handed to the
  prefetcher cover exactly the bytes of the FAT; with nothing selected there are none.
\<close>

theorem fat_prefetch_ranges:
  assumes "0 \<le> fat_length l"
  shows "covered (get_hot_ranges l False True) =
      {(partition_start_lba l + fat_offset l) * 512..<(partition_start_lba l + fat_offset l + fat_length l) * 512} \<and>
    get_hot_ranges l False False = []"
proof -
  have "covered (get_hot_ranges l False True) =
      covered [((partition_start_lba l + fat_offset l) * 512, fat_length l * 512)]"
    using bounded_ranges_spec [of "[((partition_start_lba l + fat_offset l) * 512, fat_length l * 512)]"]
    by (simp add: get_hot_ranges_def Let_def)
  also have "\<dots> = {(partition_start_lba l + fat_offset l) * 512..<
      (partition_start_lba l + fat_offset l + fat_length l) * 512}"
    by (simp add: covered_def algebra_simps)
  finally show ?thesis by (simp add: get_hot_ranges_def Let_def bounded_ranges_def)
qed

theorem fat_prefetch_ranges_witness:
  "\<exists>l. build sample_fs 1000 sample_upper sample_builder = Inr l \<and>
     covered (get_hot_ranges l False True) =
       {(partition_start_lba l + fat_offset l) * 512..<(partition_start_lba l + fat_offset l + 256) * 512}"
proof (rule sample_layout)
  fix l assume l: "build sample_fs 1000 sample_upper sample_builder = Inr l" "fat_length l = 256"
  then show ?thesis using fat_prefetch_ranges [of l] by auto
qed

section \<open>Descriptors, times, checksums and state\<close>

text \<open>
  C18. No descriptor leaks. After any sequence of calls on a fresh mapper, exceptions
  included, \<open>close\<close> never closes a descriptor that is not the mapper's, and unless closing a
  descriptor reports an error it succeeds and leaves the process with exactly the descriptors
  it had. (An error of one \<open>os.close\<close> ends the loop and leaks the descriptors after it.)
\<close>

theorem close_releases_descriptors:
  assumes "fds_ok w"
  shows "case mapper_close (run_calls cs (new_mapper l w)) of (r, m) \<Rightarrow>
    set (w_fds w) \<subseteq> set (w_fds (mp_world m)) \<and>
    ((\<forall>p. w_close w p = None) \<longrightarrow>
      r = Inr () \<and> mp_fds m = [] \<and> set (w_fds (mp_world m)) = set (w_fds w))"
proof -
  note own = run_calls_owns [OF owns_new [OF assms], of cs l]
  have w: "w_close (mp_world (run_calls cs (new_mapper l w))) = w_close w"
    by (simp add: run_calls_close new_mapper_def)
  show ?thesis
    using mapper_close_leaves [OF own] mapper_close_spec [OF own] unfolding w by (auto split: prod.split)
qed

theorem close_releases_descriptors_witness:
  "\<exists>l. build sample_fs 1000 sample_upper sample_builder = Inr l \<and>
    (case mapper_close (run_calls [CallMap 3, CallRead 0 (Some [0])] (new_mapper l sample_world)) of (r, m) \<Rightarrow>
       r = Inr () \<and> mp_fds m = [] \<and> set (w_fds (mp_world m)) = {})"
proof -
  obtain l where l: "build sample_fs 1000 sample_upper sample_builder = Inr l" using sample_build by blast
  have "set (w_fds sample_world) = {}" "\<forall>p. w_close sample_world p = None" by (simp_all add: sample_world_def)
  with l close_releases_descriptors [OF sample_serves(2), of "[CallMap 3, CallRead 0 (Some [0])]" l]
  show ?thesis by (intro exI [of _ l]) (auto split: prod.splits)
qed

text \<open>
  C19. Timestamps. Decoded as exFAT prescribes, the three fields of \<open>_exfat_timestamp\<close> give
  back the time to 10 ms, clamped to 1980..2107, and each field fits its width.
\<close>

theorem timestamp_roundtrip:
  "case exfat_timestamp ns of (date, time, increment) \<Rightarrow>
     exfat_time_units (date, time, increment) = clamp_units ns \<and>
     0 \<le> date \<and> date < 65536 \<and> 0 \<le> time \<and> time < 65536 \<and> 0 \<le> increment \<and> increment < 200"
proof -
  obtain d t i where e: "exfat_timestamp ns = (d, t, i)" by (cases rule: prod_cases3)
  from exfat_timestamp_fields [OF e] e show ?thesis by simp
qed

text \<open>
  C20. The checksums detect every corruption of one byte. Changing a single byte of an entry
  set outside the checksum field, or of the boot sectors outside the volatile bytes, changes
  the checksum.
\<close>

theorem checksums_detect:
  assumes "b \<noteq> c"
  shows "(length xs \<in> {2, 3} \<or> entry_checksum (xs @ b # ys) \<noteq> entry_checksum (xs @ c # ys)) \<and>
    (length xs \<in> {106, 107, 112} \<or> 5632 \<le> length xs \<or>
      boot_checksum (xs @ b # ys) \<noteq> boot_checksum (xs @ c # ys))"
  using entry_checksum_detects [OF _ _ assms, of xs ys] boot_checksum_detects [OF _ _ assms, of xs ys]
  by (cases "5632 \<le> length xs") auto

theorem checksums_detect_witness:
  "entry_checksum ([0x85, 2] @ [0, 0] @ 1 # [7]) \<noteq> entry_checksum ([0x85, 2] @ [0, 0] @ 3 # [7])"
  using checksums_detect [of 1 3 "[0x85, 2, 0, 0]" "[7]"] by simp

text \<open>
  C21. Mapper state. The state the service pickles for the plugin restores a mapper over the
  same layout; a state without the compact allocation ranges is refused with a ValueError.
\<close>

theorem mapper_state_roundtrip:
  "mapper_from_state (mapper_to_state m) w = Inr (new_mapper (mp_layout m) w) \<and>
   mapper_from_state (filter (\<lambda>(k, _). k \<noteq> ''allocated_ranges'') (mapper_to_state m)) w =
     Inl (ValueError (lit ''mapper state lacks compact allocation ranges; rebuild required''))"
proof -
  have "map_of (filter (\<lambda>(k, _). k \<noteq> ''allocated_ranges'') st) ''allocated_ranges'' = None" for st :: layout_state
    by (auto simp: map_of_eq_None_iff)
  then show ?thesis
    by (simp add: mapper_from_state_def mapper_to_state_def state_roundtrip del: lit_Cons)
      (simp add: from_state_def del: lit_Cons)
qed

text \<open>
  C22. The FAT on demand is the FAT. \<open>_fat_bytes\<close>, which writes the whole FAT at once, produces
  exactly the sectors the mapper generates one by one, whatever the order and the length of the
  chains; it raises struct.error, and only then, when the clusters handed out outnumber the
  slots of the FAT.
\<close>

theorem eager_fat_agrees:
  assumes "valid_build fs limit up b root0 l"
    and "place_all root0 (upcase_cluster l + 1) = Inr (root, nxt, mappings)"
  shows "fat_bytes b (cluster_count l) mappings [root] (bitmap_cluster l) (clusters_of (bitmap_length l))
      (upcase_cluster l) (clusters_of UPCASE_TABLE_BYTES) =
    (if nxt \<le> 128 * fat_length l
     then Inr (concat (map (image_sector l files) [fat_offset l..fat_offset l + fat_length l - 1]))
     else Inl StructError)"
proof (rule valid_build_volume [OF assms(1)])
  fix root' nxt' assume v: "volume up b root0 root' nxt' l"
  have "root' = root" "nxt' = nxt" "file_mappings l = mappings"
    using builtD(8) [OF volumeD(1) [OF v]] assms(2) by simp_all
  then show ?thesis using fat_bytes_slots [OF v] fat_image_slots [OF v] by simp
qed

theorem eager_fat_agrees_witness:
  "\<exists>l. build sample_fs 1000 sample_upper sample_builder = Inr l \<and>
     fat_bytes sample_builder 8176 [sample_mapping_a, sample_mapping_b] [sample_placed] 2
       (clusters_of (bitmap_length l)) (upcase_cluster l) (clusters_of UPCASE_TABLE_BYTES) =
       Inr (concat (map (image_sector l sample_files) [fat_offset l..fat_offset l + 255]))"
proof (rule sample_layout)
  fix l assume l: "build sample_fs 1000 sample_upper sample_builder = Inr l"
      "built sample_upper sample_builder sample_scanned sample_placed 9 l"
      "valid_build sample_fs 1000 sample_upper sample_builder sample_scanned l"
      "fat_length l = 256" "cluster_count l = 8176"
      "file_mappings l = [sample_mapping_a, sample_mapping_b]"
  from eager_fat_agrees [OF l(3) builtD(8) [OF l(2)], of sample_files] show ?thesis
    using l(1,4-6) builtD(5) [OF l(2)] by (auto simp: add.commute)
qed

text \<open>
  The two walks of the builder agree. The explicit-stack walk used for the allocation ranges visits the
  nodes of a scanned tree in the same order as the recursive walk that placed them.
\<close>

theorem walks_agree:
  assumes "build_tree fs limit es = Inr root"
  shows "walk_static [root] = walk [root]"
  by (rule walk_static_eq [OF build_tree_ok(1) [OF assms]])

theorem walks_agree_witness: "walk_static [sample_scanned] = walk [sample_scanned]"
  by (rule walks_agree [OF sample_build_tree])

section \<open>Configurations\<close>

text \<open>
  C23. Validation is exact. \<open>validate\<close> returns a configuration if and only if it satisfies the
  contract \<open>config_ok\<close> (sizes, names, read-only options, entries below a mount point, unique
  names and paths), and the document that spells such a configuration out yields it again.
\<close>

theorem validation_is_exact:
  "((\<exists>raw. validate alnum repr raw = Inr c) = config_ok alnum c) \<and>
   ((validate alnum repr (config_yaml c) = Inr c) = config_ok alnum c)"
  using validate_sound validate_complete by blast

text \<open>
  C24. Building a validated configuration. Once it is validated and its sources are scanned,
  and the scanned names are valid Unicode of at most 255 UTF-16 units, building ends in a layout
  or in one of two ValueErrors: the image is too small, or the files do not fit. Validation does
  not exclude the first one. A scanned name that is not valid Unicode (a file name that is not
  UTF-8) makes building raise UnicodeEncodeError, unless the image is too small.
\<close>

theorem validated_build:
  assumes "validate alnum repr raw = Inr c"
    and "build_tree fs limit (cf_entries c) = Inr root0" "upper_ok up"
  shows "(tree_fine root0 \<longrightarrow> (\<exists>l. build_exfat fs limit up c = Inr l) \<noteq>
     (build_exfat fs limit up c \<in>
       {Inl (ValueError (lit ''image is too small for exFAT partition'')),
        Inl (ValueError (lit ''configured files do not fit virtual image''))})) \<and>
    (\<not> names_encodable root0 \<longrightarrow> build_exfat fs limit up c =
      (if image_size_bytes c < 12800 then Inl (ValueError (lit ''image is too small for exFAT partition''))
       else Inl UnicodeEncodeError))"
proof -
  note ok = validate_sound [OF assms(1)]
  have "(\<exists>l. build_exfat fs limit up c = Inr l) \<noteq>
     (build_exfat fs limit up c \<in>
       {Inl (ValueError (lit ''image is too small for exFAT partition'')),
        Inl (ValueError (lit ''configured files do not fit virtual image''))})" if "tree_fine root0"
    using build_exfat_outcome [OF ok assms(2) that assms(3)] by (auto simp del: lit_Cons)
  then show ?thesis using build_exfat_unencodable [OF ok assms(2)] by blast
qed

definition tiny_config :: config where
  \<comment> \<open>a valid configuration with an image of one sector\<close>
  "tiny_config = sample_config\<lparr>cf_image_size_bytes_override := Some 512\<rparr>"

theorem validated_build_witness:
  "\<exists>raw. validate (\<lambda>c. True) (\<lambda>_. []) raw = Inr tiny_config \<and>
     build_exfat sample_fs 1000 sample_upper tiny_config =
       Inl (ValueError (lit ''image is too small for exFAT partition''))"
proof -
  have "sources_ok (\<lambda>c. True) (cf_sources tiny_config)"
      "entries_ok (mount_points tiny_config) (cf_entries tiny_config)"
      "label_ok (\<lambda>n. n \<le> 11) (cf_label tiny_config)" "label_ok (\<lambda>n. n = 8) (cf_oem_name tiny_config)"
    by code_simp+
  then have "config_ok (\<lambda>c. True) tiny_config"
    by (simp add: config_ok_def tiny_config_def sample_config_def size_ok_def prefetch_ok_def default_prefetch_def)
  then have v: "validate (\<lambda>c. True) (\<lambda>_. []) (config_yaml tiny_config) = Inr tiny_config"
    by (rule validate_complete)
  have e: "cf_entries tiny_config = cf_entries sample_config" by (simp add: tiny_config_def)
  have "new_builder tiny_config = Inl (ValueError (lit ''image is too small for exFAT partition''))"
    by (simp add: new_builder_def tiny_config_def image_size_bytes_def del: lit_Cons)
  then have "build_exfat sample_fs 1000 sample_upper tiny_config =
      Inl (ValueError (lit ''image is too small for exFAT partition''))"
    by (simp add: build_exfat_def del: lit_Cons)
  moreover have "build_tree sample_fs 1000 (cf_entries tiny_config) = Inr sample_scanned"
    by (simp only: e sample_build_tree)
  note validated_build [OF v this sample_upper_ok]
  ultimately show ?thesis using v by blast
qed

text \<open>
  C25. Strict mappings. A mapping the loader accepts has one item per item of the document, in
  order, and no two keys that a \<open>dict\<close> takes for the same. When the mapping is the document,
  a further item whose key is already there makes \<open>parse\<close> raise a ConfigError, but one whose
  key cannot be hashed (a sequence, a mapping or a set) makes it raise a TypeError, which is
  not among the errors that it turns into a ConfigError.
\<close>

theorem strict_mapping:
  assumes "construct_mapping repr construct items = Inr m" "construct node = Inr k"
    and "utf8 text = Inr encoded" "int (length encoded) \<le> MAX_CONFIG_BYTES"
  shows "\<exists>d. m = YDict d \<and> sorted_wrt (\<lambda>(a, _) (b, _). \<not> same_key a b) d \<and>
    mapr (\<lambda>(k, v). rbind (construct k) (\<lambda>k. rbind (construct v) (\<lambda>v. Inr (k, v)))) items = Inr d \<and>
    (case parse (\<lambda>_. construct_mapping repr construct (items @ (node, v) # rest)) alnum repr text of r \<Rightarrow>
      (\<not> hashable k \<longrightarrow> r = Inl TypeError) \<and>
      (hashable k \<and> list_ex (\<lambda>(j, _). same_key j k) d \<longrightarrow> (\<exists>msg. r = Inl (ConfigError msg None))))"
proof -
  obtain d where d: "foldr_r (mapping_item repr construct) items [] = Inr d" "m = YDict d"
    using assms(1) unfolding construct_mapping_def by (auto elim: rbind_InrE)
  have step: "construct_mapping repr construct (items @ (node, v) # rest) =
      rbind (rbind (mapping_item repr construct (node, v) d) (foldr_r (mapping_item repr construct) rest)) (\<lambda>x. Inr (YDict x))"
    using d(1) by (simp add: construct_mapping_def foldr_r_append)
  have "construct_mapping repr construct (items @ (node, v) # rest) = Inl TypeError" if "\<not> hashable k"
    using that assms(2) by (simp add: step mapping_item_def)
  moreover have "construct_mapping repr construct (items @ (node, v) # rest) =
      Inl (YamlError (lit ''duplicate YAML key: '' @ repr k))"
    if "hashable k" "list_ex (\<lambda>(j, _). same_key j k) d"
    using that assms(2) by (simp add: step mapping_item_def del: lit_Cons)
  ultimately show ?thesis
    using d(2) mapping_items_distinct [OF d(1)] assms(3,4) by (intro exI [of _ d]) (auto simp: parse_def simp del: lit_Cons)
qed

theorem strict_mapping_witness:
  "parse (\<lambda>_. construct_mapping (\<lambda>_. []) Inr [(YInt 1, YNull), (YSet 0, YNull)]) (\<lambda>_. True) (\<lambda>_. []) [97] = Inl TypeError \<and>
   (\<exists>msg. parse (\<lambda>_. construct_mapping (\<lambda>_. []) Inr [(YNan, YNull), (YNan, YNull)]) (\<lambda>_. True) (\<lambda>_. []) [97] =
     Inl (ConfigError msg None))"
proof -
  have u: "utf8 [97] = Inr [97]" by code_simp
  have m: "construct_mapping (\<lambda>_. []) Inr [(k, YNull)] = Inr (YDict [(k, YNull)])" if "hashable k" for k
    using that by (simp add: construct_mapping_def mapping_item_def)
  have "same_key YNan YNan" by (simp add: same_key_def)
  then show ?thesis
    using strict_mapping [OF m [of "YInt 1"], of "YSet 0" "YSet 0" "[97]" "[97]" YNull "[]" "\<lambda>_. True"]
      strict_mapping [OF m [of YNan], of YNan YNan "[97]" "[97]" YNull "[]" "\<lambda>_. True"] u
    by (auto simp: MAX_CONFIG_BYTES_def)
qed

section \<open>Serving and managing the volume\<close>

text \<open>
  C26. The nbdkit plugin. Let it be configured with the state of a built volume of supported
  size all of whose directories fit their clusters, and let every source file be openable and
  readable without error. The plugin then reports the volume's size, answers every read inside
  it with the bytes of the image and every other read with EINVAL, and refuses a connection that
  is not read-only; before it is configured, a read is an EIO.
\<close>

theorem plugin_serves_volume:
  assumes "well_served fs limit up b root0 l w files" "0 < total_bytes l" "unpickle path = Inr (to_state l)"
  shows "\<exists>p. bindp (plugin_config unpickle (lit ''mapper_state'') path) (\<lambda>_. config_complete) (new_plugin w) = (Inr (), p) \<and>
    get_size p = total_bytes l \<and>
    (\<forall>off buf. fst (plugin_pread nk buf off p) =
      (if off < 0 \<or> total_bytes l < off + int (length buf) then Inl (OSError EINVAL)
       else Inr (image_window (image_sector l files) off (int (length buf))))) \<and>
    fst (plugin_open nk False p) = Inl (OSError EROFS) \<and>
    fst (plugin_pread nk buf off (new_plugin w)) = Inl (OSError EIO)"
proof -
  obtain p where p: "bindp (plugin_config unpickle (lit ''mapper_state'') path) (\<lambda>_. config_complete) (new_plugin w) = (Inr (), p)"
      "serving l files p" "get_size p = total_bytes l"
    using plugin_setup [where unpickle = unpickle, OF assms] by blast
  have size: "pl_image_size p = total_bytes l" using p(3) by (simp add: get_size_def)
  have "fst (plugin_open nk False p) = Inl (OSError EROFS)"
    by (simp add: plugin_open_def nbd_error_apply)
  moreover have "fst (plugin_pread nk buf off (new_plugin w)) = Inl (OSError EIO)"
    by (simp add: plugin_pread_def bindp_def new_plugin_def nbd_error_apply)
  ultimately show ?thesis using p(1,3) plugin_pread_spec(1) [OF p(2), of nk] size
    by (intro exI [of _ p]) simp
qed

theorem plugin_serves_volume_witness:
  "\<exists>l p. build sample_fs 1000 sample_upper sample_builder = Inr l \<and>
     bindp (plugin_config (\<lambda>_. Inr (to_state l)) (lit ''mapper_state'') []) (\<lambda>_. config_complete)
       (new_plugin sample_world) = (Inr (), p) \<and>
     fst (plugin_pread fallback_nbdkit [0] 1073741824 p) = Inl (OSError EINVAL)"
proof -
  obtain l where l: "build sample_fs 1000 sample_upper sample_builder = Inr l"
    "well_served sample_fs 1000 sample_upper sample_builder sample_scanned l sample_world sample_files"
    "total_bytes l = 1073741824" by (rule sample_layout)
  show ?thesis
    using plugin_serves_volume [OF l(2), where unpickle = "\<lambda>_. Inr (to_state l)" and nk = fallback_nbdkit] l(1,3)
    by fastforce
qed

text \<open>
  C27. From a compiled generation to the console. Once \<open>_activate_hardware\<close> has published the
  pickled state of a layout (of supported size, with every directory fitting its clusters), and
  as long as every source file can be opened and read without error, a plugin started on the
  state file answers a read at the place of a source file in the image with the bytes of that
  file, if the file still has its scanned size. The temporary name is not a symbolic link, and
  no directory above the state file is one the kernel fills itself.
\<close>

theorem published_generation_is_served:
  assumes "publish_state pid state_path (dumps (to_state l)) h = (Inr (), h')"
    and "\<forall>q. lookup (h_tree h) (temporary_name pid (path_of state_path)) \<noteq> Some (Link q)"
    and "\<forall>d. below d (path_of state_path) \<longrightarrow> h_attributes h d = []"
    and "loads (dumps (to_state l)) = Inr (to_state l)"
    and "well_served fs limit up b root0 l w files" "0 < total_bytes l"
    and "fm \<in> set (file_mappings l)" "files (fm_source_path fm) = Some content"
    and "int (length content) = fm_size_bytes fm" "0 \<le> off" "off + int (length buf) \<le> int (length content)"
  shows "\<exists>p. bindp (plugin_config (\<lambda>path. case lookup (h_tree h') (path_of path) of
         Some (Blob bytes _ _) \<Rightarrow> loads bytes | _ \<Rightarrow> Inl (OSError ENOENT)) (lit ''mapper_state'') state_path)
       (\<lambda>_. config_complete) (new_plugin w) = (Inr (), p) \<and>
    fst (plugin_pread nk buf (512 * file_start_sector l fm + off) p) = Inr (slice (nat off) (length buf) content)"
proof -
  obtain root nxt where v: "volume up b root0 root nxt l"
    using assms(5) unfolding well_served_def by (elim conjE) (rule valid_build_volume)
  note inside = file_in_image [OF v assms(7)]
  have "published (dumps (to_state l)) (path_of state_path) h (Inr ()) h'"
    by (rule publish_state_atomic [OF assms(1-3)])
  then have state: "(case lookup (h_tree h') (path_of state_path) of
      Some (Blob bytes _ _) \<Rightarrow> loads bytes | _ \<Rightarrow> Inl (OSError ENOENT)) = Inr (to_state l)"
    using assms(4) by (auto simp: published_def)
  from plugin_setup [where unpickle = "\<lambda>path. case lookup (h_tree h') (path_of path) of
         Some (Blob bytes _ _) \<Rightarrow> loads bytes | _ \<Rightarrow> Inl (OSError ENOENT)", OF assms(5,6) state]
  obtain p where p: "bindp (plugin_config (\<lambda>path. case lookup (h_tree h') (path_of path) of
         Some (Blob bytes _ _) \<Rightarrow> loads bytes | _ \<Rightarrow> Inl (OSError ENOENT)) (lit ''mapper_state'') state_path)
       (\<lambda>_. config_complete) (new_plugin w) = (Inr (), p)" "serving l files p" "pl_image_size p = total_bytes l"
    by (auto simp: get_size_def)
  have "0 \<le> 512 * file_start_sector l fm + off"
    "512 * file_start_sector l fm + off + int (length buf) \<le> total_bytes l"
    using inside assms(9-11) layout_fields(1) [OF v] by simp_all
  then have "fst (plugin_pread nk buf (512 * file_start_sector l fm + off) p) =
      Inr (image_window (image_sector l files) (512 * file_start_sector l fm + off) (int (length buf)))"
    using plugin_pread_spec(1) [OF p(2), of nk buf] p(3) by simp
  also have "image_window (image_sector l files) (512 * file_start_sector l fm + off) (int (length buf)) =
      slice (nat off) (length buf) content"
  proof -
    have "length (slice (nat off) (length buf) content) = length buf" using assms(10,11) by simp
    then show ?thesis
      using file_contents [where files = files and n = "int (length buf)", OF v assms(7,8)] inside(3) assms(9-11)
      by fastforce
  qed
  finally show ?thesis using p(1) by blast
qed

theorem published_generation_is_served_witness:
  "\<exists>l p h'. build sample_fs 1000 sample_upper sample_builder = Inr l \<and>
     publish_state 1 (lit ''/var/lib/remotepfs/mapper.state'') [7] sample_host = (Inr (), h') \<and>
     bindp (plugin_config (\<lambda>path. case lookup (h_tree h') (path_of path) of
         Some (Blob bytes _ _) \<Rightarrow> if bytes = [7] then Inr (to_state l) else Inl TypeError | _ \<Rightarrow> Inl (OSError ENOENT))
         (lit ''mapper_state'') (lit ''/var/lib/remotepfs/mapper.state'')) (\<lambda>_. config_complete)
       (new_plugin sample_world) = (Inr (), p) \<and>
     fst (plugin_pread fallback_nbdkit [0, 0, 0] (512 * file_start_sector l sample_mapping_a + 1) p) = Inr [101, 108, 108]"
proof -
  obtain l where l: "build sample_fs 1000 sample_upper sample_builder = Inr l"
    "well_served sample_fs 1000 sample_upper sample_builder sample_scanned l sample_world sample_files"
    "total_bytes l = 1073741824" "file_mappings l = [sample_mapping_a, sample_mapping_b]" by (rule sample_layout)
  let ?path = "lit ''/var/lib/remotepfs/mapper.state''"
  obtain r h' where h: "publish_state 1 ?path [7] sample_host = (r, h')" by fastforce
  have "fst (publish_state 1 ?path [7] sample_host) = Inr ()" by code_simp
  with h have r: "r = Inr ()" by simp
  have "lookup (h_tree sample_host) (temporary_name 1 (path_of ?path)) = None" by code_simp
  then have link: "\<forall>q. lookup (h_tree sample_host) (temporary_name 1 (path_of ?path)) \<noteq> Some (Link q)" by simp
  have attr: "\<forall>d. below d (path_of ?path) \<longrightarrow> h_attributes sample_host d = []" by (simp add: sample_host_def)
  have content: "sample_files (fm_source_path sample_mapping_a) = Some [104, 101, 108, 108, 111]"
      "int (length ([104, 101, 108, 108, 111] :: bytes)) = fm_size_bytes sample_mapping_a"
    by (simp_all add: sample_files_def sample_mapping_a_def mapping_of_def sample_info_def)
  obtain p where "bindp (plugin_config (\<lambda>path. case lookup (h_tree h') (path_of path) of
         Some (Blob bytes _ _) \<Rightarrow> if bytes = [7] then Inr (to_state l) else Inl TypeError | _ \<Rightarrow> Inl (OSError ENOENT))
         (lit ''mapper_state'') ?path) (\<lambda>_. config_complete) (new_plugin sample_world) = (Inr (), p)"
     "fst (plugin_pread fallback_nbdkit [0, 0, 0] (512 * file_start_sector l sample_mapping_a + 1) p) =
        Inr (slice (nat 1) (length [0 :: byte, 0, 0]) [104, 101, 108, 108, 111])"
    using published_generation_is_served [where dumps = "\<lambda>_. [7]" and nk = fallback_nbdkit and off = 1 and buf = "[0, 0, 0]"
        and loads = "\<lambda>bytes. if bytes = [7] then Inr (to_state l) else Inl TypeError",
        OF h [unfolded r] link attr _ l(2) _ _ content] l(3,4) by auto
  then show ?thesis using l(1) h r by (intro exI [of _ l] exI [of _ p] exI [of _ h']) (simp add: slice_def)
qed

text \<open>
  C28. Sources are mounted read-only. Preparing the sources of a validated configuration runs
  no command but mounts with the option \<open>ro\<close> and without \<open>rw\<close>, in every outcome, provided
  that no path of a credentials file contains a comma (it would be read as more options).
\<close>

theorem sources_mounted_read_only:
  assumes "validate alnum repr raw = Inr c" "list_all plain_credentials (cf_sources c)"
  shows "\<exists>new. h_commands (snd (prepare_sources c h)) = new @ h_commands h \<and>
    list_all (\<lambda>cmd. take 1 cmd = [lit ''mount''] \<and> read_only_options (cmd ! 4)) new"
proof -
  obtain r h' where "prepare_sources c h = (r, h')" by fastforce
  from prepare_sources_commands [OF validate_sound [OF assms(1)] assms(2) this] this show ?thesis
    by (simp add: mounts_only_def [abs_def])
qed

definition comma_source :: source_config where
  \<comment> \<open>a validated source whose credentials path carries a second option\<close>
  "comma_source = sample_source\<lparr>sc_protocol := lit ''cifs'', sc_endpoint := lit ''//nas/games'', sc_options := lit ''ro'',
     sc_credentials_file := Some (lit ''/c,rw'')\<rparr>"

theorem sources_mounted_read_only_witness:
  "(\<exists>new. h_commands (snd (prepare_sources sample_config (sample_host\<lparr>h_linux := True\<rparr>))) = new @ [] \<and>
      new \<noteq> [] \<and> list_all (\<lambda>cmd. take 1 cmd = [lit ''mount''] \<and> read_only_options (cmd ! 4)) new) \<and>
   source_ok (\<lambda>_. True) comma_source \<and>
   (case mount_source comma_source (sample_host\<lparr>h_linux := True\<rparr>) of (r, h) \<Rightarrow>
      r = Inr () \<and> map (\<lambda>cmd. read_only_options (cmd ! 4)) (h_commands h) = [False])"
proof -
  have "list_all plain_credentials (cf_sources sample_config)" by code_simp
  note sources_mounted_read_only [OF sample_validate this, of "sample_host\<lparr>h_linux := True\<rparr>"]
  moreover have "h_commands (sample_host\<lparr>h_linux := True\<rparr>) = []" by (simp add: sample_host_def)
  moreover have "h_commands (snd (prepare_sources sample_config (sample_host\<lparr>h_linux := True\<rparr>))) \<noteq> []" by code_simp
  moreover have "source_ok (\<lambda>_. True) comma_source" by code_simp
  moreover have "(case mount_source comma_source (sample_host\<lparr>h_linux := True\<rparr>) of (r, h) \<Rightarrow>
      r = Inr () \<and> map (\<lambda>cmd. read_only_options (cmd ! 4)) (h_commands h) = [False])" by code_simp
  ultimately show ?thesis by auto
qed

text \<open>
  C29. The wait for nbdkit ends. \<open>start\<close> returns or raises, whatever the unit does: the loop
  never exhausts its 201 rounds, a normal return means that the socket was there at the last
  look, and giving up on the socket takes at least ten seconds.
\<close>

theorem nbdkit_start_ends:
  assumes "\<forall>n c t e. fst (h_run h n c t) = Inl e \<longrightarrow> (\<exists>k. e = OSError k)"
  shows "case nbdkit_start nm image_size state foreground h of (r, h') \<Rightarrow>
    r \<noteq> Inl OutOfFuel \<and>
    (r = Inr () \<longrightarrow> (\<exists>h0. path_exists (path_of (nm_socket_path nm)) h0 = (Inr True, h'))) \<and>
    (r = Inl (NbdkitError (lit ''nbdkit socket did not appear: '' @ nm_socket_path nm)) \<longrightarrow>
       h_clock h + 10000 \<le> h_clock h')"
proof -
  obtain r h' where e: "nbdkit_start nm image_size state foreground h = (r, h')" by fastforce
  from nbdkit_start_outcome [OF e assms] show ?thesis using e by (auto simp del: lit_Cons)
qed

theorem nbdkit_start_ends_witness:
  "fst (nbdkit_start default_nbdkit_manager 512 DEFAULT_STATE_PATH False sample_host) \<noteq> Inl OutOfFuel"
proof -
  have "\<forall>n c t e. fst (h_run sample_host n c t) = Inl e \<longrightarrow> (\<exists>k. e = OSError k)" by (simp add: sample_host_def)
  from nbdkit_start_ends [OF this, of default_nbdkit_manager 512 DEFAULT_STATE_PATH False] show ?thesis
    by (auto split: prod.splits)
qed

text \<open>
  C30. The console never sees a writable medium. In every outcome of \<open>bind\<close>, failures and
  retries included, a controller is only ever written to the gadget after \<open>ro = 1\<close> and after
  the backing device; when \<open>bind\<close> succeeds, the last thing written is the chosen controller.
\<close>

theorem bind_is_read_only_first:
  assumes "gd_serial_path g \<noteq> udc_attr g"
  shows "\<exists>new. h_writes (snd (bind_gadget lower fresh limit g medium udc h)) = new @ h_writes h \<and>
    exposed_ok g medium new \<and>
    (\<forall>chosen. fst (bind_gadget lower fresh limit g medium udc h) = Inr chosen \<longrightarrow>
       (\<exists>log. new = (udc_attr g, chosen) # log))"
  using bind_gadget_log [OF assms, of medium lower fresh limit udc] unfolding binds_safely_def by (rule spec)

theorem bind_is_read_only_first_witness:
  "\<exists>new. h_writes (snd (bind_gadget (\<lambda>s. s) (lit ''0123456789ab'') 1000 default_gadget (lit ''/dev/nbd0'') None
       sample_host)) = new @ [] \<and> exposed_ok default_gadget (lit ''/dev/nbd0'') new"
proof -
  have "gd_serial_path default_gadget \<noteq> udc_attr default_gadget" by code_simp
  note bind_is_read_only_first [OF this, of "\<lambda>s. s" "lit ''0123456789ab''" 1000 "lit ''/dev/nbd0''" None sample_host]
  moreover have "h_writes sample_host = []" by (simp add: sample_host_def)
  ultimately show ?thesis by (metis (no_types))
qed

text \<open>
  C31. The automatic choice of a controller. On a host without faults whose usable controllers
  report speeds as the kernel writes them, the controller selected for no port, an empty port
  or \<open>auto\<close> is an entry of the UDC directory that sysfs shows to be usable in device mode (its
  first readable role attribute names a device role, or it has none but a state), and no other
  such entry is faster in kbit/s, or as fast with a smaller name.
\<close>

theorem fastest_controller_selected:
  assumes "steady h" "fst (select_udc lower g requested h) = Inr name"
    and "requested \<in> {None, Some [], Some (lit ''auto'')}"
    and "\<forall>es p. answer (list_dir (gd_udc_root g)) h = Some es \<and> p \<in> set es \<and> device_mode lower h p \<longrightarrow>
      reported_speed lower h p \<in> fst ` set kernel_speeds"
  shows "\<exists>es best. answer (list_dir (gd_udc_root g)) h = Some es \<and> best \<in> set es \<and> device_mode lower h best \<and>
    name = path_name best \<and>
    (\<forall>p\<in>set es. device_mode lower h p \<longrightarrow>
      kbit_per_s (reported_speed lower h p) < kbit_per_s (reported_speed lower h best) \<or>
      kbit_per_s (reported_speed lower h p) = kbit_per_s (reported_speed lower h best) \<and> name \<le> path_name p)"
proof -
  have "select_udc lower g requested = select_auto lower g"
    using assms(3) by (auto simp: select_udc_def simp del: lit_Cons)
  with assms(2) have auto: "fst (select_auto lower g h) = Inr name" by (simp only:)
  show ?thesis by (rule select_fastest [OF assms(1) auto]) (use assms(4) in blast)
qed

theorem fastest_controller_selected_witness:
  "\<exists>es best. answer (list_dir (gd_udc_root default_gadget)) sample_host = Some es \<and> best \<in> set es \<and>
     device_mode (\<lambda>s. s) sample_host best \<and> path_name best = lit ''b''"
proof -
  have sel: "fst (select_udc (\<lambda>s. s) default_gadget (Some (lit ''auto'')) sample_host) = Inr (lit ''b'')" by code_simp
  have "\<forall>p\<in>set (the (answer (list_dir (gd_udc_root default_gadget)) sample_host)).
      reported_speed (\<lambda>s. s) sample_host p \<in> fst ` set kernel_speeds" by code_simp
  then have "\<forall>es p. answer (list_dir (gd_udc_root default_gadget)) sample_host = Some es \<and> p \<in> set es \<and>
      device_mode (\<lambda>s. s) sample_host p \<longrightarrow> reported_speed (\<lambda>s. s) sample_host p \<in> fst ` set kernel_speeds"
    by (metis option.sel)
  from fastest_controller_selected [OF sample_steady sel _ this] obtain es best where
    "answer (list_dir (gd_udc_root default_gadget)) sample_host = Some es" "best \<in> set es"
    "device_mode (\<lambda>s. s) sample_host best" "lit ''b'' = path_name best"
    by (auto simp del: lit_Cons split_paired_Ex)
  then show ?thesis by (intro exI [of _ es] exI [of _ best]) (simp only: simp_thms)
qed

text \<open>
  C32. Tearing down. On a host without faults, when \<open>unbind\<close> returns normally, the gadget's
  directory is gone, whether it existed or not.
\<close>

theorem unbind_removes_gadget:
  assumes "steady h" "\<not> h_virtual h (gd_root g)" "snd (gd_root g) \<noteq> []" "fst (unbind limit g h) = Inr ()"
  shows "answer (path_exists (gd_root g)) (snd (unbind limit g h)) = Some False"
  by (rule unbind_gone [OF assms(1-3)]) (use assms(4) in \<open>simp add: prod_eq_iff\<close>)

theorem unbind_removes_gadget_witness:
  "answer (path_exists (gd_root default_gadget)) (snd (unbind 9 default_gadget sample_host)) = Some False"
proof (rule unbind_removes_gadget [OF sample_steady])
  show "\<not> h_virtual sample_host (gd_root default_gadget)" by code_simp
  show "snd (gd_root default_gadget) \<noteq> []" by code_simp
  show "fst (unbind 9 default_gadget sample_host) = Inr ()" by code_simp
qed

text \<open>
  C33. The prefetch worker. With intervals of at least a second, the worker ends after the
  stop event is set (and needs no more rounds than seconds until then), leaves no nbdsh
  process behind, and reports only passes that completed before the stop, each with the
  length of all hot ranges.
\<close>

theorem prefetch_worker_stops:
  assumes "nb_child s = None" "no_marker s" "nb_stop_at s = Some stop" "stop - nb_clock s < 1000 * int n" "0 < n"
    and "list_all (\<lambda>i. 1 \<le> i) (worker_intervals (pw_policy w))"
  shows "case worker_run n w s of (r, s') \<Rightarrow>
    r \<noteq> Inl OutOfFuel \<and> nb_child s' = None \<and> recorded w s s'"
proof -
  obtain r s' where e: "worker_run n w s = (r, s')" by fastforce
  have "list_all (\<lambda>i. 0 \<le> i) (worker_intervals (pw_policy w))"
    using assms(6) by (rule list.pred_mono_strong) simp
  note run = worker_run_spec [OF e assms(1,2) this]
  show ?thesis using run(1,2) run(3) [OF assms(3,6,4,5)] e by simp
qed

definition sample_nbdsh :: nbdsh where
  \<comment> \<open>a pass takes 2 s, the stop comes after 700 s\<close>
  "sample_nbdsh = \<lparr>nb_clock = 0, nb_count = 0, nb_late = (\<lambda>_. 0), nb_stop_at = Some 700000,
     nb_popen = (\<lambda>_ _. Inr ()), nb_exit = (\<lambda>_ _. Some (2000, 0)), nb_run = (\<lambda>_ _. Inr (0, [])),
     nb_child = None, nb_passes = []\<rparr>"

theorem prefetch_worker_stops_witness:
  "\<exists>l. build sample_fs 1000 sample_upper sample_builder = Inr l \<and>
     fst (worker_run 701 \<lparr>pw_layout = l, pw_socket_path = [], pw_policy = default_prefetch\<rparr> sample_nbdsh) \<noteq> Inl OutOfFuel"
proof -
  obtain l where l: "build sample_fs 1000 sample_upper sample_builder = Inr l" using sample_build by blast
  let ?w = "\<lparr>pw_layout = l, pw_socket_path = [], pw_policy = default_prefetch\<rparr>"
  have "case worker_run 701 ?w sample_nbdsh of (r, s') \<Rightarrow>
    r \<noteq> Inl OutOfFuel \<and> nb_child s' = None \<and> recorded ?w sample_nbdsh s'"
    by (rule prefetch_worker_stops [where stop = 700000])
      (simp_all add: sample_nbdsh_def no_marker_def worker_intervals_def default_prefetch_def)
  with l show ?thesis by (auto split: prod.splits)
qed

section \<open>The service\<close>

text \<open>
  C34. The mapper state is replaced atomically. Whatever fails while a generation is
  published, the state file keeps its old content, or holds the whole new state with the
  group of the service and mode 0640, and then only when the publication succeeded.
\<close>

theorem state_file_atomic:
  assumes "\<forall>q. lookup (h_tree h) (temporary_name pid (path_of state_path)) \<noteq> Some (Link q)"
    and "\<forall>d. below d (path_of state_path) \<longrightarrow> h_attributes h d = []"
  shows "case publish_state pid state_path payload h of (r, h') \<Rightarrow>
    (\<exists>e. r = Inl e) \<and> lookup (h_tree h') (path_of state_path) = lookup (h_tree h) (path_of state_path) \<or>
    (\<exists>gid. r = Inr () \<and> h_group h = Some gid \<and>
       lookup (h_tree h') (path_of state_path) = Some (Blob payload gid 0x1A0))"
proof -
  obtain r h' where e: "publish_state pid state_path payload h = (r, h')" by fastforce
  from publish_state_atomic [OF e assms] e show ?thesis
    by (cases r) (simp_all add: published_def)
qed

theorem state_file_atomic_witness:
  "case publish_state 7 (lit ''/var/lib/remotepfs/mapper.state'') [1, 2] sample_host of (r, h') \<Rightarrow>
    lookup (h_tree h') (path_of (lit ''/var/lib/remotepfs/mapper.state'')) = Some (Blob [1, 2] 990 0x1A0)"
proof -
  let ?path = "lit ''/var/lib/remotepfs/mapper.state''"
  have "lookup (h_tree sample_host) (temporary_name 7 (path_of ?path)) = None" by code_simp
  then have link: "\<forall>q. lookup (h_tree sample_host) (temporary_name 7 (path_of ?path)) \<noteq> Some (Link q)" by simp
  have attr: "\<forall>d. below d (path_of ?path) \<longrightarrow> h_attributes sample_host d = []" by (simp add: sample_host_def)
  have "fst (publish_state 7 ?path [1, 2] sample_host) = Inr ()" by code_simp
  moreover have "h_group sample_host = Some 990" by (simp add: sample_host_def)
  ultimately show ?thesis using state_file_atomic [OF link attr, of "[1, 2]"] by (auto split: prod.splits)
qed

text \<open>
  C35. The control plane keeps its books. In every state that the service and the interleaved
  threads of its requests and of its prefetch workers can reach, the reload lock is held exactly
  while one activation is in progress or one prefetch pass is being recorded, and never by two
  of them; while it is held every request to activate is refused. Generation numbers are
  positive and below the counter, every generation (compiled, active or about to be activated)
  has a volume of the configured size, and the state is \<open>running\<close> only with an active generation.
\<close>

theorem service_books:
  assumes "reachable ev (new_service config_path state_path h) (s, p)"
  shows "length (pn_cutovers p) + length (pn_records p) = (if sv_locked s then 1 else 0) \<and>
    (sv_locked s \<longrightarrow> (\<forall>n. \<exists>e. fst (acquire_reload n s) = Inl e)) \<and>
    distinct (map fst (sv_compiled s)) \<and>
    (\<forall>(n, g)\<in>set (sv_compiled s). gen_number g = n \<and> good_generation (sv_next_generation s) g) \<and>
    (\<forall>(g, t)\<in>set (pn_cutovers p). good_generation (sv_next_generation s) g) \<and>
    (\<forall>g. sv_active s = Some g \<longrightarrow> good_generation (sv_next_generation s) g) \<and>
    (sv_state s = lit ''running'' \<longrightarrow> sv_active s \<noteq> None)"
  using reachable_inv [OF assms] locked_refuses [of s] unfolding svc_inv_def list_all_iff prod.case
  by (simp del: lit_Cons)

theorem service_books_witness:
  "\<exists>s p. reachable sample_env sample_service (s, p) \<and> pn_records p = [7] \<and> sv_locked s"
proof -
  obtain r s where "startup sample_env sample_service = (r, s)" by fastforce
  then have r: "reachable sample_env sample_service (s, no_pending)"
    by (rule reachable.start)
  from service_books [OF r [unfolded sample_service_def]] have "\<not> sv_locked s"
    by (auto simp: no_pending_def)
  then have "record_enter s = Some (s\<lparr>sv_locked := True\<rparr>)" by (simp add: record_enter_def)
  from reachable.step [OF r svc_step.enter_record [OF this, of 7]]
  have "reachable sample_env sample_service (s\<lparr>sv_locked := True\<rparr>, no_pending\<lparr>pn_records := [7]\<rparr>)"
    by (simp add: no_pending_def)
  then show ?thesis by (intro exI) auto
qed

text \<open>
  C36. A failed request leaves the old configuration in charge. When replacing the
  configuration raises, the active generation and the reported state are those before and the
  lock is free; when it already fails to compile, nothing but the host has changed and no
  attribute of the gadget was written. (After a failed cutover the state still reads
  \<open>running\<close>, although the gadget may have been unbound.)
\<close>

theorem failed_replace_keeps_serving:
  assumes "replace_config ev text s = (Inl e, s')" "\<not> sv_locked s"
  shows "sv_active s' = sv_active s \<and> sv_state s' = sv_state s \<and> sv_state_detail s' = sv_state_detail s \<and>
    \<not> sv_locked s' \<and>
    ((\<exists>e'. fst (compile_config ev text s) = Inl e') \<longrightarrow>
      s' = s\<lparr>sv_host := sv_host s'\<rparr> \<and> h_writes (sv_host s') = h_writes (sv_host s))"
  using replace_config_failure(1-4) [OF assms] replace_config_failure(5) [OF assms] by blast

theorem failed_replace_keeps_serving_witness:
  "\<exists>e s'. replace_config sample_env [] sample_service = (Inl e, s') \<and> sv_active s' = None \<and> \<not> sv_locked s'"
proof -
  have "utf8 [] = Inr []" "lstrip [] = ([] :: pystr)" by code_simp+
  then obtain e where "read_config sample_env [] = Inl e"
    by (simp add: read_config_def parse_def sample_env_def MAX_CONFIG_BYTES_def)
  then have f: "replace_config sample_env [] sample_service = (Inl e, sample_service)"
    by (simp add: replace_config_def compile_config_def bindp_def)
  have "\<not> sv_locked sample_service" "sv_active sample_service = None"
    by (simp_all add: sample_service_def new_service_def)
  with failed_replace_keeps_serving [OF f] f show ?thesis by auto
qed

text \<open>
  C37. A successful request goes live. When replacing the configuration succeeds, the active
  generation is the new one, compiled from the text of the request with the next number, its
  volume has the configured size, the response names it, and the lock is free again.
\<close>

theorem replace_goes_live:
  assumes "replace_config ev text s = (Inr i, s')" "\<not> sv_locked s"
  shows "\<exists>g. read_config ev text = Inr (gen_config g) \<and> sv_active s' = Some g \<and>
    gen_number g = sv_next_generation s \<and> ai_generation i = gen_number g \<and> sv_state s' = lit ''running'' \<and>
    \<not> sv_locked s' \<and> total_bytes (gen_layout g) = image_size_bytes (gen_config g)"
  by (rule replace_config_success [OF assms])

theorem replace_goes_live_witness:
  "\<exists>i s' g. replace_config sample_env [97] sample_service = (Inr i, s') \<and> sv_active s' = Some g \<and>
     gen_number g = 1 \<and> total_bytes (gen_layout g) = 1073741824"
proof -
  obtain i s' where r: "replace_config sample_env [97] sample_service = (Inr i, s')" using sample_replace by blast
  have "\<not> sv_locked sample_service" "sv_next_generation sample_service = 1"
    by (simp_all add: sample_service_def new_service_def)
  moreover have "image_size_bytes sample_config = 1073741824" by code_simp
  ultimately show ?thesis using replace_goes_live [OF r] sample_read_config r by fastforce
qed

text \<open>
  C38. Overlapping compilations collide. Two requests that compile at the same time can be
  given the same generation number; the second one then replaces the first in the table, so
  that activating the number the first request was told activates the other configuration.
\<close>

theorem compilations_collide:
  assumes "compile_begin ev c1 s = (Inr g1, s1)" "compile_begin ev c2 s1 = (Inr g2, s2)"
  shows "\<exists>s'. (svc_step ev)\<^sup>*\<^sup>* (s, p) (s', p) \<and> gen_number g1 = gen_number g2 \<and>
    gen_config g1 = c1 \<and> gen_config g2 = c2 \<and> map_of (sv_compiled s') (gen_number g1) = Some g2"
proof -
  have "gen_config g2 = c2" using compile_begin_outcome [OF assms(2)] by blast
  with overlapping_compiles [OF assms, of p] show ?thesis by blast
qed

theorem compilations_collide_witness:
  "\<exists>g s'. (svc_step sample_env)\<^sup>*\<^sup>* (sample_service, no_pending)
     (s', no_pending) \<and> gen_number g = 1 \<and> map_of (sv_compiled s') 1 = Some g"
proof -
  have "sv_host sample_service = sample_host\<lparr>h_calls := 0\<rparr>"
    by (simp add: sample_service_def new_service_def) (simp add: sample_host_def)
  then obtain g1 n where 1: "compile_begin sample_env sample_config sample_service =
      (Inr g1, sample_service\<lparr>sv_host := sample_host\<lparr>h_calls := n\<rparr>\<rparr>)" "gen_number g1 = 1"
    by (rule sample_begin) (simp add: sample_service_def new_service_def)
  obtain g2 s2 where 2: "compile_begin sample_env sample_config (sample_service\<lparr>sv_host := sample_host\<lparr>h_calls := n\<rparr>\<rparr>) =
      (Inr g2, s2)" by (rule sample_begin [of "sample_service\<lparr>sv_host := sample_host\<lparr>h_calls := n\<rparr>\<rparr>" n]) auto
  from compilations_collide [OF 1(1) 2] 1(2) show ?thesis by metis
qed

text \<open>
  C39. Shutting down always works. Whatever the managers raise, \<open>shutdown\<close> returns, the state
  is \<open>stopped\<close>, no prefetch worker is left, and the generations are as before.
\<close>

theorem shutdown_stops:
  "case shutdown ev s of (r, s') \<Rightarrow>
     r = Inr () \<and> sv_state s' = lit ''stopped'' \<and> sv_worker s' = None \<and>
     sv_active s' = sv_active s \<and> sv_compiled s' = sv_compiled s \<and> sv_locked s' = sv_locked s"
proof -
  obtain r s' where e: "shutdown ev s = (r, s')" by fastforce
  obtain t where "same_service s t" "s' = t\<lparr>sv_state := lit ''stopped'', sv_state_detail := lit ''shutdown''\<rparr>"
    using shutdown_outcome(2) [OF e] by blast
  then show ?thesis using shutdown_outcome(1,3) [OF e] e same_service_fields [of s t]
    by (simp del: lit_Cons)
qed

text \<open>
  C40. Responses of PUT. For a body that encodes a text, the status is 413 above 1 MiB, then
  415 for a content type that names neither YAML nor JSON, and otherwise 200, 422 or 500
  as replacing the configuration returns, raises a ConfigError or raises anything else. While
  a reload is running a valid configuration is answered with 500, not with 423.
\<close>

theorem put_responses:
  assumes "utf8 text = Inr body"
  shows "status_code (fst (api_put ev content_type body s)) =
    (if MAX_CONFIG_BYTES < int (length body) then 413
     else if \<not> contains (lit ''yaml'') content_type \<and> \<not> contains (lit ''yml'') content_type \<and>
       \<not> contains (lit ''json'') content_type then 415
     else case fst (replace_config ev text s) of
       Inr _ \<Rightarrow> 200 | Inl (ConfigError _ _) \<Rightarrow> 422 | Inl _ \<Rightarrow> 500) \<and>
    (sv_locked s \<and> (\<exists>i. fst (compile_config ev text s) = Inr i) \<longrightarrow>
     fst (replace_config ev text s) = Inl (RuntimeError (lit ''another reload is already running'')))"
proof -
  have "fst (replace_config ev text s) = Inl (RuntimeError (lit ''another reload is already running''))"
    if "sv_locked s" "fst (compile_config ev text s) = Inr i" for i
    by (rule replace_while_locked [OF that])
  moreover have "bindp (lift_r (utf8_decode body)) (replace_config ev) s = replace_config ev text s"
    by (simp add: bindp_def utf8_roundtrip [OF assms])
  moreover have "status_code (fst (api_put ev content_type body s)) =
    (if MAX_CONFIG_BYTES < int (length body) then 413
     else if \<not> contains (lit ''yaml'') content_type \<and> \<not> contains (lit ''yml'') content_type \<and>
       \<not> contains (lit ''json'') content_type then 415
     else case fst (bindp (lift_r (utf8_decode body)) (replace_config ev) s) of
       Inr _ \<Rightarrow> 200 | Inl e \<Rightarrow> status_code (unhandled ev e :: config_replace_response response))"
    by (simp add: api_put_def too_large_def respond_modelled_status del: lit_Cons)
  moreover have "status_code (unhandled ev e :: config_replace_response response) = (case e of ConfigError _ _ \<Rightarrow> 422 | _ \<Rightarrow> 500)" for e
    by (rule status_code_unhandled)
  ultimately show ?thesis by (simp only:) blast
qed

theorem put_responses_witness:
  "status_code (fst (api_put sample_env (lit ''text/plain'') [97] sample_service)) = 415 \<and>
   status_code (fst (api_put sample_env (lit ''application/yaml'') [97] sample_service)) = 200"
proof -
  have u: "utf8 [97] = Inr [97]" by code_simp
  have "\<not> contains (lit ''yaml'') (lit ''text/plain'')" "\<not> contains (lit ''yml'') (lit ''text/plain'')"
    "\<not> contains (lit ''json'') (lit ''text/plain'')" "contains (lit ''yaml'') (lit ''application/yaml'')" by code_simp+
  moreover obtain i where "fst (replace_config sample_env [97] sample_service) = Inr i"
    using sample_replace by fastforce
  ultimately show ?thesis
    using put_responses [OF u, of sample_env "lit ''text/plain''" sample_service]
      put_responses [OF u, of sample_env "lit ''application/yaml''" sample_service]
    by (simp add: MAX_CONFIG_BYTES_def del: lit_Cons)
qed

end
